(* ===== verification/Watchman_Prelude.thy ===== *)
theory Watchman_Prelude
  imports Main "HOL-Library.Word" "HOL-Library.Sublist"
begin

text \<open>
  Shared vocabulary of the development: the outcome type of a C++ call (a value, a thrown
  exception, the end of the process, or no defined outcome), the part of \<open>std::string\<close> the sources use with
  \<open>size_t\<close> kept at 64 bits, and the generic lemmas about substring search that the component
  theories rely on.
\<close>

named_theorems res_simps "how outcomes are sequenced"
named_theorems str_simps "std::string operations"
named_theorems reads_intros "operations that neither wait nor end the process"

section \<open>Outcomes of a call\<close>

text \<open>
  An exception is a value of \<open>exn\<close>; its payload is what \<open>what()\<close> returns. \<open>Library_error\<close> is an
  exception raised inside a library that is a parameter of the model. \<open>Abort\<close> is \<open>std::terminate\<close>, the
  end of the process. \<open>Undefined\<close> is a step whose effect the code does not determine: memory is read as
  something it is not, or written past its end. Nothing is claimed of what the process does after
  it. \<open>Block\<close> is a thread that waits on a condition variable. None of the three is caught by a \<open>catch\<close>.

  The model is of the default build, which is a Release build (\<open>third_party/spdlog/CMakeLists.txt\<close> sets the
  build type for the whole project) and therefore defines \<open>NDEBUG\<close>: \<open>assert\<close>, and with it
  \<open>RAPIDJSON_ASSERT\<close>, does nothing, and the code after it runs.
\<close>

datatype exn =
    Runtime_error string
  | Logic_error string
  | Out_of_range string
  | Bad_optional_access
  | Library_error string

fun exn_what :: "exn \<Rightarrow> string" where
  "exn_what (Runtime_error m) = m"
| "exn_what (Logic_error m) = m"
| "exn_what (Out_of_range m) = m"
| "exn_what Bad_optional_access = ''bad optional access''"
| "exn_what (Library_error m) = m"

datatype failure = Throw exn | Abort string | Undefined string | Block

type_synonym 'a res = "failure + 'a"

definition rbind :: "'a res \<Rightarrow> ('a \<Rightarrow> 'b res) \<Rightarrow> 'b res" where
  "rbind m f = (case m of Inl e \<Rightarrow> Inl e | Inr x \<Rightarrow> f x)"

definition try_catch :: "'a res \<Rightarrow> (exn \<Rightarrow> 'a res) \<Rightarrow> 'a res" where
  "try_catch m h = (case m of Inl (Throw e) \<Rightarrow> h e | Inl f \<Rightarrow> Inl f | Inr x \<Rightarrow> Inr x)"

lemma rbind_simps [simp, res_simps]:
  "rbind (Inr x) f = f x"
  "rbind (Inl e) f = Inl e"
  by (simp_all add: rbind_def)

lemma rbind_Inr_iff [res_simps]: "rbind m f = Inr y \<longleftrightarrow> (\<exists>x. m = Inr x \<and> f x = Inr y)"
  by (cases m) simp_all

lemma rbind_Inl_iff: "rbind m f = Inl e \<longleftrightarrow> m = Inl e \<or> (\<exists>x. m = Inr x \<and> f x = Inl e)"
  by (cases m) auto

lemma rbind_InrE [elim]:
  assumes "rbind m f = Inr y"
  obtains x where "m = Inr x" "f x = Inr y"
  using assms by (auto simp: rbind_Inr_iff)

lemma rbind_assoc: "rbind (rbind m f) g = rbind m (\<lambda>x. rbind (f x) g)"
  by (cases m) simp_all

lemma rbind_cong [fundef_cong]:
  "m = m' \<Longrightarrow> (\<And>x. m' = Inr x \<Longrightarrow> f x = g x) \<Longrightarrow> rbind m f = rbind m' g"
  by (cases m') simp_all

lemma try_catch_simps [simp, res_simps]:
  "try_catch (Inr x) h = Inr x"
  "try_catch (Inl (Throw e)) h = h e"
  "try_catch (Inl (Abort r)) h = Inl (Abort r)"
  "try_catch (Inl (Undefined r)) h = Inl (Undefined r)"
  "try_catch (Inl Block) h = Inl Block"
  by (simp_all add: try_catch_def)

fun mapM :: "('a \<Rightarrow> 'b res) \<Rightarrow> 'a list \<Rightarrow> 'b list res" where
  "mapM f [] = Inr []"
| "mapM f (x # xs) = rbind (f x) (\<lambda>y. rbind (mapM f xs) (\<lambda>ys. Inr (y # ys)))"

lemma mapM_Inr: "(\<And>x. x \<in> set xs \<Longrightarrow> f x = Inr (g x)) \<Longrightarrow> mapM f xs = Inr (map g xs)"
  by (induction xs) simp_all

text \<open>An operation that neither ends the process nor waits.\<close>

definition reads :: "'a res \<Rightarrow> bool" where
  "reads r \<longleftrightarrow> (\<forall>w. r \<noteq> Inl (Abort w)) \<and> r \<noteq> Inl Block"

lemma reads_simps [simp, reads_intros]: "reads (Inr x)" "reads (Inl (Throw e))" "reads (Inl (Undefined w))"
  by (simp_all add: reads_def)

lemma reads_rbind [reads_intros]: "reads m \<Longrightarrow> (\<And>x. m = Inr x \<Longrightarrow> reads (f x)) \<Longrightarrow> reads (rbind m f)"
  by (auto simp: reads_def rbind_Inl_iff)

lemma reads_if [reads_intros]: "(b \<Longrightarrow> reads x) \<Longrightarrow> (\<not> b \<Longrightarrow> reads y) \<Longrightarrow> reads (if b then x else y)"
  by simp

section \<open>Operations on a state\<close>

text \<open>
  An operation of a component with state returns its outcome and the state it leaves behind, also
  when the outcome is a failure: what was done before an exception stays done.
\<close>

type_synonym ('s, 'a) op = "'s \<Rightarrow> 'a res \<times> 's"

definition sret :: "'a \<Rightarrow> ('s, 'a) op" where
  "sret x s = (Inr x, s)"

definition slift :: "'a res \<Rightarrow> ('s, 'a) op" where
  "slift r s = (r, s)"

definition sbind :: "('s, 'a) op \<Rightarrow> ('a \<Rightarrow> ('s, 'b) op) \<Rightarrow> ('s, 'b) op" where
  "sbind m f s = (case m s of (Inl e, s') \<Rightarrow> (Inl e, s') | (Inr x, s') \<Rightarrow> f x s')"

text \<open>
  A scope whose exit runs a destructor: the destructor runs on every way out of the body, and a
  destructor that throws ends the process. A body that blocks has not left the scope.
\<close>

definition with_destructor :: "('s, 'a) op \<Rightarrow> ('s, unit) op \<Rightarrow> ('s, 'a) op" where
  "with_destructor body dtor s =
     (case body s of
        (Inl Block, s1) \<Rightarrow> (Inl Block, s1)
      | (Inl (Abort w), s1) \<Rightarrow> (Inl (Abort w), s1)
      | (Inl (Undefined w), s1) \<Rightarrow> (Inl (Undefined w), s1)
      | (r, s1) \<Rightarrow>
          (case dtor s1 of
             (Inr _, s2) \<Rightarrow> (r, s2)
           | (Inl (Throw e), s2) \<Rightarrow> (Inl (Abort ''std::terminate''), s2)
           | (Inl f, s2) \<Rightarrow> (Inl f, s2)))"

lemma sbind_simps [simp, res_simps]:
  "m s = (Inr x, s') \<Longrightarrow> sbind m f s = f x s'"
  "m s = (Inl e, s') \<Longrightarrow> sbind m f s = (Inl e, s')"
  by (simp_all add: sbind_def)

lemma sret_slift [simp, res_simps]: "sret x s = (Inr x, s)" "slift r s = (r, s)"
  by (simp_all add: sret_def slift_def)

lemma with_destructor_ok [simp, res_simps]:
  "body s = (Inr x, s1) \<Longrightarrow> dtor s1 = (Inr u, s2) \<Longrightarrow> with_destructor body dtor s = (Inr x, s2)"
  "body s = (Inl (Throw e), s1) \<Longrightarrow> dtor s1 = (Inr u, s2) \<Longrightarrow>
   with_destructor body dtor s = (Inl (Throw e), s2)"
  by (simp_all add: with_destructor_def)

section \<open>std::string over bytes\<close>

type_synonym size_t = "64 word"

definition npos :: size_t where
  "npos = - 1"

text \<open>
  No \<open>std::string\<close> is longer than its \<open>max_size()\<close>, which on a 64-bit target is \<open>2^63 - 1\<close>.
\<close>

definition fits :: "string \<Rightarrow> bool" where
  "fits s \<longleftrightarrow> length s < 2 ^ 63"

definition size_of :: "string \<Rightarrow> size_t" where
  "size_of s = word_of_nat (length s)"

fun find_pos :: "string \<Rightarrow> string \<Rightarrow> nat option" where
  "find_pos pat [] = (if pat = [] then Some 0 else None)"
| "find_pos pat (c # s) =
     (if prefix pat (c # s) then Some 0 else map_option Suc (find_pos pat s))"

definition str_find :: "string \<Rightarrow> string \<Rightarrow> size_t" where
  "str_find s pat = (case find_pos pat s of None \<Rightarrow> npos | Some i \<Rightarrow> word_of_nat i)"

definition substr :: "string \<Rightarrow> size_t \<Rightarrow> size_t \<Rightarrow> string res" where
  "substr s pos n =
     (if unat pos > length s then Inl (Throw (Out_of_range ''basic_string::substr''))
      else Inr (take (unat n) (drop (unat pos) s)))"

definition erase :: "string \<Rightarrow> size_t \<Rightarrow> size_t \<Rightarrow> string res" where
  "erase s pos n =
     (if unat pos > length s then Inl (Throw (Out_of_range ''basic_string::erase''))
      else Inr (take (unat pos) s @ drop (unat n) (drop (unat pos) s)))"

definition ends_with :: "string \<Rightarrow> string \<Rightarrow> bool" where
  "ends_with s suf \<longleftrightarrow> suffix suf s"

definition contains_str :: "string \<Rightarrow> string \<Rightarrow> bool" where
  "contains_str s pat \<longleftrightarrow> str_find s pat \<noteq> npos"

text \<open>What libstdc++ throws when a \<open>std::string\<close> is made from a null pointer.\<close>

definition null_string :: exn where
  "null_string = Logic_error ''basic_string: construction from null is not valid''"

text \<open>The bytes of a \<open>std::string\<close> up to its first NUL, as a \<open>const char *\<close> shows them.\<close>

definition c_str :: "string \<Rightarrow> string" where
  "c_str s = takeWhile (\<lambda>c. c \<noteq> CHR 0x00) s"

section \<open>Substring search\<close>

definition occurs :: "string \<Rightarrow> string \<Rightarrow> bool" where
  "occurs pat s \<longleftrightarrow> find_pos pat s \<noteq> None"

lemma find_pos_Nil [simp]: "find_pos [] s = Some 0"
  by (cases s) simp_all

lemma find_pos_SomeD:
  "find_pos pat s = Some i \<Longrightarrow> prefix pat (drop i s) \<and> i + length pat \<le> length s"
proof (induction s arbitrary: i)
  case (Cons c s)
  then show ?case by (auto split: if_splits dest: prefix_length_le)
qed (simp split: if_splits)

lemma find_pos_first: "find_pos pat s = Some i \<Longrightarrow> j < i \<Longrightarrow> \<not> prefix pat (drop j s)"
proof (induction s arbitrary: i j)
  case (Cons c s)
  then show ?case by (cases j) (auto split: if_splits)
qed (simp split: if_splits)

lemma find_pos_NoneD: "find_pos pat s = None \<Longrightarrow> \<not> prefix pat (drop j s)"
proof (induction s arbitrary: j)
  case (Cons c s)
  then show ?case by (cases j) (auto split: if_splits)
qed (simp split: if_splits)

lemma find_posI:
  assumes "prefix pat (drop i s)" and "\<And>j. j < i \<Longrightarrow> \<not> prefix pat (drop j s)" and "i \<le> length s"
  shows "find_pos pat s = Some i"
proof (cases "find_pos pat s")
  case None
  with assms(1) show ?thesis by (blast dest: find_pos_NoneD)
next
  case (Some k)
  with assms find_pos_SomeD[OF Some] find_pos_first[OF Some] show ?thesis
    by (metis linorder_neqE_nat)
qed

lemma occurs_iff: "occurs pat s \<longleftrightarrow> sublist pat s"
proof
  assume "occurs pat s"
  then obtain i where "find_pos pat s = Some i" by (auto simp: occurs_def)
  then show "sublist pat s"
    by (metis find_pos_SomeD append_take_drop_id prefix_def sublist_appendI)
next
  assume "sublist pat s"
  then obtain us vs where "s = us @ pat @ vs" by (auto simp: sublist_def)
  then have "prefix pat (drop (length us) s)" by simp
  then show "occurs pat s" unfolding occurs_def using find_pos_NoneD by blast
qed

text \<open>
  Where a pattern occurs in a concatenation: in one of the parts, or across the seam.
\<close>

lemma sublist_appendD:
  assumes "sublist p (xs @ ys)" and "\<not> sublist p xs" and "\<not> sublist p ys"
  shows "\<exists>k. 0 < k \<and> k < length p \<and> suffix (take k p) xs \<and> prefix (drop k p) ys"
proof -
  obtain us vs where eq: "xs @ ys = us @ p @ vs" using assms(1) by (auto simp: sublist_def)
  have lt: "length us < length xs"
  proof (rule ccontr)
    assume "\<not> ?thesis"
    then have "ys = drop (length xs) us @ p @ vs"
      using eq by (metis append_eq_append_conv_if not_less)
    with assms(3) show False by (metis sublist_appendI)
  qed
  obtain ws where xs: "xs = us @ ws" and ws: "ws @ ys = p @ vs"
    using eq lt by (metis append_eq_append_conv2 length_append not_add_less1 append_eq_append_conv_if
        append_take_drop_id less_imp_le_nat append_assoc same_append_eq)
  have "length ws < length p"
  proof (rule ccontr)
    assume "\<not> ?thesis"
    then have "prefix p ws" using ws by (metis append_eq_append_conv_if not_less prefix_def append_take_drop_id)
    with xs assms(2) show False by (metis prefix_def sublist_appendI)
  qed
  moreover have "ws \<noteq> []" using xs lt by auto
  moreover have "take (length ws) p = ws" and "prefix (drop (length ws) p) ys"
    using ws calculation by (auto simp: append_eq_append_conv2 prefix_def)
  ultimately show ?thesis
    using xs by (intro exI[of _ "length ws"]) (auto simp: suffix_def)
qed

lemma prefix_append_cases: "prefix p (xs @ ys) \<Longrightarrow> prefix p xs \<or> prefix xs p"
  using prefix_same_cases[of p "xs @ ys" xs] by simp

lemma find_pos_skip:
  "(\<And>j. j < length us \<Longrightarrow> \<not> prefix p (drop j us @ ys)) \<Longrightarrow>
   find_pos p (us @ ys) = map_option (\<lambda>i. length us + i) (find_pos p ys)"
proof (induction us)
  case Nil
  then show ?case by (simp add: option.map_ident)
next
  case (Cons u us)
  have "\<not> prefix p (drop j us @ ys)" if "j < length us" for j
    using Cons.prems[of "Suc j"] that by simp
  with Cons.IH Cons.prems[of 0] show ?case
    by (simp add: option.map_comp comp_def)
qed

lemma find_pos_extend:
  "find_pos p s = Some i \<Longrightarrow> prefix (p @ e) (drop i s) \<Longrightarrow> find_pos (p @ e) s = Some i"
  by (rule find_posI) (auto dest: find_pos_first append_prefixD find_pos_SomeD)

lemma find_pos_extend_None: "find_pos p s = None \<Longrightarrow> find_pos (p @ e) s = None"
  by (metis append_prefixD find_pos_NoneD find_pos_SomeD option.exhaust)

section \<open>Reading the 64-bit results back\<close>

lemma fits_unat: "fits s \<Longrightarrow> i \<le> length s \<Longrightarrow> unat (word_of_nat i :: size_t) = i"
  by (simp add: fits_def unat_of_nat take_bit_nat_eq_self)

lemma unat_size_of [simp, str_simps]: "fits s \<Longrightarrow> unat (size_of s) = length s"
  by (simp add: size_of_def fits_unat)

lemma erase_nat:
  "fits s \<Longrightarrow> i \<le> length s \<Longrightarrow>
   erase s (word_of_nat i) n = Inr (take i s @ drop (i + unat n) s)"
  by (simp add: erase_def fits_unat add.commute)

lemma substr_nat:
  "fits s \<Longrightarrow> i \<le> length s \<Longrightarrow> substr s (word_of_nat i) n = Inr (take (unat n) (drop i s))"
  by (simp add: substr_def fits_unat)

lemma substr_0 [simp]: "substr s 0 n = Inr (take (unat n) s)"
  by (simp add: substr_def)

lemma unat_npos [simp]: "unat npos = 2 ^ 64 - 1"
  by (simp add: npos_def unsigned_minus_1_eq_mask mask_eq_exp_minus_1)

lemma str_find_Some [str_simps]:
  assumes "fits s" and "find_pos pat s = Some i"
  shows "str_find s pat = word_of_nat i" and "unat (str_find s pat) = i" and "str_find s pat \<noteq> npos"
proof -
  have le: "i \<le> length s" using find_pos_SomeD[OF assms(2)] by simp
  show eq: "str_find s pat = word_of_nat i" by (simp add: str_find_def assms(2))
  show un: "unat (str_find s pat) = i" using fits_unat[OF assms(1) le] by (simp add: eq)
  have "i < 2 ^ 63" using assms(1) le by (simp add: fits_def)
  then show "str_find s pat \<noteq> npos"
    using un unat_npos by auto
qed

lemma str_find_None [str_simps]: "find_pos pat s = None \<Longrightarrow> str_find s pat = npos"
  by (simp add: str_find_def)

lemma contains_str_iff [str_simps]: "fits s \<Longrightarrow> contains_str s pat \<longleftrightarrow> occurs pat s"
  unfolding contains_str_def occurs_def
  by (cases "find_pos pat s") (simp_all add: str_find_Some(3) str_find_None)

lemma fits_append [dest]: "fits (xs @ ys) \<Longrightarrow> fits xs" "fits (xs @ ys) \<Longrightarrow> fits ys"
  by (simp_all add: fits_def)

lemma c_str_idem [simp]: "c_str (c_str s) = c_str s"
  by (simp add: c_str_def)

end
