(* ===== verification/Domain_Types.thy ===== *)
theory Domain_Types
  imports Watchman_Prelude
begin

text \<open>
  The data types of \<open>src/common\<close> and of the code launcher interface: the API and language
  enumerations, request parameters, project trees, the configuration and the response of a run.
\<close>

section \<open>Enumerations (common/api.hpp)\<close>

datatype Api = Chapter | Playground | Practice_api

type_synonym Action = Api

datatype Language = CPP | GO | HASKELL | PYTHON | RUST

text \<open>The underlying values, which order the keys of \<open>std::map<Action, \<dots>>\<close>.\<close>

fun api_value :: "Api \<Rightarrow> nat" where
  "api_value Chapter = 0"
| "api_value Playground = 1"
| "api_value Practice_api = 2"

lemma api_value_inject [simp]: "api_value a = api_value b \<longleftrightarrow> a = b"
  by (cases a; cases b) simp_all

instantiation Api :: linorder
begin

definition less_eq_Api :: "Api \<Rightarrow> Api \<Rightarrow> bool" where
  "less_eq_Api a b \<longleftrightarrow> api_value a \<le> api_value b"

definition less_Api :: "Api \<Rightarrow> Api \<Rightarrow> bool" where
  "less_Api a b \<longleftrightarrow> api_value a < api_value b"

instance
  by standard (auto simp: less_eq_Api_def less_Api_def)

end

section \<open>Projects and request parameters (common/project.hpp, common/run_params.hpp)\<close>

record PathContent =
  path :: string
  content :: string
  isMain :: bool
  isDir :: bool

record Project =
  project_name :: string
  pathsContents :: "PathContent list"

datatype PracticeAction = Run | Test

record Practice =
  practice_project :: Project
  practice_action :: PracticeAction

record RequiredParams =
  language :: Language
  cmdLineArgs :: "string list"

record ChapterTaskParams = RequiredParams +
  sourceRun :: string
  sourceTest :: string

record PlaygroundTaskParams = RequiredParams +
  project :: Project

record RunPracticeParams =
  practice_language :: Language
  userCmdLineArgs :: string
  pathToMainFile :: string
  practice :: Practice

text \<open>
  \<open>return {}\<close> value-initialises these aggregates: an enumeration gets its zero value, so the
  language is \<open>CPP\<close> and the practice action is \<open>Run\<close>; strings and vectors are empty.
\<close>

definition empty_Project :: Project where
  "empty_Project = \<lparr>project_name = [], pathsContents = []\<rparr>"

definition empty_RequiredParams :: RequiredParams where
  "empty_RequiredParams = \<lparr>language = CPP, cmdLineArgs = []\<rparr>"

definition empty_ChapterTaskParams :: ChapterTaskParams where
  "empty_ChapterTaskParams =
     \<lparr>language = CPP, cmdLineArgs = [], sourceRun = [], sourceTest = []\<rparr>"

definition empty_PlaygroundTaskParams :: PlaygroundTaskParams where
  "empty_PlaygroundTaskParams = \<lparr>language = CPP, cmdLineArgs = [], project = empty_Project\<rparr>"

definition empty_RunPracticeParams :: RunPracticeParams where
  "empty_RunPracticeParams =
     \<lparr>practice_language = CPP, userCmdLineArgs = [], pathToMainFile = [],
      practice = \<lparr>practice_project = empty_Project, practice_action = Run\<rparr>\<rparr>"

section \<open>Files and directories (common/detail/project_utils.hpp)\<close>

record File =
  file_name :: string
  file_content :: string
  file_isMain :: bool

datatype Directory = Directory (dir_name: string) (dir_files: "File list") (dir_directories: "Directory list")

section \<open>Configuration (common/config.hpp)\<close>

record ContainerInfo =
  imageName :: string
  launched :: "32 word"

text \<open>
  \<open>std::unordered_map<Language, ContainerInfo>\<close>: keys are unique and a traversal visits every
  entry once, in an order the standard does not fix. The association list is that traversal order.
\<close>

type_synonym ConfigContainerStorage = "(Language \<times> ContainerInfo) list"

record Config =
  threadPoolSize :: size_t
  maxContainersAmount :: "32 word"
  courses :: ConfigContainerStorage
  playgrounds :: ConfigContainerStorage
  practices :: ConfigContainerStorage

section \<open>Responses (core/code_launcher/response.hpp, code_launcher_info.hpp)\<close>

type_synonym ErrorCode = "32 word"

definition kSuccessCode :: ErrorCode where "kSuccessCode = 0"
definition kUserCodeError :: ErrorCode where "kUserCodeError = 1"
definition kTestsError :: ErrorCode where "kTestsError = 2"
definition kInvalidCode :: ErrorCode where "kInvalidCode = - 1"

lemmas error_codes = kSuccessCode_def kUserCodeError_def kTestsError_def kInvalidCode_def

definition errorCodeIsUnexpected :: "ErrorCode \<Rightarrow> bool" where
  "errorCodeIsUnexpected code \<longleftrightarrow>
     code \<noteq> kSuccessCode \<and> code \<noteq> kUserCodeError \<and> code \<noteq> kTestsError"

record Response =
  sourceCode :: ErrorCode
  output_text :: string
  testsOutput :: "string option"

definition mk_response :: "ErrorCode \<Rightarrow> string \<Rightarrow> string option \<Rightarrow> Response" where
  "mk_response c out t = \<lparr>sourceCode = c, output_text = out, testsOutput = t\<rparr>"

text \<open>The member initialisers of \<open>Response\<close>, which \<open>return {}\<close> uses.\<close>

definition default_Response :: Response where
  "default_Response = mk_response kInvalidCode [] None"

lemma mk_response_sel [simp]:
  "sourceCode (mk_response c out t) = c"
  "output_text (mk_response c out t) = out"
  "testsOutput (mk_response c out t) = t"
  by (simp_all add: mk_response_def)

lemma mk_response_eq [simp]:
  "mk_response c out t = mk_response c' out' t' \<longleftrightarrow> c = c' \<and> out = out' \<and> t = t'"
  by (simp add: mk_response_def)

record CodeLauncherInfo =
  info_containerId :: string
  info_image :: string
  info_type :: Language

end
