(* ===== verification/Container_Answer.thy ===== *)
theory Container_Answer
  imports Domain_Types
begin

text \<open>
  What the service makes of the text a container prints: \<open>src/common/detail/answer_common\<close> and
  \<open>src/core/code_launcher/detail/process_chapter.cpp\<close>, \<open>process_playground.cpp\<close>,
  \<open>process_practice.cpp\<close>. The scripts inside a container separate the user's output, the tests'
  output and the verdict with marker strings; the code finds the markers with \<open>size_t\<close>
  arithmetic. The locale \<open>markers\<close> states what makes a set of marker strings separable, and the
  interpretation shows that the four markers of the code have it.
\<close>

section \<open>Constants (answer_common.hpp)\<close>

datatype ExitCodes = Ok | UserError | TestError | Unknown | Raw_code "32 word"

text \<open>
  \<open>ExitCodes\<close> has the underlying type \<open>int32_t\<close>; \<open>Raw_code\<close> stands for the values outside the
  enumerators that \<open>static_cast<ExitCodes>\<close> produces.
\<close>

fun exit_code_value :: "ExitCodes \<Rightarrow> 32 word" where
  "exit_code_value Ok = 0"
| "exit_code_value UserError = 1"
| "exit_code_value TestError = 2"
| "exit_code_value Unknown = 3"
| "exit_code_value (Raw_code c) = c"

record ContainerMessages =
  usersOutput :: string
  container_testsOutput :: string

definition kRNEscapeSequence :: string where
  "kRNEscapeSequence = [CHR 0x0D, CHR 0x0A]"

definition kTimeoutUtilCodes :: "(string \<times> 32 word) list" where
  "kTimeoutUtilCodes =
     [(''124'' @ kRNEscapeSequence, 124), (''125'' @ kRNEscapeSequence, 125),
      (''137'' @ kRNEscapeSequence, 137)]"

definition kCodeTestsSeparator :: string where
  "kCodeTestsSeparator = ''user_code_ok_f936a25e''"

definition kEscapedCodeTestsSeparator :: string where
  "kEscapedCodeTestsSeparator = kCodeTestsSeparator @ kRNEscapeSequence"

definition kUserCodeSeparator :: string where
  "kUserCodeSeparator = ''user_solution_ok_f936a25e''"

definition kEscapedUserCodeSeparator :: string where
  "kEscapedUserCodeSeparator = kUserCodeSeparator @ kRNEscapeSequence"

definition kTestCasesError :: string where
  "kTestCasesError = ''tests_cases_error_f936a25e''"

definition kEscapedTestCasesError :: string where
  "kEscapedTestCasesError = kTestCasesError @ kRNEscapeSequence"

definition kUserSolutionError :: string where
  "kUserSolutionError = ''user_solution_error_f936a25e''"

definition kEscapedUserSolutionError :: string where
  "kEscapedUserSolutionError = kUserSolutionError @ kRNEscapeSequence"

record MarkToStatusCode =
  mark_string :: string
  mark_code :: ExitCodes

definition kCorrelations :: "MarkToStatusCode list" where
  "kCorrelations =
     [\<lparr>mark_string = ''user_solution_ok_f936a25e'', mark_code = Ok\<rparr>,
      \<lparr>mark_string = ''user_solution_error_f936a25e'', mark_code = UserError\<rparr>,
      \<lparr>mark_string = ''tests_cases_error_f936a25e'', mark_code = TestError\<rparr>]"

definition kEscapePatterns :: "string list" where
  "kEscapePatterns =
     [kEscapedCodeTestsSeparator, kEscapedUserCodeSeparator, kEscapedTestCasesError,
      kEscapedUserSolutionError]"

section \<open>Operations (answer_common.cpp)\<close>

fun getStringLength :: "ExitCodes \<Rightarrow> size_t" where
  "getStringLength Ok = size_of (mark_string (kCorrelations ! 0))"
| "getStringLength UserError = size_of (mark_string (kCorrelations ! 1))"
| "getStringLength TestError = size_of (mark_string (kCorrelations ! 2))"
| "getStringLength Unknown = - 1"
| "getStringLength (Raw_code _) = - 1"

fun timeout_code :: "string \<Rightarrow> (string \<times> 32 word) list \<Rightarrow> ExitCodes option" where
  "timeout_code containerOutput [] = None"
| "timeout_code containerOutput ((codeStr, code) # cs) =
     (if ends_with containerOutput codeStr then Some (Raw_code code)
      else timeout_code containerOutput cs)"

fun correlation_code :: "string \<Rightarrow> MarkToStatusCode list \<Rightarrow> ExitCodes option" where
  "correlation_code containerOutput [] = None"
| "correlation_code containerOutput (pattern # ps) =
     (if str_find containerOutput (mark_string pattern) \<noteq> npos then Some (mark_code pattern)
      else correlation_code containerOutput ps)"

definition getExitCode :: "string \<Rightarrow> ExitCodes" where
  "getExitCode containerOutput =
     (case timeout_code containerOutput kTimeoutUtilCodes of
        Some c \<Rightarrow> c
      | None \<Rightarrow>
          (case correlation_code containerOutput kCorrelations of
             Some c \<Rightarrow> c
           | None \<Rightarrow> Unknown))"

lemma cut_shorter:
  "i + 2 \<le> length s \<Longrightarrow> a \<le> i \<Longrightarrow> length (take a s @ drop 2 (drop a s)) < length s"
  by simp

lemma erase_shorter:
  assumes "str_find s kRNEscapeSequence \<noteq> npos"
    and "erase s (str_find s kRNEscapeSequence) (size_of kRNEscapeSequence) = Inr t"
  shows "length t < length s"
proof -
  obtain i where i: "find_pos kRNEscapeSequence s = Some i"
    using assms(1) by (cases "find_pos kRNEscapeSequence s") (auto simp: str_find_None)
  have "i + 2 \<le> length s"
    using find_pos_SomeD[OF i] by (simp add: kRNEscapeSequence_def)
  moreover have "unat (word_of_nat i :: size_t) \<le> i"
    by (simp add: unat_of_nat take_bit_nat_less_eq_self)
  moreover have "unat (size_of kRNEscapeSequence) = 2"
    by (simp add: size_of_def kRNEscapeSequence_def)
  moreover have "t = take (unat (word_of_nat i :: size_t)) s
      @ drop (unat (size_of kRNEscapeSequence)) (drop (unat (word_of_nat i :: size_t)) s)"
    using assms(2) unfolding erase_def str_find_def i option.case
    by (simp only: split: if_splits) (simp_all only: sum.inject sum.distinct)
  ultimately show ?thesis by (metis cut_shorter)
qed

text \<open>
  The loop \<open>while (size_t const from = find(..))\<close> also stops when the sequence is found at
  position 0, because \<open>from\<close> is then false.
\<close>

function removeEscapeSequences :: "string \<Rightarrow> string res" where
  "removeEscapeSequences noEscapeString =
     (let from = str_find noEscapeString kRNEscapeSequence in
      if from = 0 then Inr noEscapeString
      else if from = npos then Inr noEscapeString
      else rbind (erase noEscapeString from (size_of kRNEscapeSequence)) removeEscapeSequences)"
  by pat_completeness auto
termination
  by (relation "measure length") (auto simp: Let_def intro: erase_shorter)

declare removeEscapeSequences.simps [simp del]

definition tender_step :: "string \<Rightarrow> string \<Rightarrow> string res" where
  "tender_step noExcessEscapeSymbols pattern =
     (let beginPattern = str_find noExcessEscapeSymbols pattern in
      if beginPattern = npos then Inr noExcessEscapeSymbols
      else (let beginRN = beginPattern + size_of pattern - size_of kRNEscapeSequence in
            erase noExcessEscapeSymbols beginRN (size_of kRNEscapeSequence)))"

fun tender_loop :: "string \<Rightarrow> string list \<Rightarrow> string res" where
  "tender_loop s [] = Inr s"
| "tender_loop s (pattern # ps) = rbind (tender_step s pattern) (\<lambda>s'. tender_loop s' ps)"

definition removeEscapeSequencesTender :: "string \<Rightarrow> string res" where
  "removeEscapeSequencesTender s = tender_loop s kEscapePatterns"

definition hasEscapeSequence :: "string \<Rightarrow> bool" where
  "hasEscapeSequence s = ends_with s kRNEscapeSequence"

section \<open>Chapters (process_chapter.cpp)\<close>

definition getMessageOutput :: "ExitCodes \<Rightarrow> string \<Rightarrow> ContainerMessages res" where
  "getMessageOutput code messages =
     (let userCodeEndIndex = str_find messages kCodeTestsSeparator in
      rbind (if userCodeEndIndex = 0 then Inr [] else substr messages 0 userCodeEndIndex)
        (\<lambda>users.
           let from = userCodeEndIndex + size_of kCodeTestsSeparator;
               amount = size_of messages - from - getStringLength code
           in rbind (substr messages from amount)
                (\<lambda>tests. Inr \<lparr>usersOutput = users, container_testsOutput = tests\<rparr>)))"

definition getUserOutput :: "string \<Rightarrow> string res" where
  "getUserOutput message = substr message 0 (size_of message - getStringLength UserError)"

definition processChapter :: "string \<Rightarrow> Response res" where
  "processChapter message =
     (let exitCode = getExitCode message in
      case exitCode of
        Ok \<Rightarrow> rbind (getMessageOutput Ok message)
          (\<lambda>m. Inr (mk_response kSuccessCode (usersOutput m) (Some (container_testsOutput m))))
      | UserError \<Rightarrow> rbind (getUserOutput message)
          (\<lambda>u. Inr (mk_response kUserCodeError u None))
      | TestError \<Rightarrow> rbind (getMessageOutput TestError message)
          (\<lambda>m. Inr (mk_response kTestsError (usersOutput m) (Some (container_testsOutput m))))
      | _ \<Rightarrow> Inr (mk_response (exit_code_value exitCode) ''Internal error'' (Some [])))"

definition getCourseResponse :: "string \<Rightarrow> Response res" where
  "getCourseResponse message =
     (if hasEscapeSequence message
      then rbind (removeEscapeSequencesTender message) processChapter
      else processChapter message)"

section \<open>Playground and practice (process_playground.cpp, process_practice.cpp)\<close>

definition getMessageOutput_playground :: "string \<Rightarrow> string res" where
  "getMessageOutput_playground messages =
     (let userCodeEndIndex = str_find messages kUserCodeSeparator in
      if userCodeEndIndex = 0 then Inr [] else substr messages 0 userCodeEndIndex)"

definition processPlayground :: "string \<Rightarrow> Response res" where
  "processPlayground message =
     (let exitCode = getExitCode message in
      case exitCode of
        Ok \<Rightarrow> rbind (getMessageOutput_playground message)
          (\<lambda>u. Inr (mk_response kSuccessCode u None))
      | UserError \<Rightarrow> rbind (getUserOutput message)
          (\<lambda>u. Inr (mk_response kUserCodeError u None))
      | _ \<Rightarrow> Inr (mk_response (exit_code_value exitCode) ''Internal error'' (Some [])))"

definition getPlaygroungResponse :: "string \<Rightarrow> Response res" where
  "getPlaygroungResponse message =
     (if hasEscapeSequence message
      then rbind (removeEscapeSequencesTender message) processPlayground
      else processPlayground message)"

definition getPracticeResponse :: "string \<Rightarrow> Response res" where
  "getPracticeResponse message = getCourseResponse message"

section \<open>Separable marker strings\<close>

locale markers =
  fixes M :: "string set"
  assumes nonempty: "m \<in> M \<Longrightarrow> m \<noteq> []"
    and seam: "a \<in> M \<Longrightarrow> b \<in> M \<Longrightarrow> 0 < k \<Longrightarrow> k < length a \<Longrightarrow>
      \<not> prefix (drop k a) b \<and> \<not> prefix b (drop k a)"
    and apart: "a \<in> M \<Longrightarrow> b \<in> M \<Longrightarrow> a \<noteq> b \<Longrightarrow> \<not> prefix a b"
begin

lemma no_start_before:
  assumes M: "a \<in> M" "b \<in> M" and xs: "xs \<noteq> []" "\<not> prefix a xs"
  shows "\<not> prefix a (xs @ b @ ys)"
proof
  assume pre: "prefix a (xs @ b @ ys)"
  with xs obtain r where a: "a = xs @ r" and "r \<noteq> []"
    by (metis prefix_append_cases prefix_def append_Nil2 prefix_order.refl)
  with pre have "prefix r (b @ ys)" by simp
  then have "prefix r b \<or> prefix b r" by (rule prefix_append_cases)
  moreover have "r = drop (length xs) a" and "length xs < length a" using a \<open>r \<noteq> []\<close> by simp_all
  ultimately show False using seam[OF M, of "length xs"] xs(1) by simp
qed

lemma no_start_inside:
  assumes M: "a \<in> M" "b \<in> M" and ne: "a \<noteq> b" and k: "k < length b"
  shows "\<not> prefix a (drop k b @ ys)"
proof
  assume "prefix a (drop k b @ ys)"
  then have *: "prefix a (drop k b) \<or> prefix (drop k b) a" by (rule prefix_append_cases)
  show False
  proof (cases "k = 0")
    case True
    with * apart M ne show False by auto
  next
    case False
    with * seam[of b a k] M k show False by auto
  qed
qed

lemma find_self:
  assumes "a \<in> M" and "\<not> occurs a xs"
  shows "find_pos a (xs @ a @ ys) = Some (length xs)"
proof (rule find_posI)
  fix j assume "j < length xs"
  moreover have "\<not> prefix a (drop j xs)"
    using assms(2) unfolding occurs_def by (auto dest: find_pos_NoneD)
  ultimately show "\<not> prefix a (drop j (xs @ a @ ys))"
    using no_start_before[OF assms(1,1), of "drop j xs" ys] by simp
qed simp_all

lemma find_other:
  assumes "a \<in> M" "b \<in> M" "a \<noteq> b" and "\<not> occurs a xs"
  shows "find_pos a (xs @ b @ ys) = map_option (\<lambda>i. length xs + length b + i) (find_pos a ys)"
proof -
  have "\<not> prefix a (drop j (xs @ b) @ ys)" if "j < length (xs @ b)" for j
  proof (cases "j < length xs")
    case True
    moreover have "\<not> prefix a (drop j xs)"
      using assms(4) unfolding occurs_def by (auto dest: find_pos_NoneD)
    ultimately show ?thesis
      using no_start_before[OF assms(1,2), of "drop j xs" ys] by simp
  next
    case False
    with that no_start_inside[OF assms(1-3), of "j - length xs" ys] show ?thesis by simp
  qed
  from find_pos_skip[of "xs @ b" a ys, OF this] show ?thesis by simp
qed

lemma occurs_other:
  assumes "a \<in> M" "b \<in> M" "a \<noteq> b" and "\<not> occurs a xs" "\<not> occurs a ys"
  shows "\<not> occurs a (xs @ b @ ys)"
  using find_other[OF assms(1-4), of ys] assms(5) by (simp add: occurs_def)

lemma occurs_self: "a \<in> M \<Longrightarrow> occurs a (xs @ a @ ys)"
  by (simp add: occurs_iff sublist_appendI)

end

definition kMarkers :: "string list" where
  "kMarkers = [kCodeTestsSeparator, kUserCodeSeparator, kTestCasesError, kUserSolutionError]"

lemmas marker_defs = kCodeTestsSeparator_def kUserCodeSeparator_def kTestCasesError_def
  kUserSolutionError_def

text \<open>The locale's laws as a finite check over the marker list.\<close>

definition markers_check :: "string list \<Rightarrow> bool" where
  "markers_check ms \<longleftrightarrow>
     list_all (\<lambda>a. a \<noteq> [] \<and> list_all (\<lambda>b.
        (a \<noteq> b \<longrightarrow> \<not> prefix a b) \<and>
        list_all (\<lambda>k. \<not> prefix (drop k a) b \<and> \<not> prefix b (drop k a)) [1..<length a]) ms) ms"

lemma markers_check_sound: "markers_check ms \<Longrightarrow> markers (set ms)"
  by unfold_locales (auto simp: markers_check_def list_all_iff)

lemma markers_check_kMarkers: "markers_check kMarkers"
  by code_simp

interpretation mk: markers "set kMarkers"
  by (rule markers_check_sound[OF markers_check_kMarkers])

section \<open>Facts about the code's markers\<close>

lemma kMarkers_mem [simp]:
  "kCodeTestsSeparator \<in> set kMarkers" "kUserCodeSeparator \<in> set kMarkers"
  "kTestCasesError \<in> set kMarkers" "kUserSolutionError \<in> set kMarkers"
  by (simp_all add: kMarkers_def)

lemma kMarkers_distinct [simp]:
  "kCodeTestsSeparator \<noteq> kUserCodeSeparator" "kUserCodeSeparator \<noteq> kCodeTestsSeparator"
  "kCodeTestsSeparator \<noteq> kTestCasesError" "kTestCasesError \<noteq> kCodeTestsSeparator"
  "kCodeTestsSeparator \<noteq> kUserSolutionError" "kUserSolutionError \<noteq> kCodeTestsSeparator"
  "kUserCodeSeparator \<noteq> kTestCasesError" "kTestCasesError \<noteq> kUserCodeSeparator"
  "kUserCodeSeparator \<noteq> kUserSolutionError" "kUserSolutionError \<noteq> kUserCodeSeparator"
  "kTestCasesError \<noteq> kUserSolutionError" "kUserSolutionError \<noteq> kTestCasesError"
  by (simp_all add: marker_defs)

lemma marker_lengths [simp]:
  "length kCodeTestsSeparator = 21" "length kUserCodeSeparator = 25"
  "length kTestCasesError = 26" "length kUserSolutionError = 28"
  "length kRNEscapeSequence = 2"
  by (simp_all add: marker_defs kRNEscapeSequence_def)

lemma getStringLength_markers [simp]:
  "getStringLength Ok = size_of kUserCodeSeparator"
  "getStringLength UserError = size_of kUserSolutionError"
  "getStringLength TestError = size_of kTestCasesError"
  by (simp_all add: kCorrelations_def marker_defs)

declare getStringLength.simps(1-3) [simp del]

lemma kEscapePatterns_markers: "kEscapePatterns = map (\<lambda>m. m @ kRNEscapeSequence) kMarkers"
  by (simp add: kEscapePatterns_def kMarkers_def kEscapedCodeTestsSeparator_def
      kEscapedUserCodeSeparator_def kEscapedTestCasesError_def kEscapedUserSolutionError_def)

lemma occurs_split [simp]:
  assumes "a \<in> set kMarkers" "b \<in> set kMarkers" "a \<noteq> b"
  shows "occurs a (xs @ b @ ys) \<longleftrightarrow> occurs a xs \<or> occurs a ys"
    and "occurs a (xs @ b) \<longleftrightarrow> occurs a xs"
    and "occurs a (b @ ys) \<longleftrightarrow> occurs a ys"
    and "\<not> occurs a b"
proof -
  have empty: "\<not> occurs a []" using mk.nonempty[OF assms(1)] by (simp add: occurs_def)
  have gen: "occurs a (us @ b @ vs) \<longleftrightarrow> occurs a us \<or> occurs a vs" for us vs
    using mk.occurs_other[OF assms, of us vs]
    by (auto simp: occurs_iff sublist_append)
  show "occurs a (xs @ b @ ys) \<longleftrightarrow> occurs a xs \<or> occurs a ys" by (rule gen)
  show "occurs a (xs @ b) \<longleftrightarrow> occurs a xs" using gen[of xs "[]"] empty by simp
  show "occurs a (b @ ys) \<longleftrightarrow> occurs a ys" using gen[of "[]" ys] empty by simp
  show "\<not> occurs a b" using gen[of "[]" "[]"] empty by simp
qed

lemma occurs_here [simp]:
  "occurs a (xs @ a @ ys)" "occurs a (xs @ a)" "occurs a (a @ ys)" "occurs a a"
  by (simp_all add: occurs_iff sublist_appendI)

lemma occurs_eol [simp]: "m \<in> set kMarkers \<Longrightarrow> \<not> occurs m kRNEscapeSequence"
  by (auto simp: kMarkers_def occurs_def kRNEscapeSequence_def marker_defs)

lemma marker_not_timeout:
  assumes "m \<in> set kMarkers"
  shows "\<not> ends_with (xs @ m) (c @ kRNEscapeSequence)"
proof
  assume "ends_with (xs @ m) (c @ kRNEscapeSequence)"
  then obtain us where "xs @ m = us @ c @ kRNEscapeSequence" by (auto simp: ends_with_def suffix_def)
  then have "last (xs @ m) = last kRNEscapeSequence"
    by (simp add: kRNEscapeSequence_def)
  with assms show False by (auto simp: kMarkers_def marker_defs kRNEscapeSequence_def)
qed

lemma timeout_code_marker [simp]:
  "m \<in> set kMarkers \<Longrightarrow> timeout_code (xs @ m) kTimeoutUtilCodes = None"
  using marker_not_timeout[of m xs "''124''"] marker_not_timeout[of m xs "''125''"]
    marker_not_timeout[of m xs "''137''"]
  by (simp add: kTimeoutUtilCodes_def)

lemma no_eol_after_marker [simp]: "m \<in> set kMarkers \<Longrightarrow> \<not> hasEscapeSequence (xs @ m)"
  using marker_not_timeout[of m xs "[]"] by (simp add: hasEscapeSequence_def)

lemma getExitCode_alt:
  assumes "fits s" and "timeout_code s kTimeoutUtilCodes = None"
  shows "getExitCode s =
    (if occurs kUserCodeSeparator s then Ok
     else if occurs kUserSolutionError s then UserError
     else if occurs kTestCasesError s then TestError else Unknown)"
  using assms contains_str_iff[OF assms(1)]
  by (simp add: getExitCode_def kCorrelations_def contains_str_def marker_defs)

section \<open>Stripping the line ends after markers\<close>

lemma fits_mono: "fits s \<Longrightarrow> length t \<le> length s \<Longrightarrow> fits t"
  by (simp add: fits_def)

lemma tender_step_hit:
  assumes "m \<in> set kMarkers" and "\<not> occurs m xs" and "fits (xs @ m @ kRNEscapeSequence @ ys)"
  shows "tender_step (xs @ m @ kRNEscapeSequence @ ys) (m @ kRNEscapeSequence) = Inr (xs @ m @ ys)"
proof -
  let ?s = "xs @ m @ kRNEscapeSequence @ ys"
  have pos: "find_pos (m @ kRNEscapeSequence) ?s = Some (length xs)"
    by (rule find_pos_extend[OF mk.find_self[OF assms(1,2)]]) simp
  have at_eol: "str_find ?s (m @ kRNEscapeSequence) + size_of (m @ kRNEscapeSequence)
      - size_of kRNEscapeSequence = word_of_nat (length (xs @ m))"
    by (simp add: size_of_def str_find_Some(1)[OF assms(3) pos])
  show ?thesis
    unfolding tender_step_def Let_def at_eol
    using str_find_Some(3)[OF assms(3) pos] erase_nat[OF assms(3), of "length (xs @ m)"]
    by (simp add: size_of_def)
qed

lemma tender_step_miss:
  "\<not> occurs m s \<Longrightarrow> tender_step s (m @ e) = Inr s"
  by (simp add: tender_step_def occurs_def find_pos_extend_None str_find_None)

lemma tender_step_total:
  assumes "fits s" and "2 \<le> length pat"
  shows "\<exists>t. tender_step s pat = Inr t \<and> length t \<le> length s"
proof (cases "find_pos pat s")
  case None
  then show ?thesis by (simp add: tender_step_def str_find_None)
next
  case (Some i)
  from find_pos_SomeD[OF this] have le: "i + length pat \<le> length s" by simp
  have at_eol: "str_find s pat + size_of pat - size_of kRNEscapeSequence
      = word_of_nat (i + length pat - 2)"
    using assms(2) str_find_Some(1)[OF assms(1) Some] by (simp add: size_of_def of_nat_diff)
  show ?thesis
    unfolding tender_step_def Let_def at_eol
    using str_find_Some(3)[OF assms(1) Some] le erase_nat[OF assms(1), of "i + length pat - 2"]
    by simp
qed

lemma tender_loop_total:
  "fits s \<Longrightarrow> \<forall>p \<in> set ps. 2 \<le> length p \<Longrightarrow>
   \<exists>t. tender_loop s ps = Inr t \<and> length t \<le> length s"
proof (induction ps arbitrary: s)
  case (Cons p ps)
  from Cons.prems obtain t where t: "tender_step s p = Inr t" "length t \<le> length s"
    using tender_step_total[of s p] by auto
  with Cons.IH[of t] Cons.prems show ?case
    using fits_mono[of s t] by (fastforce intro: le_trans)
qed simp

lemma removeEscapeSequencesTender_total:
  "fits s \<Longrightarrow> \<exists>t. removeEscapeSequencesTender s = Inr t \<and> length t \<le> length s"
  unfolding removeEscapeSequencesTender_def
  by (rule tender_loop_total) (auto simp: kEscapePatterns_markers)

section \<open>The message protocol\<close>

text \<open>
  What a container script reports, and the text it prints for it: the three patterns of the
  comments in \<open>processChapter\<close>. Behind a terminal every marker is followed by a line end, which
  is the parameter \<open>eol\<close> (empty or CR LF).
\<close>

datatype verdict =
    Passed string string
  | Solution_failed string
  | Tests_failed string string

fun render :: "string \<Rightarrow> verdict \<Rightarrow> string" where
  "render eol (Passed u t) = u @ kCodeTestsSeparator @ eol @ t @ kUserCodeSeparator @ eol"
| "render eol (Solution_failed u) = u @ kUserSolutionError @ eol"
| "render eol (Tests_failed u t) = u @ kCodeTestsSeparator @ eol @ t @ kTestCasesError @ eol"

fun verdict_response :: "verdict \<Rightarrow> Response" where
  "verdict_response (Passed u t) = mk_response kSuccessCode u (Some t)"
| "verdict_response (Solution_failed u) = mk_response kUserCodeError u None"
| "verdict_response (Tests_failed u t) = mk_response kTestsError u (Some t)"

definition marker_free :: "string \<Rightarrow> bool" where
  "marker_free s \<longleftrightarrow> list_all (\<lambda>m. \<not> occurs m s) kMarkers"

fun clean :: "verdict \<Rightarrow> bool" where
  "clean (Passed u t) \<longleftrightarrow> marker_free u \<and> marker_free t"
| "clean (Solution_failed u) \<longleftrightarrow> marker_free u"
| "clean (Tests_failed u t) \<longleftrightarrow> marker_free u \<and> marker_free t"

lemma marker_free_simps:
  assumes "marker_free s"
  shows "\<not> occurs kCodeTestsSeparator s" "\<not> occurs kUserCodeSeparator s"
    "\<not> occurs kTestCasesError s" "\<not> occurs kUserSolutionError s"
  using assms by (simp_all add: marker_free_def kMarkers_def)

lemma render_length: "length (render [] v) \<le> length (render eol v)"
  by (cases v) simp_all

lemma tender_loop_markers:
  "removeEscapeSequencesTender s =
     rbind (tender_step s (kCodeTestsSeparator @ kRNEscapeSequence)) (\<lambda>s.
     rbind (tender_step s (kUserCodeSeparator @ kRNEscapeSequence)) (\<lambda>s.
     rbind (tender_step s (kTestCasesError @ kRNEscapeSequence)) (\<lambda>s.
     rbind (tender_step s (kUserSolutionError @ kRNEscapeSequence)) Inr)))"
  by (simp add: removeEscapeSequencesTender_def kEscapePatterns_markers kMarkers_def)

lemma tender_two_markers:
  assumes free: "marker_free u" "marker_free t" and m: "m \<in> {kUserCodeSeparator, kTestCasesError}"
    and fits: "fits (u @ kCodeTestsSeparator @ kRNEscapeSequence @ t @ m @ kRNEscapeSequence)"
  shows "removeEscapeSequencesTender
      (u @ kCodeTestsSeparator @ kRNEscapeSequence @ t @ m @ kRNEscapeSequence)
    = Inr (u @ kCodeTestsSeparator @ t @ m)"
proof -
  note mf = marker_free_simps[OF free(1)] marker_free_simps[OF free(2)]
  have fits2: "fits (u @ kCodeTestsSeparator @ t @ m @ kRNEscapeSequence)"
    by (rule fits_mono[OF fits]) simp
  have one: "tender_step (u @ kCodeTestsSeparator @ kRNEscapeSequence @ t @ m @ kRNEscapeSequence)
      (kCodeTestsSeparator @ kRNEscapeSequence) = Inr (u @ kCodeTestsSeparator @ t @ m @ kRNEscapeSequence)"
    using tender_step_hit[OF _ mf(1) fits] by simp
  have two: "tender_step (u @ kCodeTestsSeparator @ t @ m @ kRNEscapeSequence) (m @ kRNEscapeSequence)
      = Inr (u @ kCodeTestsSeparator @ t @ m)"
    using tender_step_hit[of m "u @ kCodeTestsSeparator @ t" "[]"] m mf fits2 by auto
  show ?thesis
    using m mf two by (auto simp: tender_loop_markers one tender_step_miss)
qed

lemma tender_render:
  assumes "clean v" and "fits (render kRNEscapeSequence v)"
  shows "removeEscapeSequencesTender (render kRNEscapeSequence v) = Inr (render [] v)"
proof (cases v)
  case (Passed u t)
  with assms tender_two_markers[of u t kUserCodeSeparator] show ?thesis by simp
next
  case (Tests_failed u t)
  with assms tender_two_markers[of u t kTestCasesError] show ?thesis by simp
next
  case (Solution_failed u)
  with assms tender_step_hit[of kUserSolutionError u "[]"] show ?thesis
    by (simp add: tender_loop_markers tender_step_miss marker_free_simps)
qed

lemma size_of_append: "size_of (xs @ ys) = size_of xs + size_of ys"
  by (simp add: size_of_def)

lemma getMessageOutput_split:
  assumes "\<not> occurs kCodeTestsSeparator u" and "fits (u @ kCodeTestsSeparator @ t @ m)"
    and "getStringLength code = size_of m"
  shows "getMessageOutput code (u @ kCodeTestsSeparator @ t @ m)
    = Inr \<lparr>usersOutput = u, container_testsOutput = t\<rparr>"
proof -
  let ?s = "u @ kCodeTestsSeparator @ t @ m"
  note pos = mk.find_self[OF kMarkers_mem(1) assms(1), of "t @ m"]
  note found = str_find_Some[OF assms(2) pos]
  have from_eq: "str_find ?s kCodeTestsSeparator + size_of kCodeTestsSeparator
      = word_of_nat (length (u @ kCodeTestsSeparator))"
    by (simp add: found(1) size_of_def)
  have amount: "size_of ?s - word_of_nat (length (u @ kCodeTestsSeparator)) - size_of m = size_of t"
    by (simp add: size_of_append) (simp add: size_of_def)
  have ft: "unat (size_of t) = length t"
    by (rule unat_size_of) (rule fits_mono[OF assms(2)], simp)
  have users: "(if str_find ?s kCodeTestsSeparator = 0 then Inr []
      else substr ?s 0 (str_find ?s kCodeTestsSeparator)) = (Inr u :: string res)"
    using found(2) by auto
  show ?thesis
    unfolding getMessageOutput_def Let_def users from_eq assms(3) amount
    using substr_nat[OF assms(2), of "length (u @ kCodeTestsSeparator)" "size_of t"] ft
    by simp
qed

lemma getUserOutput_split:
  "fits (u @ kUserSolutionError) \<Longrightarrow> getUserOutput (u @ kUserSolutionError) = Inr u"
  using unat_size_of[OF fits_append(1)[of u kUserSolutionError]]
  by (simp add: getUserOutput_def size_of_append)

lemma processChapter_render:
  assumes "clean v" and "fits (render [] v)"
  shows "processChapter (render [] v) = Inr (verdict_response v)"
proof (cases v)
  case (Passed u t)
  with assms have mf: "marker_free u" "marker_free t" by simp_all
  have "getExitCode (render [] v) = Ok"
    using assms Passed timeout_code_marker[of kUserCodeSeparator "u @ kCodeTestsSeparator @ t"]
    by (subst getExitCode_alt) simp_all
  with assms Passed getMessageOutput_split[of u t kUserCodeSeparator Ok] show ?thesis
    by (simp add: processChapter_def marker_free_simps mf)
next
  case (Tests_failed u t)
  with assms have mf: "marker_free u" "marker_free t" by simp_all
  have "getExitCode (render [] v) = TestError"
    using assms Tests_failed timeout_code_marker[of kTestCasesError "u @ kCodeTestsSeparator @ t"]
    by (subst getExitCode_alt) (simp_all add: marker_free_simps mf)
  with assms Tests_failed getMessageOutput_split[of u t kTestCasesError TestError] show ?thesis
    by (simp add: processChapter_def marker_free_simps mf)
next
  case (Solution_failed u)
  with assms have mf: "marker_free u" by simp_all
  have "getExitCode (render [] v) = UserError"
    using assms Solution_failed timeout_code_marker[of kUserSolutionError u]
    by (subst getExitCode_alt) (simp_all add: marker_free_simps mf)
  with assms Solution_failed getUserOutput_split[of u] show ?thesis
    by (simp add: processChapter_def)
qed

lemma hasEscapeSequence_render:
  "hasEscapeSequence (render kRNEscapeSequence v)" "\<not> hasEscapeSequence (render [] v)"
proof -
  show "hasEscapeSequence (render kRNEscapeSequence v)"
    by (cases v) (auto simp: hasEscapeSequence_def ends_with_def suffix_appendI)
  show "\<not> hasEscapeSequence (render [] v)"
    using no_eol_after_marker[of _ "_ @ _ @ _"] by (cases v) (fastforce simp: append_assoc[symmetric] simp del: append_assoc)+
qed

section \<open>Totality and the timeout codes\<close>

lemma getMessageOutput_total:
  assumes "fits s" and "20 \<le> length s"
  shows "\<exists>c. getMessageOutput code s = Inr c"
proof -
  have "\<exists>t. substr s (str_find s kCodeTestsSeparator + size_of kCodeTestsSeparator) n = Inr t" for n
  proof (cases "find_pos kCodeTestsSeparator s")
    case None
    have "str_find s kCodeTestsSeparator + size_of kCodeTestsSeparator = word_of_nat 20"
      by (simp add: str_find_None[OF None] npos_def size_of_def)
    with substr_nat[OF assms] show ?thesis by simp
  next
    case (Some i)
    have "str_find s kCodeTestsSeparator + size_of kCodeTestsSeparator = word_of_nat (i + 21)"
      by (simp add: str_find_Some(1)[OF assms(1) Some] size_of_def)
    moreover have "i + 21 \<le> length s" using find_pos_SomeD[OF Some] by simp
    ultimately show ?thesis using substr_nat[OF assms(1), of "i + 21" n] by simp
  qed
  from this[of "size_of s - (str_find s kCodeTestsSeparator + size_of kCodeTestsSeparator)
      - getStringLength code"]
  obtain t where "substr s (str_find s kCodeTestsSeparator + size_of kCodeTestsSeparator)
      (size_of s - (str_find s kCodeTestsSeparator + size_of kCodeTestsSeparator)
       - getStringLength code) = Inr t" by blast
  then show ?thesis by (simp add: getMessageOutput_def Let_def)
qed

lemma occurs_length: "occurs m s \<Longrightarrow> length m \<le> length s"
  by (auto simp: occurs_iff dest: sublist_length_le)

lemma timeout_code_range:
  "timeout_code s kTimeoutUtilCodes = Some c \<Longrightarrow> c \<in> {Raw_code 124, Raw_code 125, Raw_code 137}"
  by (auto simp: kTimeoutUtilCodes_def split: if_splits)

lemma processChapter_total:
  assumes "fits s"
  shows "\<exists>r. processChapter s = Inr r \<and> sourceCode r \<in> {0, 1, 2, 3, 124, 125, 137}"
proof (cases "timeout_code s kTimeoutUtilCodes")
  case (Some c)
  with timeout_code_range[OF Some] show ?thesis
    by (auto simp: processChapter_def getExitCode_def)
next
  case None
  have marks: "(\<exists>c. getMessageOutput Ok s = Inr c)" if "occurs kUserCodeSeparator s"
    using occurs_length[OF that] getMessageOutput_total[OF assms] by simp
  have markt: "(\<exists>c. getMessageOutput TestError s = Inr c)" if "occurs kTestCasesError s"
    using occurs_length[OF that] getMessageOutput_total[OF assms] by simp
  show ?thesis
    using marks markt
    by (auto simp: processChapter_def getExitCode_alt[OF assms None] getUserOutput_def error_codes)
qed

lemma timeout_chars:
  assumes "(codeStr, code) \<in> set kTimeoutUtilCodes"
  obtains c1 c2 c3 where "codeStr = [c1, c2, c3] @ kRNEscapeSequence"
    "set [c1, c2, c3] \<inter> {CHR 0x0D, CHR 0x0A, CHR ''e''} = {}"
  using assms by (auto simp: kTimeoutUtilCodes_def)

text \<open>A marker and its line end lie entirely before a final timeout code.\<close>

lemma marker_before_timeout:
  assumes m: "m \<in> set kMarkers" and c: "(codeStr, code) \<in> set kTimeoutUtilCodes"
    and at: "xs @ codeStr = us @ m @ kRNEscapeSequence @ vs"
  shows "\<exists>ws. xs = us @ m @ kRNEscapeSequence @ ws"
proof -
  have "m \<noteq> []" and "last m = CHR ''e''"
    using m by (auto simp: kMarkers_def marker_defs)
  then obtain m' where m': "m = m' @ ''e''"
    by (metis append_butlast_last_id)
  obtain c1 c2 c3 where cs: "codeStr = [c1, c2, c3] @ kRNEscapeSequence"
    and chars: "set [c1, c2, c3] \<inter> {CHR 0x0D, CHR 0x0A, CHR ''e''} = {}"
    using timeout_chars[OF c] .
  let ?w = "us @ m' @ [CHR ''e'', CHR 0x0D, CHR 0x0A]"
  have eq: "xs @ codeStr = ?w @ vs" using at m' by (simp add: kRNEscapeSequence_def)
  then obtain ws where "xs = ?w @ ws \<or> xs @ ws = ?w \<and> codeStr = ws @ vs"
    by (metis append_eq_append_conv2)
  then consider "xs = ?w @ ws" | "xs @ ws = ?w" "codeStr = ws @ vs" "ws \<noteq> []"
    by (metis append_Nil2)
  then show ?thesis
  proof cases
    case 1
    then show ?thesis using m' by (simp add: kRNEscapeSequence_def)
  next
    case 2
    have "rev (xs @ ws) = rev ?w" using 2(1) by (rule arg_cong)
    then have "rev ws @ rev xs = CHR 0x0A # CHR 0x0D # CHR ''e'' # rev m' @ rev us" by simp
    moreover have "ws @ vs = [c1, c2, c3, CHR 0x0D, CHR 0x0A]"
      using 2(2) cs by (simp add: kRNEscapeSequence_def)
    ultimately show ?thesis using 2(3) chars by (auto simp: append_eq_Cons_conv)
  qed
qed

lemma tender_step_timeout:
  assumes m: "m \<in> set kMarkers" and c: "(codeStr, code) \<in> set kTimeoutUtilCodes"
    and fits: "fits (xs @ codeStr)"
  shows "\<exists>ys. tender_step (xs @ codeStr) (m @ kRNEscapeSequence) = Inr (ys @ codeStr)
    \<and> length ys \<le> length xs"
proof (cases "find_pos (m @ kRNEscapeSequence) (xs @ codeStr)")
  case None
  then show ?thesis by (simp add: tender_step_def str_find_None)
next
  case (Some i)
  let ?s = "xs @ codeStr"
  from find_pos_SomeD[OF Some] obtain vs where
    "drop i ?s = (m @ kRNEscapeSequence) @ vs" and le: "i + length (m @ kRNEscapeSequence) \<le> length ?s"
    by (auto simp: prefix_def)
  then have eq: "?s = take i ?s @ m @ kRNEscapeSequence @ vs"
    by (metis append_assoc append_take_drop_id)
  then obtain ws where xs: "xs = take i ?s @ m @ kRNEscapeSequence @ ws"
    using marker_before_timeout[OF m c] by blast
  define us where "us = take i ?s"
  have i: "i = length us" using le by (simp add: us_def)
  have xs': "xs = us @ m @ kRNEscapeSequence @ ws" using xs by (simp only: us_def)
  have at_eol: "str_find ?s (m @ kRNEscapeSequence) + size_of (m @ kRNEscapeSequence)
      - size_of kRNEscapeSequence = word_of_nat (i + length m)"
    by (simp add: size_of_def str_find_Some(1)[OF fits Some])
  have "take (i + length m) ?s @ drop (i + length m + 2) ?s = (us @ m @ ws) @ codeStr"
    unfolding xs' i by simp
  moreover have "erase ?s (word_of_nat (i + length m)) (size_of kRNEscapeSequence)
      = Inr (take (i + length m) ?s @ drop (i + length m + 2) ?s)"
    using erase_nat[OF fits, of "i + length m" "size_of kRNEscapeSequence"] le
    by (simp add: size_of_def)
  moreover have "length (us @ m @ ws) \<le> length xs" unfolding xs' by simp
  ultimately show ?thesis
    unfolding tender_step_def Let_def at_eol using str_find_Some(3)[OF fits Some] by auto
qed

lemma tender_loop_timeout:
  assumes "(codeStr, code) \<in> set kTimeoutUtilCodes"
  shows "fits (xs @ codeStr) \<Longrightarrow> set ms \<subseteq> set kMarkers \<Longrightarrow>
    \<exists>ys. tender_loop (xs @ codeStr) (map (\<lambda>m. m @ kRNEscapeSequence) ms) = Inr (ys @ codeStr)"
proof (induction ms arbitrary: xs)
  case (Cons m ms)
  then obtain ys where ys: "tender_step (xs @ codeStr) (m @ kRNEscapeSequence) = Inr (ys @ codeStr)"
    and "length ys \<le> length xs"
    using tender_step_timeout[OF _ assms, of m xs] by auto
  then have "fits (ys @ codeStr)" using fits_mono[OF Cons.prems(1), of "ys @ codeStr"] by simp
  with Cons.IH[of ys] Cons.prems(2) ys show ?case by auto
qed simp

lemma removeEscapeSequencesTender_timeout:
  "(codeStr, code) \<in> set kTimeoutUtilCodes \<Longrightarrow> fits (xs @ codeStr) \<Longrightarrow>
   \<exists>ys. removeEscapeSequencesTender (xs @ codeStr) = Inr (ys @ codeStr)"
  unfolding removeEscapeSequencesTender_def kEscapePatterns_markers
  by (rule tender_loop_timeout) auto

lemma getExitCode_timeout:
  "(codeStr, code) \<in> set kTimeoutUtilCodes \<Longrightarrow> getExitCode (ys @ codeStr) = Raw_code code"
  by (auto simp: getExitCode_def kTimeoutUtilCodes_def ends_with_def kRNEscapeSequence_def
      suffix_ConsI suffix_append suffix_Cons)

section \<open>Playground helpers\<close>

lemma getMessageOutput_playground_split:
  assumes "\<not> occurs kUserCodeSeparator u" and "fits (u @ kUserCodeSeparator)"
  shows "getMessageOutput_playground (u @ kUserCodeSeparator) = Inr u"
proof -
  have "find_pos kUserCodeSeparator (u @ kUserCodeSeparator) = Some (length u)"
    using mk.find_self[OF kMarkers_mem(2) assms(1), of "[]"] by simp
  from str_find_Some[OF assms(2) this] show ?thesis
    by (auto simp: getMessageOutput_playground_def Let_def)
qed

lemma processPlayground_marker:
  shows "\<not> occurs kUserCodeSeparator u \<Longrightarrow> fits (u @ kUserCodeSeparator) \<Longrightarrow>
      processPlayground (u @ kUserCodeSeparator) = Inr (mk_response kSuccessCode u None)"
    and "marker_free u \<Longrightarrow> fits (u @ kUserSolutionError) \<Longrightarrow>
      processPlayground (u @ kUserSolutionError) = Inr (mk_response kUserCodeError u None)"
  by (simp_all add: processPlayground_def getExitCode_alt getMessageOutput_playground_split
      getUserOutput_split marker_free_simps)

lemma tender_one_marker:
  assumes "m \<in> set kMarkers" and "marker_free u" and "fits (u @ m @ kRNEscapeSequence)"
  shows "removeEscapeSequencesTender (u @ m @ kRNEscapeSequence) = Inr (u @ m)"
proof -
  note mf = marker_free_simps[OF assms(2)]
  have "\<not> occurs m u" using assms(1) mf by (auto simp: kMarkers_def)
  from tender_step_hit[OF assms(1) this, of "[]"] assms(3)
  have hit: "tender_step (u @ m @ kRNEscapeSequence) (m @ kRNEscapeSequence) = Inr (u @ m)" by simp
  show ?thesis
    using assms(1) mf hit by (auto simp: kMarkers_def tender_loop_markers tender_step_miss)
qed

lemma playground_render:
  assumes "marker_free u" and "fits (u @ m @ eol)" and "eol = [] \<or> eol = kRNEscapeSequence"
    and "(m, code) \<in> {(kUserCodeSeparator, kSuccessCode), (kUserSolutionError, kUserCodeError)}"
  shows "getPlaygroungResponse (u @ m @ eol) = Inr (mk_response code u None)"
proof -
  have mem: "m \<in> set kMarkers" using assms(4) by auto
  have fits: "fits (u @ m)" by (rule fits_mono[OF assms(2)]) simp
  have "processPlayground (u @ m) = Inr (mk_response code u None)"
    using assms(1,4) fits by (auto intro: processPlayground_marker simp: marker_free_simps)
  moreover have "removeEscapeSequencesTender (u @ m @ kRNEscapeSequence) = Inr (u @ m)"
    if "eol = kRNEscapeSequence"
    using tender_one_marker[OF mem assms(1)] assms(2) that by simp
  moreover have "hasEscapeSequence (u @ m @ kRNEscapeSequence)"
    by (simp add: hasEscapeSequence_def ends_with_def suffix_appendI)
  ultimately show ?thesis
    using assms(3) mem by (auto simp: getPlaygroungResponse_def)
qed

lemma course_render:
  assumes "clean v" and "fits (render eol v)" and "eol = [] \<or> eol = kRNEscapeSequence"
  shows "getCourseResponse (render eol v) = Inr (verdict_response v)"
proof -
  have fits: "fits (render [] v)" by (rule fits_mono[OF assms(2) render_length])
  from assms show ?thesis
    by (auto simp: getCourseResponse_def hasEscapeSequence_render tender_render
        processChapter_render[OF assms(1) fits])
qed

section \<open>Properties\<close>

text \<open>
  C5. The answer of a container that follows the protocol is read back exactly: for a passed
  solution, failing tests and a failing solution, with or without the terminal's line ends after
  the markers, \<open>getCourseResponse\<close> returns the verdict's code, the user's output and the tests'
  output, provided no marker text occurs inside the two outputs.
\<close>

theorem course_roundtrip:
  assumes "clean v" and "fits (render eol v)" and "eol = [] \<or> eol = kRNEscapeSequence"
  shows "getCourseResponse (render eol v) = Inr (verdict_response v)"
  by (rule course_render[OF assms])

theorem course_roundtrip_witness:
  "getCourseResponse (''42'' @ kRNEscapeSequence @ kCodeTestsSeparator @ kRNEscapeSequence
      @ ''69'' @ kUserCodeSeparator @ kRNEscapeSequence)
    = Inr (mk_response kSuccessCode (''42'' @ kRNEscapeSequence) (Some ''69''))"
proof -
  have "clean (Passed (''42'' @ kRNEscapeSequence) ''69'')"
    by (simp add: marker_free_def kMarkers_def marker_defs occurs_def kRNEscapeSequence_def)
  from course_roundtrip[OF this, of kRNEscapeSequence] show ?thesis
    by (simp add: fits_def)
qed

text \<open>
  C9. No container output makes the answer processing throw, however malformed it is (the
  \<open>size_t\<close> arithmetic on a missing separator wraps but stays in range), and the status code is one
  of the protocol's: success, user error, test error, unknown, or a code of the timeout utility.
\<close>

theorem course_total:
  assumes "fits message"
  shows "\<exists>r. getCourseResponse message = Inr r \<and> sourceCode r \<in> {0, 1, 2, 3, 124, 125, 137}"
proof -
  obtain t where "removeEscapeSequencesTender message = Inr t" and "length t \<le> length message"
    using removeEscapeSequencesTender_total[OF assms] by blast
  with fits_mono[OF assms] processChapter_total[OF assms] processChapter_total[of t] show ?thesis
    by (auto simp: getCourseResponse_def)
qed

theorem course_total_witness:
  "\<exists>r. getCourseResponse kUserCodeSeparator = Inr r \<and> sourceCode r \<in> {0, 1, 2, 3, 124, 125, 137}"
  by (rule course_total) (simp add: fits_def)

text \<open>
  C30. When the timeout utility kills the run, its code wins whatever the user printed before: an
  output that ends with one of the codes 124, 125, 137 and a line end gives a response with exactly
  that code, also when markers occur earlier in the output.
\<close>

theorem course_timeout:
  assumes "(codeStr, code) \<in> set kTimeoutUtilCodes" and "fits (xs @ codeStr)"
  shows "getCourseResponse (xs @ codeStr) = Inr (mk_response code ''Internal error'' (Some []))"
proof -
  obtain ys where ys: "removeEscapeSequencesTender (xs @ codeStr) = Inr (ys @ codeStr)"
    using removeEscapeSequencesTender_timeout[OF assms] by blast
  have "hasEscapeSequence (xs @ codeStr)"
    using assms(1) by (auto simp: kTimeoutUtilCodes_def hasEscapeSequence_def ends_with_def suffix_def)
  with ys getExitCode_timeout[OF assms(1), of ys] show ?thesis
    by (simp add: getCourseResponse_def processChapter_def)
qed

theorem course_timeout_witness:
  "getCourseResponse (kUserCodeSeparator @ kRNEscapeSequence @ ''124'' @ kRNEscapeSequence)
    = Inr (mk_response 124 ''Internal error'' (Some []))"
  using course_timeout[of "''124'' @ kRNEscapeSequence" 124 "kUserCodeSeparator @ kRNEscapeSequence"]
  by (simp add: kTimeoutUtilCodes_def fits_def)

text \<open>
  A playground run is read back exactly: output followed by the success marker or by the user
  error marker gives that code and that output, with or without line ends.
\<close>

theorem playground_roundtrip:
  assumes "marker_free u" and "fits (u @ m @ eol)" and "eol = [] \<or> eol = kRNEscapeSequence"
    and "(m, code) \<in> {(kUserCodeSeparator, kSuccessCode), (kUserSolutionError, kUserCodeError)}"
  shows "getPlaygroungResponse (u @ m @ eol) = Inr (mk_response code u None)"
  using assms by (rule playground_render)

theorem playground_roundtrip_witness:
  "getPlaygroungResponse (''42'' @ kUserCodeSeparator @ kRNEscapeSequence)
    = Inr (mk_response kSuccessCode ''42'' None)"
proof -
  have "marker_free ''42''"
    by (simp add: marker_free_def kMarkers_def marker_defs occurs_def)
  from playground_roundtrip[OF this] show ?thesis by (simp add: fits_def)
qed

text \<open>
  The pattern that the comment in \<open>processPlayground\<close> documents (user output, the separator
  \<open>user_code_ok\<close>, then \<open>user_solution_ok\<close>) is not what the code cuts: it cuts at
  \<open>user_solution_ok\<close> only, so the separator stays at the end of the output shown to the user.
\<close>

theorem playground_keeps_separator:
  assumes "marker_free u" and "fits (u @ kCodeTestsSeparator @ kUserCodeSeparator)"
  shows "getPlaygroungResponse (u @ kCodeTestsSeparator @ kUserCodeSeparator)
    = Inr (mk_response kSuccessCode (u @ kCodeTestsSeparator) None)"
proof -
  have "\<not> occurs kUserCodeSeparator (u @ kCodeTestsSeparator)"
    using assms(1) by (simp add: marker_free_simps)
  then have "processPlayground ((u @ kCodeTestsSeparator) @ kUserCodeSeparator)
      = Inr (mk_response kSuccessCode (u @ kCodeTestsSeparator) None)"
    using assms(2) by (intro processPlayground_marker(1)) simp_all
  then show ?thesis
    using no_eol_after_marker[of kUserCodeSeparator "u @ kCodeTestsSeparator"]
    by (simp add: getPlaygroungResponse_def)
qed

theorem playground_keeps_separator_witness:
  "getPlaygroungResponse (''42'' @ kCodeTestsSeparator @ kUserCodeSeparator)
    = Inr (mk_response kSuccessCode (''42'' @ kCodeTestsSeparator) None)"
proof -
  have "marker_free ''42''"
    by (simp add: marker_free_def kMarkers_def marker_defs occurs_def)
  from playground_keeps_separator[OF this] show ?thesis by (simp add: fits_def)
qed

text \<open>
  C37. A program that prints the success marker is reported as successful although the run ends with
  the user error marker: the marker is searched anywhere in the output and success is tried first.
\<close>

theorem forged_success:
  assumes "fits (u @ kUserCodeSeparator @ w @ kUserSolutionError)"
  shows "\<exists>out t. getCourseResponse (u @ kUserCodeSeparator @ w @ kUserSolutionError)
    = Inr (mk_response kSuccessCode out (Some t))"
proof -
  let ?s = "u @ kUserCodeSeparator @ w @ kUserSolutionError"
  have last: "?s = (u @ kUserCodeSeparator @ w) @ kUserSolutionError" by simp
  have "getExitCode ?s = Ok"
    by (subst getExitCode_alt[OF assms]) (simp_all add: last timeout_code_marker del: append_assoc)
  moreover have "\<exists>c. getMessageOutput Ok ?s = Inr c"
    using getMessageOutput_total[OF assms] by simp
  moreover have "\<not> hasEscapeSequence ?s"
    unfolding last by (rule no_eol_after_marker) simp
  ultimately show ?thesis
    by (auto simp: getCourseResponse_def processChapter_def)
qed

theorem forged_success_witness:
  "\<exists>out t. getCourseResponse (''x'' @ kUserCodeSeparator @ ''y'' @ kUserSolutionError)
    = Inr (mk_response kSuccessCode out (Some t))"
  by (rule forged_success) (simp add: fits_def)

text \<open>
  \<open>removeEscapeSequences\<close>, which nothing calls, always returns. It only takes CR LF pairs out, each of them behind at
  least one character, and stops at a string that has none left or starts with one: the condition of its loop is also
  false when the sequence is found at position 0. A string that starts with CR LF is returned unchanged.
\<close>

definition rn_removed :: "string \<Rightarrow> string \<Rightarrow> bool" where
  "rn_removed s t \<longleftrightarrow> (\<exists>u v. u \<noteq> [] \<and> s = u @ kRNEscapeSequence @ v \<and> t = u @ v)"

lemma removeEscapeSequences_result:
  assumes "fits s"
  shows "\<exists>r. removeEscapeSequences s = Inr r \<and> rn_removed\<^sup>*\<^sup>* s r
    \<and> (occurs kRNEscapeSequence r \<longrightarrow> prefix kRNEscapeSequence r)
    \<and> (prefix kRNEscapeSequence s \<longrightarrow> r = s)"
  using assms
proof (induction s rule: removeEscapeSequences.induct)
  case (1 s)
  show ?case
  proof (cases "find_pos kRNEscapeSequence s")
    case None
    then show ?thesis
      by (auto simp: removeEscapeSequences.simps[of s] str_find_None npos_def occurs_def
          dest: find_pos_NoneD[of _ _ 0])
  next
    case (Some i)
    note found = str_find_Some[OF "1.prems" Some]
    note at_i = find_pos_SomeD[OF Some]
    show ?thesis
    proof (cases "i = 0")
      case True
      with found at_i show ?thesis
        by (intro exI[of _ s]) (simp add: removeEscapeSequences.simps[of s])
    next
      case False
      let ?t = "take i s @ drop (i + 2) s"
      have zero: "str_find s kRNEscapeSequence \<noteq> 0" using found(2) False by auto
      have step: "erase s (str_find s kRNEscapeSequence) (size_of kRNEscapeSequence) = Inr ?t"
        using erase_nat[OF "1.prems", of i] at_i found(1) by (simp add: size_of_def)
      have "fits ?t" using "1.prems" at_i by (auto intro: fits_mono)
      from "1.IH"[OF refl zero found(3) step this] obtain r where
        r: "removeEscapeSequences ?t = Inr r" "rn_removed\<^sup>*\<^sup>* ?t r"
          "occurs kRNEscapeSequence r \<longrightarrow> prefix kRNEscapeSequence r" by blast
      obtain zs where zs: "drop i s = kRNEscapeSequence @ zs" using at_i by (auto simp: prefix_def)
      moreover have "drop (i + 2) s = drop 2 (drop i s)" by (simp add: add.commute)
      ultimately have "drop i s = kRNEscapeSequence @ drop (i + 2) s" by (simp add: kRNEscapeSequence_def)
      then have "s = take i s @ kRNEscapeSequence @ drop (i + 2) s" by (metis append_take_drop_id)
      moreover have "take i s \<noteq> []" using False at_i by auto
      ultimately have "rn_removed s ?t" unfolding rn_removed_def by blast
      with r(2) have steps: "rn_removed\<^sup>*\<^sup>* s r" by (rule converse_rtranclp_into_rtranclp[rotated])
      have "\<not> prefix kRNEscapeSequence s" using find_pos_first[OF Some, of 0] False by simp
      with r steps zero found(3) step show ?thesis
        by (simp add: removeEscapeSequences.simps[of s])
    qed
  qed
qed

end
