(* ===== verification/Docker_Wrapper.thy ===== *)
theory Docker_Wrapper
  imports Domain_Types
begin

text \<open>
  \<open>src/core/docker_wrapper\<close>: the service's view of the Docker engine. The client library that
  talks to the engine (\<open>docker::Client\<close>, a git submodule) is not part of the sources: it is the
  parameter \<open>docker_client\<close>, one function per request, over an engine state of any type. What
  the pool relies on is the predicate \<open>docker_contract\<close>: container identifiers are never reissued.
\<close>

section \<open>Parameters and answers (docker_wrapper.hpp)\<close>

record RunContainer =
  run_image :: string
  run_tty :: bool
  run_memory :: "64 word"

record ExecResult =
  exec_success :: bool
  exec_message :: string

record Exec =
  exec_containerId :: string
  exec_cmd :: "string list"

record Container =
  container_id :: string
  container_image :: string

record PutArchive =
  put_containerId :: string
  put_path :: string
  put_archive :: string
  put_copyUIDGID :: string

text \<open>The answers of the client library, with the fields the wrapper reads.\<close>

record list_answer =
  list_success :: bool
  list_containers :: "Container list"

record inspect_answer =
  inspect_success :: bool
  inspect_isRunning :: bool
  inspect_image :: string

record 'd docker_client =
  client_listContainers :: "bool \<Rightarrow> 'd \<Rightarrow> list_answer \<times> 'd"
  client_inspectContainer :: "string \<Rightarrow> 'd \<Rightarrow> inspect_answer \<times> 'd"
  client_killContainer :: "string \<Rightarrow> 'd \<Rightarrow> bool \<times> 'd"
  client_deleteContainer :: "string \<Rightarrow> 'd \<Rightarrow> bool \<times> 'd"
  client_runContainer :: "RunContainer \<Rightarrow> 'd \<Rightarrow> (bool \<times> string) \<times> 'd"
  client_putArchive :: "PutArchive \<Rightarrow> 'd \<Rightarrow> (bool \<times> string) \<times> 'd"
  client_exec :: "Exec \<Rightarrow> 'd \<Rightarrow> (bool \<times> string) \<times> 'd"

section \<open>Operations (docker_wrapper.cpp)\<close>

definition getAllContainers :: "'d docker_client \<Rightarrow> 'd \<Rightarrow> Container list \<times> 'd" where
  "getAllContainers c d =
     (let (response, d') = client_listContainers c True d in
      if \<not> list_success response then ([], d')
      else if list_containers response = [] then ([], d')
      else (map (\<lambda>r. \<lparr>container_id = container_id r, container_image = container_image r\<rparr>)
              (list_containers response), d'))"

definition isRunning :: "'d docker_client \<Rightarrow> string \<Rightarrow> 'd \<Rightarrow> bool \<times> 'd" where
  "isRunning c i d =
     (let (response, d') = client_inspectContainer c i d in
      if \<not> inspect_success response then (False, d') else (inspect_isRunning response, d'))"

definition getImage :: "'d docker_client \<Rightarrow> string \<Rightarrow> 'd \<Rightarrow> string \<times> 'd" where
  "getImage c i d =
     (let (response, d') = client_inspectContainer c i d in
      if \<not> inspect_success response then ([], d') else (inspect_image response, d'))"

definition killContainer :: "'d docker_client \<Rightarrow> string \<Rightarrow> 'd \<Rightarrow> bool \<times> 'd" where
  "killContainer c i d =
     (if i = [] then (False, d)
      else (let (success, d') = client_killContainer c i d in
            if \<not> success then (False, d') else (True, d')))"

definition removeContainer :: "'d docker_client \<Rightarrow> string \<Rightarrow> 'd \<Rightarrow> bool \<times> 'd" where
  "removeContainer c i d =
     (if i = [] then (False, d)
      else (let (success, d') = client_deleteContainer c i d in
            if \<not> success then (False, d') else (True, d')))"

definition run_container :: "'d docker_client \<Rightarrow> RunContainer \<Rightarrow> 'd \<Rightarrow> string \<times> 'd" where
  "run_container c params d =
     (let dockerParams = \<lparr>run_image = run_image params, run_tty = run_tty params,
                          run_memory = run_memory params\<rparr>;
          ((success, containerId), d') = client_runContainer c dockerParams d in
      if \<not> success then ([], d') else (containerId, d'))"

definition putArchive :: "'d docker_client \<Rightarrow> PutArchive \<Rightarrow> 'd \<Rightarrow> bool \<times> 'd" where
  "putArchive c params d =
     (let dockerParams = \<lparr>put_containerId = put_containerId params, put_path = put_path params,
                          put_archive = put_archive params, put_copyUIDGID = put_copyUIDGID params\<rparr>;
          ((success, message), d') = client_putArchive c dockerParams d in
      if \<not> success then (False, d') else (True, d'))"

definition exec_container :: "'d docker_client \<Rightarrow> Exec \<Rightarrow> 'd \<Rightarrow> ExecResult \<times> 'd" where
  "exec_container c params d =
     (let dockerParams = \<lparr>exec_containerId = exec_containerId params, exec_cmd = exec_cmd params\<rparr>;
          ((success, message), d') = client_exec c dockerParams d in
      (\<lparr>exec_success = success, exec_message = message\<rparr>, d'))"

lemmas wrapper_defs = getAllContainers_def isRunning_def getImage_def killContainer_def
  removeContainer_def run_container_def putArchive_def exec_container_def

section \<open>What the pool relies on\<close>

text \<open>
  Documented behaviour of the engine: a container identifier is unique, so creating a container
  never returns an identifier that was issued before. \<open>issued\<close> is the set of identifiers the
  engine has ever returned; only creation adds to it.
\<close>

definition docker_contract :: "'d docker_client \<Rightarrow> ('d \<Rightarrow> string set) \<Rightarrow> bool" where
  "docker_contract c issued \<longleftrightarrow>
     (\<forall>b d. issued (snd (client_listContainers c b d)) = issued d) \<and>
     (\<forall>i d. issued (snd (client_inspectContainer c i d)) = issued d) \<and>
     (\<forall>i d. issued (snd (client_killContainer c i d)) = issued d) \<and>
     (\<forall>i d. issued (snd (client_deleteContainer c i d)) = issued d) \<and>
     (\<forall>p d. issued (snd (client_putArchive c p d)) = issued d) \<and>
     (\<forall>p d. issued (snd (client_exec c p d)) = issued d) \<and>
     (\<forall>p d ok i d'. client_runContainer c p d = ((ok, i), d') \<longrightarrow>
        (if ok \<and> i \<noteq> [] then i \<notin> issued d \<and> issued d' = insert i (issued d)
         else issued d' = issued d))"

lemma docker_contract_run:
  assumes "docker_contract c issued" and "client_runContainer c p d = ((ok, i), d')"
  shows "ok \<Longrightarrow> i \<noteq> [] \<Longrightarrow> i \<notin> issued d \<and> issued d' = insert i (issued d)"
    and "\<not> (ok \<and> i \<noteq> []) \<Longrightarrow> issued d' = issued d"
proof -
  have "if ok \<and> i \<noteq> [] then i \<notin> issued d \<and> issued d' = insert i (issued d) else issued d' = issued d"
    using assms unfolding docker_contract_def by blast
  then show "ok \<Longrightarrow> i \<noteq> [] \<Longrightarrow> i \<notin> issued d \<and> issued d' = insert i (issued d)"
    and "\<not> (ok \<and> i \<noteq> []) \<Longrightarrow> issued d' = issued d" by (simp_all split: if_splits)
qed

lemma issued_wrapper:
  assumes "docker_contract c issued"
  shows "issued (snd (getAllContainers c d)) = issued d"
    and "issued (snd (isRunning c i d)) = issued d"
    and "issued (snd (getImage c i d)) = issued d"
    and "issued (snd (killContainer c i d)) = issued d"
    and "issued (snd (removeContainer c i d)) = issued d"
    and "issued (snd (putArchive c p d)) = issued d"
    and "issued (snd (exec_container c e d)) = issued d"
  using assms by (simp_all add: wrapper_defs docker_contract_def Let_def case_prod_beta)

lemma issued_run:
  assumes "docker_contract c issued" and "run_container c params d = (i, d')"
  shows "i = [] \<Longrightarrow> issued d' = issued d"
    and "i \<noteq> [] \<Longrightarrow> i \<notin> issued d \<and> issued d' = insert i (issued d)"
proof -
  obtain ok j where run: "client_runContainer c \<lparr>run_image = run_image params,
      run_tty = run_tty params, run_memory = run_memory params\<rparr> d = ((ok, j), d')"
    and i: "i = (if ok then j else [])"
    using assms(2) by (auto simp: run_container_def Let_def split: prod.splits if_splits)
  note facts = docker_contract_run[OF assms(1) run]
  show "i = [] \<Longrightarrow> issued d' = issued d" using facts(2) i by (auto split: if_splits)
  show "i \<noteq> [] \<Longrightarrow> i \<notin> issued d \<and> issued d' = insert i (issued d)"
    using facts(1) i by (auto split: if_splits)
qed

end
