(* ===== verification/Launcher_Storage.thy ===== *)
theory Launcher_Storage
  imports Docker_Wrapper
begin

text \<open>
  \<open>src/core/code_launcher/detail/storage.hpp\<close>: the storage that hands idle launchers to request
  threads. Each operation holds the mutex for its whole effect, so it is one atomic step on the map
  from keys to lists. \<open>extract\<close> on an empty list waits on the condition variable: its outcome is
  \<open>Block\<close> and the storage is unchanged. The locale \<open>extracting_storage\<close> states what the clients
  (the provider and the manipulator) rely on.
\<close>

section \<open>Operations\<close>

type_synonym ('k, 'v) ExtractingStorage = "'k \<rightharpoonup> 'v list"

definition storage_contains :: "('k, 'v) ExtractingStorage \<Rightarrow> 'k \<Rightarrow> bool" where
  "storage_contains storage key \<longleftrightarrow> storage key \<noteq> None"

definition storage_extract :: "'k \<Rightarrow> (('k, 'v) ExtractingStorage, 'v) op" where
  "storage_extract type storage =
     (case storage type of
        None \<Rightarrow> (Inl (Throw (Out_of_range ''unordered_map::at'')), storage)
      | Some values \<Rightarrow>
          if values = [] then (Inl Block, storage)
          else (Inr (last values), storage(type \<mapsto> butlast values)))"

definition storage_addValue :: "'k \<Rightarrow> 'v \<Rightarrow> (('k, 'v) ExtractingStorage, unit) op" where
  "storage_addValue type value storage =
     (case storage type of
        None \<Rightarrow> (Inl (Throw (Out_of_range ''unordered_map::at'')), storage)
      | Some values \<Rightarrow> (Inr (), storage(type \<mapsto> values @ [value])))"

text \<open>\<open>storage[key]\<close> inserts an empty list for a missing key; the loop runs once per value.\<close>

fun storage_addValues :: "'k \<Rightarrow> 'v list \<Rightarrow> ('k, 'v) ExtractingStorage \<Rightarrow> ('k, 'v) ExtractingStorage" where
  "storage_addValues key [] storage = storage"
| "storage_addValues key (value # values) storage =
     storage_addValues key values
       (storage(key \<mapsto> (case storage key of None \<Rightarrow> [] | Some vs \<Rightarrow> vs) @ [value]))"

section \<open>The interface\<close>

locale extracting_storage =
  fixes contains :: "'s \<Rightarrow> 'k \<Rightarrow> bool"
    and extr :: "'k \<Rightarrow> ('s, 'v) op"
    and addValue :: "'k \<Rightarrow> 'v \<Rightarrow> ('s, unit) op"
    and addValues :: "'k \<Rightarrow> 'v list \<Rightarrow> 's \<Rightarrow> 's"
    and vals :: "'s \<Rightarrow> 'k \<Rightarrow> 'v list option"
  assumes contains_iff: "contains s k \<longleftrightarrow> vals s k \<noteq> None"
    and extract_missing: "vals s k = None \<Longrightarrow> \<exists>e. extr k s = (Inl (Throw e), s)"
    and extract_empty: "vals s k = Some [] \<Longrightarrow> extr k s = (Inl Block, s)"
    and extract_some: "vals s k = Some (vs @ [v]) \<Longrightarrow>
      \<exists>s'. extr k s = (Inr v, s') \<and> vals s' = (vals s)(k \<mapsto> vs)"
    and addValue_missing: "vals s k = None \<Longrightarrow> \<exists>e. addValue k v s = (Inl (Throw e), s)"
    and addValue_some: "vals s k = Some vs \<Longrightarrow>
      \<exists>s'. addValue k v s = (Inr (), s') \<and> vals s' = (vals s)(k \<mapsto> vs @ [v])"
    and addValues_nil: "addValues k [] s = s"
    and addValues_some: "vs \<noteq> [] \<Longrightarrow>
      vals (addValues k vs s) = (vals s)(k \<mapsto> (case vals s k of None \<Rightarrow> [] | Some ws \<Rightarrow> ws) @ vs)"
begin

lemma extract_result:
  assumes "extr k s = (Inr v, s')"
  shows "\<exists>vs. vals s k = Some (vs @ [v]) \<and> vals s' = (vals s)(k \<mapsto> vs)"
proof (cases "vals s k")
  case None
  with extract_missing[of s k] assms show ?thesis by auto
next
  case (Some ws)
  show ?thesis
  proof (cases ws rule: rev_cases)
    case Nil
    with extract_empty[of s k] Some assms show ?thesis by simp
  next
    case (snoc vs w)
    with extract_some[of s k vs w] Some assms show ?thesis by auto
  qed
qed

lemma last_in_first_out:
  assumes "contains s k"
  shows "\<exists>s1 s2. addValue k v s = (Inr (), s1) \<and> extr k s1 = (Inr v, s2) \<and> vals s2 = vals s"
proof -
  obtain vs where vs: "vals s k = Some vs" using assms contains_iff by auto
  then obtain s1 where s1: "addValue k v s = (Inr (), s1)" "vals s1 = (vals s)(k \<mapsto> vs @ [v])"
    using addValue_some by blast
  then obtain s2 where "extr k s1 = (Inr v, s2)" "vals s2 = (vals s1)(k \<mapsto> vs)"
    using extract_some[of s1 k vs v] by auto
  with s1 vs show ?thesis by (intro exI[of _ s1] exI[of _ s2]) (auto simp: fun_eq_iff)
qed

lemma keys_stable:
  "extr k s = (r, s') \<Longrightarrow> dom (vals s') = dom (vals s)"
  "addValue k v s = (r', s'') \<Longrightarrow> dom (vals s'') = dom (vals s)"
proof -
  assume e: "extr k s = (r, s')"
  show "dom (vals s') = dom (vals s)"
  proof (cases r)
    case (Inr v)
    with e extract_result[of k s v s'] show ?thesis by (auto split: if_splits)
  next
    case (Inl f)
    then show ?thesis
      using e extract_missing[of s k] extract_empty[of s k] extract_some[of s k]
      by (metis Inl_Inr_False old.prod.inject option.exhaust rev_exhaust)
  qed
next
  assume a: "addValue k v s = (r', s'')"
  then show "dom (vals s'') = dom (vals s)"
    using addValue_missing[of s k v] addValue_some[of s k _ v] by (cases "vals s k") (auto split: if_splits)
qed

lemma blocked_iff: "fst (extr k s) = Inl Block \<longleftrightarrow> vals s k = Some []"
proof
  assume b: "fst (extr k s) = Inl Block"
  show "vals s k = Some []"
  proof (cases "vals s k")
    case None
    with b extract_missing[of s k] show ?thesis by auto
  next
    case (Some ws)
    with b extract_some[of s k] show ?thesis by (cases ws rule: rev_cases) auto
  qed
qed (simp add: extract_empty)

end

interpretation st: extracting_storage storage_contains storage_extract storage_addValue
  storage_addValues "\<lambda>s. s"
proof unfold_locales
  fix k :: 'k and vs :: "'v list" and s :: "('k, 'v) ExtractingStorage"
  assume "vs \<noteq> []"
  then show "storage_addValues k vs s = s(k \<mapsto> (case s k of None \<Rightarrow> [] | Some ws \<Rightarrow> ws) @ vs)"
  proof (induction vs arbitrary: s)
    case (Cons v vs)
    then show ?case by (cases "vs = []") (simp_all add: fun_eq_iff)
  qed simp
qed (auto simp: storage_contains_def storage_extract_def storage_addValue_def)

section \<open>Properties\<close>

text \<open>
  The storage is last in, first out: the value added last is the one extracted next, and after
  that the storage is as before, whatever older values wait in the list. (The comment in
  \<open>storage.hpp\<close> calls it a FIFO storage.)
\<close>

theorem storage_lifo:
  assumes "storage_contains s k"
  shows "\<exists>s1. storage_addValue k v s = (Inr (), s1) \<and> storage_extract k s1 = (Inr v, s)"
  using st.last_in_first_out[OF assms, of v] by auto

theorem storage_lifo_witness:
  "\<exists>s1. storage_addValue PYTHON (2::nat) [PYTHON \<mapsto> [1]] = (Inr (), s1)
     \<and> storage_extract PYTHON s1 = (Inr 2, [PYTHON \<mapsto> [1]])"
  by (rule storage_lifo) (simp add: storage_contains_def)

end
