(* ===== verification/Code_Launcher.thy ===== *)
theory Code_Launcher
  imports Container_Answer Launcher_Storage
begin

text \<open>
  \<open>src/core/code_launcher/detail\<close>: the launcher bound to one container (\<open>code_launchers.cpp\<close>), the
  manipulator that creates and removes containers (\<open>container_manipulator.cpp\<close>), the launcher with
  a callback on destruction (\<open>callbacked_code_launcher.cpp\<close>) and the provider that restarts a
  container after each use (\<open>restarting_code_launcher_provider.cpp\<close>). The state is the engine's
  state and the storage of idle launchers. Logging is dropped; the requests a log statement makes
  to the engine are kept.
\<close>

section \<open>One launcher (code_launchers.cpp)\<close>

definition kTaskWorkdir :: string where
  "kTaskWorkdir = ''/home/code_runner/task''"

definition kPlaygroundWorkdir :: string where
  "kPlaygroundWorkdir = ''/home/code_runner/playground''"

definition kPracticeWorkdir :: string where
  "kPracticeWorkdir = ''/home/code_runner/practice''"

definition kDefaultPaths :: "(Action \<times> string) list" where
  "kDefaultPaths =
     [(Chapter, kTaskWorkdir), (Playground, kPlaygroundWorkdir), (Practice_api, kPracticeWorkdir)]"

record BaseCodeLauncher =
  containerId :: string
  launcher_type :: Language

definition prepareCode ::
  "'d docker_client \<Rightarrow> BaseCodeLauncher \<Rightarrow> string \<Rightarrow> Action \<Rightarrow> ('d, bool) op" where
  "prepareCode c l tarString type d =
     (case map_of kDefaultPaths type of
        None \<Rightarrow> (Inl (Throw (Logic_error ''BaseCodeLauncher::prepareCode: unknown type'')), d)
      | Some defaultPath \<Rightarrow>
          (let params = \<lparr>put_containerId = containerId l, put_path = defaultPath,
                         put_archive = tarString, put_copyUIDGID = ''1''\<rparr>;
               (ok, d') = putArchive c params d in
           if \<not> ok then (Inr False, d') else (Inr True, d')))"

text \<open>
  \<open>return {result.success, result.message}\<close> initialises the \<open>int32_t\<close> status code from a \<open>bool\<close>.
\<close>

definition bool_to_code :: "bool \<Rightarrow> ErrorCode" where
  "bool_to_code b = (if b then 1 else 0)"

definition runCode ::
  "'d docker_client \<Rightarrow> BaseCodeLauncher \<Rightarrow> string \<Rightarrow> string list \<Rightarrow> Action \<Rightarrow> ('d, Response) op" where
  "runCode c l inMemoryTarWithSources args action =
     sbind (prepareCode c l inMemoryTarWithSources action) (\<lambda>prepared.
       if \<not> prepared then sret default_Response
       else (\<lambda>d.
         let (result, d') = exec_container c \<lparr>exec_containerId = containerId l, exec_cmd = args\<rparr> d in
         if \<not> exec_success result
         then (Inr (mk_response (bool_to_code (exec_success result)) (exec_message result) None), d')
         else (case action of
                 Chapter \<Rightarrow> (getCourseResponse (exec_message result), d')
               | Playground \<Rightarrow> (getPlaygroungResponse (exec_message result), d')
               | Practice_api \<Rightarrow> (getPracticeResponse (exec_message result), d'))))"

definition getInfo :: "'d docker_client \<Rightarrow> BaseCodeLauncher \<Rightarrow> 'd \<Rightarrow> CodeLauncherInfo \<times> 'd" where
  "getInfo c l d =
     (let (img, d') = getImage c (containerId l) d in
      (\<lparr>info_containerId = containerId l, info_image = img, info_type = launcher_type l\<rparr>, d'))"

section \<open>The pool and its manipulator (container_manipulator.cpp)\<close>

record 'd pool =
  engine :: 'd
  store :: "(Language, BaseCodeLauncher) ExtractingStorage"

definition on_engine :: "('d \<Rightarrow> 'a res \<times> 'd) \<Rightarrow> ('d pool, 'a) op" where
  "on_engine f s = (let (r, d) = f (engine s) in (r, s\<lparr>engine := d\<rparr>))"

definition on_store ::
  "((Language, BaseCodeLauncher) ExtractingStorage, 'a) op \<Rightarrow> ('d pool, 'a) op" where
  "on_store f s = (let (r, m) = f (store s) in (r, s\<lparr>store := m\<rparr>))"

definition kSenjunPattern :: string where
  "kSenjunPattern = ''senjun''"

definition createCodeLauncher ::
  "'d docker_client \<Rightarrow> string \<Rightarrow> Language \<Rightarrow> 'd \<Rightarrow> BaseCodeLauncher option \<times> 'd" where
  "createCodeLauncher c img lang d =
     (let params = \<lparr>run_image = img, run_tty = True, run_memory = 300000000000\<rparr>;
          (i, d') = run_container c params d in
      if i = [] then (None, d')
      else (Some \<lparr>containerId = i, launcher_type = lang\<rparr>, d'))"

definition removeCodeLauncher :: "'d docker_client \<Rightarrow> string \<Rightarrow> 'd \<Rightarrow> 'd" where
  "removeCodeLauncher c i d =
     (let (running, d1) = isRunning c i d;
          d2 = (if running then snd (killContainer c i d1) else d1) in
      snd (removeContainer c i d2))"

text \<open>
  Both operations are scheduled on the manipulator's single-thread context and \<open>sync_wait\<close> makes
  the caller wait for them, so each is one atomic step of the calling thread.
\<close>

definition asyncRemoveCodeLauncher :: "'d docker_client \<Rightarrow> string \<Rightarrow> ('d pool, unit) op" where
  "asyncRemoveCodeLauncher c i = on_engine (\<lambda>d. (Inr (), removeCodeLauncher c i d))"

definition asyncCreateCodeLauncher ::
  "'d docker_client \<Rightarrow> Language \<Rightarrow> string \<Rightarrow> ('d pool, unit) op" where
  "asyncCreateCodeLauncher c type img =
     sbind (on_engine (\<lambda>d. let (container, d') = createCodeLauncher c img type d in (Inr container, d')))
       (\<lambda>container.
          case container of
            None \<Rightarrow> sret ()
          | Some l \<Rightarrow> on_store (storage_addValue type l))"

fun killContainers :: "'d docker_client \<Rightarrow> string \<Rightarrow> Container list \<Rightarrow> 'd \<Rightarrow> 'd" where
  "killContainers c pattern [] d = d"
| "killContainers c pattern (container # cs) d =
     killContainers c pattern cs
       (if str_find (container_image container) pattern \<noteq> npos
        then removeCodeLauncher c (container_id container) d else d)"

definition syncRemoveRunningCodeLanchers :: "'d docker_client \<Rightarrow> 'd \<Rightarrow> 'd" where
  "syncRemoveRunningCodeLanchers c d =
     (let (workingContainers, d') = getAllContainers c d in
      killContainers c kSenjunPattern workingContainers d')"

text \<open>The inner loop of \<open>launchContainers\<close>, with the number of rounds left.\<close>

fun launch_loop ::
  "'d docker_client \<Rightarrow> string \<Rightarrow> Language \<Rightarrow> nat \<Rightarrow> BaseCodeLauncher list \<Rightarrow> 'd
     \<Rightarrow> BaseCodeLauncher list \<times> 'd" where
  "launch_loop c img lang 0 containers d = (containers, d)"
| "launch_loop c img lang (Suc n) containers d =
     (case createCodeLauncher c img lang d of
        (None, d') \<Rightarrow> launch_loop c img lang n containers d'
      | (Some l, d') \<Rightarrow> launch_loop c img lang n (containers @ [l]) d')"

fun launchContainers :: "'d docker_client \<Rightarrow> ConfigContainerStorage \<Rightarrow> 'd pool \<Rightarrow> 'd pool" where
  "launchContainers c [] s = s"
| "launchContainers c ((lang, info) # rest) s =
     (let (containers, d) = launch_loop c (imageName info) lang (unat (launched info)) [] (engine s);
          s' = s\<lparr>engine := d\<rparr> in
      launchContainers c rest
        (if containers \<noteq> [] then s'\<lparr>store := storage_addValues lang containers (store s')\<rparr> else s'))"

definition syncCreateCodeLaunchers :: "'d docker_client \<Rightarrow> Config \<Rightarrow> 'd pool \<Rightarrow> 'd pool" where
  "syncCreateCodeLaunchers c config s =
     launchContainers c (practices config)
       (launchContainers c (playgrounds config)
         (launchContainers c (courses config) s))"

definition CodeLauncherOSManipulator_init :: "'d docker_client \<Rightarrow> Config \<Rightarrow> 'd pool \<Rightarrow> 'd pool" where
  "CodeLauncherOSManipulator_init c config s =
     (let s' = s\<lparr>engine := syncRemoveRunningCodeLanchers c (engine s)\<rparr> in
      syncCreateCodeLaunchers c config s')"

section \<open>The restarting provider (restarting_code_launcher_provider.cpp)\<close>

definition provider_init :: "'d docker_client \<Rightarrow> Config \<Rightarrow> 'd \<Rightarrow> 'd pool" where
  "provider_init c config d =
     CodeLauncherOSManipulator_init c config \<lparr>engine = d, store = Map.empty\<rparr>"

record CallbackedCodeLauncher =
  m_codeLauncher :: BaseCodeLauncher
  m_restartInfo :: CodeLauncherInfo

definition codeLauncherTypeIsValid :: "Language \<Rightarrow> 'd pool \<Rightarrow> bool" where
  "codeLauncherTypeIsValid lang s = storage_contains (store s) lang"

definition getCodeLauncher ::
  "'d docker_client \<Rightarrow> Language \<Rightarrow> ('d pool, CallbackedCodeLauncher option) op" where
  "getCodeLauncher c lang s =
     (if \<not> codeLauncherTypeIsValid lang s then (Inr None, s)
      else sbind (on_store (storage_extract lang)) (\<lambda>launcher.
             sbind (on_engine (\<lambda>d. let (info, d') = getInfo c launcher d in (Inr info, d')))
               (\<lambda>info. sret (Some \<lparr>m_codeLauncher = launcher, m_restartInfo = info\<rparr>))) s)"

definition restartCodeLauncher ::
  "'d docker_client \<Rightarrow> CodeLauncherInfo \<Rightarrow> ('d pool, unit) op" where
  "restartCodeLauncher c restartInfo =
     sbind (asyncRemoveCodeLauncher c (info_containerId restartInfo)) (\<lambda>_.
       asyncCreateCodeLauncher c (info_type restartInfo) (info_image restartInfo))"

section \<open>The launcher with a callback (callbacked_code_launcher.cpp)\<close>

definition callbacked_runCode ::
  "'d docker_client \<Rightarrow> CallbackedCodeLauncher \<Rightarrow> string \<Rightarrow> string list \<Rightarrow> Action
     \<Rightarrow> ('d pool, Response) op" where
  "callbacked_runCode c l inMemoryTarWithSources args action =
     on_engine (runCode c (m_codeLauncher l) inMemoryTarWithSources args action)"

definition callbacked_getInfo ::
  "'d docker_client \<Rightarrow> CallbackedCodeLauncher \<Rightarrow> ('d pool, CodeLauncherInfo) op" where
  "callbacked_getInfo c l =
     on_engine (\<lambda>d. let (info, d') = getInfo c (m_codeLauncher l) d in (Inr info, d'))"

definition callbacked_destructor ::
  "'d docker_client \<Rightarrow> CallbackedCodeLauncher \<Rightarrow> ('d pool, unit) op" where
  "callbacked_destructor c l = restartCodeLauncher c (m_restartInfo l)"

end
