(* ===== verification/Launcher_Pool.thy ===== *)
theory Launcher_Pool
  imports Code_Launcher
begin

text \<open>
  Request threads sharing the pool. A request thread checks the language, extracts a launcher (and
  waits while the list is empty), asks for its image, uploads the archive (unless the archive could
  not be built), runs the command (the chapter handler may ask for the image again), and its destructor removes the container, creates a new one and puts it back
  (\<open>restarting_code_launcher_provider.cpp\<close>, \<open>callbacked_code_launcher.cpp\<close>). The relation
  \<open>pool_step\<close> interleaves these steps of any number of threads; each step is one operation of
  \<open>Code_Launcher\<close> that the mutex or the single-thread context makes atomic. \<open>served\<close> (containers
  handed out so far) and \<open>lost\<close> (creations that failed) are history variables.
\<close>

section \<open>States and steps\<close>

datatype phase =
    Idle
  | Waiting Language
  | Extracted BaseCodeLauncher
  | Running CallbackedCodeLauncher
  | Prepared CallbackedCodeLauncher
  | Executed CallbackedCodeLauncher
  | Releasing CodeLauncherInfo
  | Creating CodeLauncherInfo
  | Adding BaseCodeLauncher

record 'd sys =
  sys_pool :: "'d pool"
  threads :: "nat \<Rightarrow> phase"
  served :: "string list"
  lost :: "Language \<Rightarrow> nat"

definition goto :: "nat \<Rightarrow> phase \<Rightarrow> 'd pool \<Rightarrow> 'd sys \<Rightarrow> 'd sys" where
  "goto t ph p s = s\<lparr>sys_pool := p, threads := (threads s)(t := ph)\<rparr>"

inductive pool_step :: "'d docker_client \<Rightarrow> 'd sys \<Rightarrow> 'd sys \<Rightarrow> bool" for c :: "'d docker_client" where
  request: "threads s t = Idle \<Longrightarrow> codeLauncherTypeIsValid lang (sys_pool s) \<Longrightarrow>
    pool_step c s (goto t (Waiting lang) (sys_pool s) s)"
| take: "threads s t = Waiting lang \<Longrightarrow>
    on_store (storage_extract lang) (sys_pool s) = (Inr l, p) \<Longrightarrow>
    pool_step c s ((goto t (Extracted l) p s)\<lparr>served := served s @ [containerId l]\<rparr>)"
| info: "threads s t = Extracted l \<Longrightarrow>
    getInfo c l (engine (sys_pool s)) = (i, d) \<Longrightarrow>
    pool_step c s (goto t (Running \<lparr>m_codeLauncher = l, m_restartInfo = i\<rparr>) ((sys_pool s)\<lparr>engine := d\<rparr>) s)"
| prepare: "threads s t = Running h \<Longrightarrow>
    prepareCode c (m_codeLauncher h) tar action (engine (sys_pool s)) = (Inr ok, d) \<Longrightarrow>
    pool_step c s (goto t (if ok then Prepared h else Executed h)
      ((sys_pool s)\<lparr>engine := d\<rparr>) s)"
| exec: "threads s t = Prepared h \<Longrightarrow>
    exec_container c \<lparr>exec_containerId = containerId (m_codeLauncher h), exec_cmd = args\<rparr>
      (engine (sys_pool s)) = (result, d) \<Longrightarrow>
    pool_step c s (goto t (Executed h) ((sys_pool s)\<lparr>engine := d\<rparr>) s)"
| report: "threads s t = Executed h \<Longrightarrow>
    getInfo c (m_codeLauncher h) (engine (sys_pool s)) = (i, d) \<Longrightarrow>
    pool_step c s (goto t (Releasing (m_restartInfo h)) ((sys_pool s)\<lparr>engine := d\<rparr>) s)"
| finish: "threads s t = Executed h \<Longrightarrow>
    pool_step c s (goto t (Releasing (m_restartInfo h)) (sys_pool s) s)"
| unwind: "threads s t = Running h \<Longrightarrow>
    pool_step c s (goto t (Releasing (m_restartInfo h)) (sys_pool s) s)"
| remove: "threads s t = Releasing i \<Longrightarrow>
    pool_step c s (goto t (Creating i)
      ((sys_pool s)\<lparr>engine := removeCodeLauncher c (info_containerId i) (engine (sys_pool s))\<rparr>) s)"
| create: "threads s t = Creating i \<Longrightarrow>
    createCodeLauncher c (info_image i) (info_type i) (engine (sys_pool s)) = (Some l, d) \<Longrightarrow>
    pool_step c s (goto t (Adding l) ((sys_pool s)\<lparr>engine := d\<rparr>) s)"
| create_failed: "threads s t = Creating i \<Longrightarrow>
    createCodeLauncher c (info_image i) (info_type i) (engine (sys_pool s)) = (None, d) \<Longrightarrow>
    pool_step c s ((goto t Idle ((sys_pool s)\<lparr>engine := d\<rparr>) s)
      \<lparr>lost := (lost s)(info_type i := Suc (lost s (info_type i)))\<rparr>)"
| add: "threads s t = Adding l \<Longrightarrow>
    on_store (storage_addValue (launcher_type l) l) (sys_pool s) = (Inr (), p) \<Longrightarrow>
    pool_step c s (goto t Idle p s)"

inductive_cases pool_stepE: "pool_step c s s'"

definition sys_init :: "'d docker_client \<Rightarrow> Config \<Rightarrow> 'd \<Rightarrow> 'd sys" where
  "sys_init c config d =
     \<lparr>sys_pool = provider_init c config d, threads = (\<lambda>_. Idle), served = [], lost = (\<lambda>_. 0)\<rparr>"

inductive reachable :: "'d docker_client \<Rightarrow> Config \<Rightarrow> 'd \<Rightarrow> 'd sys \<Rightarrow> bool"
  for c :: "'d docker_client" and config :: Config and d :: 'd where
  start: "reachable c config d (sys_init c config d)"
| step: "reachable c config d s \<Longrightarrow> pool_step c s s' \<Longrightarrow> reachable c config d s'"

section \<open>Where a container is\<close>

text \<open>
  A container identifier is at a place: an index of the list of a language, or a thread. That
  no identifier is at two places is the invariant from which mutual exclusion follows.
\<close>

fun owned :: "phase \<Rightarrow> string option" where
  "owned (Extracted l) = Some (containerId l)"
| "owned (Running h) = Some (containerId (m_codeLauncher h))"
| "owned (Prepared h) = Some (containerId (m_codeLauncher h))"
| "owned (Executed h) = Some (containerId (m_codeLauncher h))"
| "owned (Releasing i) = Some (info_containerId i)"
| "owned (Adding l) = Some (containerId l)"
| "owned _ = None"

fun busy :: "phase \<Rightarrow> Language option" where
  "busy (Extracted l) = Some (launcher_type l)"
| "busy (Running h) = Some (launcher_type (m_codeLauncher h))"
| "busy (Prepared h) = Some (launcher_type (m_codeLauncher h))"
| "busy (Executed h) = Some (launcher_type (m_codeLauncher h))"
| "busy (Releasing i) = Some (info_type i)"
| "busy (Creating i) = Some (info_type i)"
| "busy (Adding l) = Some (launcher_type l)"
| "busy _ = None"

definition idle_list :: "(Language, BaseCodeLauncher) ExtractingStorage \<Rightarrow> Language \<Rightarrow> BaseCodeLauncher list" where
  "idle_list m lang = (case m lang of None \<Rightarrow> [] | Some vs \<Rightarrow> vs)"

type_synonym place = "(Language \<times> nat) + nat"

fun at_place :: "'d sys \<Rightarrow> place \<Rightarrow> string option" where
  "at_place s (Inl (lang, i)) =
     (if i < length (idle_list (store (sys_pool s)) lang)
      then Some (containerId (idle_list (store (sys_pool s)) lang ! i)) else None)"
| "at_place s (Inr t) = owned (threads s t)"

definition inj_opt :: "('a \<Rightarrow> 'b option) \<Rightarrow> bool" where
  "inj_opt f \<longleftrightarrow> (\<forall>p q x. f p = Some x \<longrightarrow> f q = Some x \<longrightarrow> p = q)"

lemma inj_optD: "inj_opt f \<Longrightarrow> f p = Some x \<Longrightarrow> f q = Some x \<Longrightarrow> p = q"
  by (auto simp: inj_opt_def)

lemma inj_opt_move: "inj_opt f \<Longrightarrow> f p = Some x \<Longrightarrow> inj_opt (f(p := None, q := Some x))"
  unfolding inj_opt_def by (metis fun_upd_apply option.distinct(1))

lemma inj_opt_clear: "inj_opt f \<Longrightarrow> inj_opt (f(p := None))"
  unfolding inj_opt_def by (metis fun_upd_apply option.distinct(1))

lemma inj_opt_fresh: "inj_opt f \<Longrightarrow> x \<notin> ran f \<Longrightarrow> inj_opt (f(p := Some x))"
  unfolding inj_opt_def ran_def by (metis (mono_tags, lifting) fun_upd_apply mem_Collect_eq option.inject)

fun phase_ok :: "('d \<Rightarrow> string set) \<Rightarrow> 'd sys \<Rightarrow> phase \<Rightarrow> bool" where
  "phase_ok issued s (Extracted l) \<longleftrightarrow> containerId l \<in> set (served s)"
| "phase_ok issued s (Running h) \<longleftrightarrow> containerId (m_codeLauncher h) \<in> set (served s)
     \<and> info_containerId (m_restartInfo h) = containerId (m_codeLauncher h)
     \<and> info_type (m_restartInfo h) = launcher_type (m_codeLauncher h)"
| "phase_ok issued s (Prepared h) \<longleftrightarrow> containerId (m_codeLauncher h) \<in> set (served s)
     \<and> info_containerId (m_restartInfo h) = containerId (m_codeLauncher h)
     \<and> info_type (m_restartInfo h) = launcher_type (m_codeLauncher h)"
| "phase_ok issued s (Executed h) \<longleftrightarrow> containerId (m_codeLauncher h) \<in> set (served s)
     \<and> info_containerId (m_restartInfo h) = containerId (m_codeLauncher h)
     \<and> info_type (m_restartInfo h) = launcher_type (m_codeLauncher h)"
| "phase_ok issued s (Releasing i) \<longleftrightarrow> info_containerId i \<in> set (served s)"
| "phase_ok issued s (Adding l) \<longleftrightarrow> containerId l \<in> issued (engine (sys_pool s))
     \<and> containerId l \<notin> set (served s)"
| "phase_ok issued s _ \<longleftrightarrow> True"

definition pool_inv :: "('d \<Rightarrow> string set) \<Rightarrow> 'd sys \<Rightarrow> bool" where
  "pool_inv issued s \<longleftrightarrow>
     inj_opt (at_place s) \<and>
     (\<forall>lang. \<forall>l \<in> set (idle_list (store (sys_pool s)) lang).
        launcher_type l = lang \<and> containerId l \<in> issued (engine (sys_pool s))
        \<and> containerId l \<notin> set (served s)) \<and>
     distinct (served s) \<and> set (served s) \<subseteq> issued (engine (sys_pool s)) \<and>
     (\<forall>t. phase_ok issued s (threads s t))"

section \<open>What each operation does to the set of issued identifiers\<close>

lemma issued_getInfo:
  assumes "docker_contract c issued" and "getInfo c l d = (i, d')"
  shows "issued d' = issued d" and "info_containerId i = containerId l" and "info_type i = launcher_type l"
  using assms(2) issued_wrapper(3)[OF assms(1), of "containerId l" d]
  by (auto simp: getInfo_def Let_def split: prod.splits)

lemma issued_prepareCode:
  "docker_contract c issued \<Longrightarrow> issued (snd (prepareCode c l tar a d)) = issued d"
  by (auto simp: prepareCode_def Let_def case_prod_beta issued_wrapper split: option.splits)

lemma issued_removeCodeLauncher:
  "docker_contract c issued \<Longrightarrow> issued (removeCodeLauncher c i d) = issued d"
  by (auto simp: removeCodeLauncher_def Let_def case_prod_beta issued_wrapper)

lemma createCodeLauncher_result:
  assumes "docker_contract c issued" and "createCodeLauncher c img lang d = (r, d')"
  shows "r = None \<Longrightarrow> issued d' = issued d"
    and "r = Some l \<Longrightarrow> containerId l \<notin> issued d \<and> issued d' = insert (containerId l) (issued d)
      \<and> launcher_type l = lang"
proof -
  let ?params = "\<lparr>run_image = img, run_tty = True, run_memory = 300000000000\<rparr>"
  obtain i where run: "run_container c ?params d = (i, d')"
    and r: "r = (if i = [] then None else Some \<lparr>containerId = i, launcher_type = lang\<rparr>)"
    using assms(2) by (cases "run_container c ?params d") (simp add: createCodeLauncher_def split: if_splits)
  note facts = issued_run[OF assms(1) run]
  show "r = None \<Longrightarrow> issued d' = issued d" using facts(1) r by (simp split: if_splits)
  assume "r = Some l"
  with r have "i \<noteq> []" and l: "l = \<lparr>containerId = i, launcher_type = lang\<rparr>"
    by (simp_all split: if_splits)
  from facts(2)[OF this(1)]
  show "containerId l \<notin> issued d \<and> issued d' = insert (containerId l) (issued d)
      \<and> launcher_type l = lang" unfolding l by simp
qed

section \<open>Every step keeps the invariant\<close>

lemma pool_invD:
  assumes "pool_inv issued s"
  shows "inj_opt (at_place s)" "distinct (served s)" "set (served s) \<subseteq> issued (engine (sys_pool s))"
    and "phase_ok issued s (threads s t)"
    and "l \<in> set (idle_list (store (sys_pool s)) lang) \<Longrightarrow>
      launcher_type l = lang \<and> containerId l \<in> issued (engine (sys_pool s))
      \<and> containerId l \<notin> set (served s)"
  using assms by (auto simp: pool_inv_def)

lemma pool_invI:
  assumes "inj_opt (at_place s)" and "distinct (served s)"
    and "set (served s) \<subseteq> issued (engine (sys_pool s))"
    and "\<And>t. phase_ok issued s (threads s t)"
    and "\<And>l lang. l \<in> set (idle_list (store (sys_pool s)) lang) \<Longrightarrow>
      launcher_type l = lang \<and> containerId l \<in> issued (engine (sys_pool s))
      \<and> containerId l \<notin> set (served s)"
  shows "pool_inv issued s"
  using assms by (simp add: pool_inv_def)

lemma goto_simps [simp]:
  "sys_pool (goto t ph p s) = p" "threads (goto t ph p s) = (threads s)(t := ph)"
  "served (goto t ph p s) = served s" "lost (goto t ph p s) = lost s"
  by (simp_all add: goto_def)

lemma at_place_goto:
  assumes "store p = store (sys_pool s)"
  shows "at_place (goto t ph p s) = (at_place s)(Inr t := owned ph)"
proof
  fix q
  show "at_place (goto t ph p s) q = ((at_place s)(Inr t := owned ph)) q"
    using assms by (cases q) (auto split: prod.splits)
qed

lemma at_place_served [simp]: "at_place (s\<lparr>served := x\<rparr>) = at_place s"
proof
  fix q show "at_place (s\<lparr>served := x\<rparr>) q = at_place s q" by (cases q) auto
qed

lemma at_place_lost [simp]: "at_place (s\<lparr>lost := x\<rparr>) = at_place s"
proof
  fix q show "at_place (s\<lparr>lost := x\<rparr>) q = at_place s q" by (cases q) auto
qed

lemma phase_ok_mono:
  "phase_ok issued s ph \<Longrightarrow> served s' = served s \<Longrightarrow>
   issued (engine (sys_pool s)) \<subseteq> issued (engine (sys_pool s')) \<Longrightarrow> phase_ok issued s' ph"
  by (cases ph) auto

lemma at_place_issued:
  assumes "pool_inv issued s"
  shows "ran (at_place s) \<subseteq> issued (engine (sys_pool s))"
proof
  fix x assume "x \<in> ran (at_place s)"
  then obtain q where q: "at_place s q = Some x" by (auto simp: ran_def)
  note facts = pool_invD[OF assms]
  show "x \<in> issued (engine (sys_pool s))"
  proof (cases q)
    case (Inl b)
    with q facts(5)[OF nth_mem] show ?thesis by (cases b) (auto split: if_splits)
  next
    case (Inr t)
    with q facts(3) facts(4)[of t] show ?thesis by (cases "threads s t") auto
  qed
qed

lemma phase_ok_lost [simp]: "phase_ok issued (s\<lparr>lost := x\<rparr>) ph = phase_ok issued s ph"
  by (cases ph) simp_all

lemma pool_inv_lost [simp]: "pool_inv issued (s\<lparr>lost := x\<rparr>) = pool_inv issued s"
  by (simp add: pool_inv_def)

lemma pool_inv_local:
  assumes inv: "pool_inv issued s"
    and d: "issued (engine (sys_pool s)) \<subseteq> issued d"
    and own: "owned ph = owned (threads s t) \<or> owned ph = None
      \<or> (\<exists>x. owned ph = Some x \<and> x \<notin> issued (engine (sys_pool s)))"
    and ok: "phase_ok issued (goto t ph ((sys_pool s)\<lparr>engine := d\<rparr>) s) ph"
  shows "pool_inv issued (goto t ph ((sys_pool s)\<lparr>engine := d\<rparr>) s)"
proof -
  let ?s = "goto t ph ((sys_pool s)\<lparr>engine := d\<rparr>) s"
  note facts = pool_invD[OF inv]
  have issued: "ran (at_place s) \<subseteq> issued (engine (sys_pool s))"
    using at_place_issued[OF inv] .
  have "inj_opt (at_place ?s)"
    using own inj_opt_clear[OF facts(1)] inj_opt_fresh[OF facts(1), of _ "Inr t"] issued facts(1)
    by (auto simp: at_place_goto simp del: at_place.simps fun_upd_apply) (auto simp: fun_upd_idem)
  moreover have "phase_ok issued ?s (threads ?s t')" for t'
    using ok phase_ok_mono[OF facts(4)[of t'], of ?s] d by simp
  ultimately show ?thesis
    using facts(2,3,5) d unfolding pool_inv_def by fastforce
qed

lemma on_store_extract:
  assumes "on_store (storage_extract lang) p = (Inr l, p')"
  shows "\<exists>vs. store p lang = Some (vs @ [l]) \<and> p' = p\<lparr>store := (store p)(lang \<mapsto> vs)\<rparr>"
proof (cases "storage_extract lang (store p)")
  case (Pair r m)
  with assms have "r = Inr l" and p': "p' = p\<lparr>store := m\<rparr>" by (simp_all add: on_store_def)
  with Pair st.extract_result[of lang "store p" l m] show ?thesis by auto
qed

lemma on_store_addValue:
  assumes "on_store (storage_addValue lang l) p = (Inr (), p')"
  shows "\<exists>vs. store p lang = Some vs \<and> p' = p\<lparr>store := (store p)(lang \<mapsto> vs @ [l])\<rparr>"
  using assms by (auto simp: on_store_def storage_addValue_def split: option.splits)

lemma idle_list_upd [simp]: "idle_list (m(lang \<mapsto> vs)) = (idle_list m)(lang := vs)"
  by (auto simp: idle_list_def)

lemma idle_list_Some: "m lang = Some vs \<Longrightarrow> idle_list m lang = vs"
  by (simp add: idle_list_def)

lemma at_place_take:
  assumes "store (sys_pool s) lang = Some (vs @ [l])"
  shows "at_place (goto t ph ((sys_pool s)\<lparr>store := (store (sys_pool s))(lang \<mapsto> vs)\<rparr>) s)
    = (at_place s)(Inl (lang, length vs) := None, Inr t := owned ph)"
proof
  fix q
  show "at_place (goto t ph ((sys_pool s)\<lparr>store := (store (sys_pool s))(lang \<mapsto> vs)\<rparr>) s) q
      = ((at_place s)(Inl (lang, length vs) := None, Inr t := owned ph)) q"
  proof (cases q)
    case (Inl b)
    then obtain a i where "q = Inl (a, i)" by (cases b) simp
    then show ?thesis
      using idle_list_Some[of "store (sys_pool s)", OF assms]
      by (cases "a = lang") (auto simp: nth_append less_Suc_eq)
  qed simp
qed

lemma at_place_add:
  assumes "store (sys_pool s) lang = Some vs"
  shows "at_place (goto t Idle ((sys_pool s)\<lparr>store := (store (sys_pool s))(lang \<mapsto> vs @ [l])\<rparr>) s)
    = (at_place s)(Inr t := None, Inl (lang, length vs) := Some (containerId l))"
proof
  fix q
  show "at_place (goto t Idle ((sys_pool s)\<lparr>store := (store (sys_pool s))(lang \<mapsto> vs @ [l])\<rparr>) s) q
      = ((at_place s)(Inr t := None, Inl (lang, length vs) := Some (containerId l))) q"
  proof (cases q)
    case (Inl b)
    then obtain a i where "q = Inl (a, i)" by (cases b) simp
    then show ?thesis
      using idle_list_Some[of "store (sys_pool s)", OF assms]
      by (cases "a = lang") (auto simp: nth_append less_Suc_eq)
  qed simp
qed

lemma pool_inv_take:
  assumes inv: "pool_inv issued s" and t: "threads s t = Waiting lang"
    and e: "on_store (storage_extract lang) (sys_pool s) = (Inr l, p)"
  shows "pool_inv issued ((goto t (Extracted l) p s)\<lparr>served := served s @ [containerId l]\<rparr>)"
    (is "pool_inv issued ?s")
proof -
  note facts = pool_invD[OF inv]
  obtain vs where vs: "store (sys_pool s) lang = Some (vs @ [l])"
    and p: "p = (sys_pool s)\<lparr>store := (store (sys_pool s))(lang \<mapsto> vs)\<rparr>"
    using on_store_extract[OF e] by blast
  have here: "at_place s (Inl (lang, length vs)) = Some (containerId l)"
    by (simp add: idle_list_def vs)
  have l: "l \<in> set (idle_list (store (sys_pool s)) lang)" by (simp add: idle_list_def vs)
  have inj: "inj_opt (at_place ?s)"
    using inj_opt_move[OF facts(1) here, of "Inr t"] by (simp add: at_place_take[OF vs] p)
  have only: "at_place s q = Some (containerId l) \<Longrightarrow> q = Inl (lang, length vs)" for q
    using inj_optD[OF facts(1) _ here] .
  have ok: "phase_ok issued ?s (threads ?s t')" for t'
    using facts(4)[of t'] only[of "Inr t'"] p by (cases "t' = t"; cases "threads s t'") auto
  have idle: "launcher_type l' = lang' \<and> containerId l' \<in> issued (engine p)
      \<and> containerId l' \<notin> set (served ?s)" if mem': "l' \<in> set (idle_list (store p) lang')" for l' lang'
  proof -
    have mem: "l' \<in> set (idle_list (store (sys_pool s)) lang')"
      using mem' by (auto simp: p idle_list_def vs split: if_splits)
    obtain k where k: "k < length (idle_list (store p) lang')" "l' = idle_list (store p) lang' ! k"
      using mem' by (auto simp: in_set_conv_nth)
    then have at: "at_place s (Inl (lang', k)) = Some (containerId l')" and ne: "(lang', k) \<noteq> (lang, length vs)"
      by (auto simp: p idle_list_def vs nth_append split: if_splits)
    have "containerId l' \<noteq> containerId l" 
    proof
      assume "containerId l' = containerId l"
      with at have "at_place s (Inl (lang', k)) = Some (containerId l)" by (simp only:)
      from only[OF this] ne show False by simp
    qed
    with facts(5)[OF mem] show ?thesis by (simp add: p)
  qed
  show ?thesis
  proof (rule pool_invI[OF inj _ _ ok])
    show "distinct (served ?s)" using facts(2) facts(5)[OF l] by simp
    show "set (served ?s) \<subseteq> issued (engine (sys_pool ?s))"
      using facts(3) facts(5)[OF l] by (simp add: p)
    show "launcher_type l' = lang' \<and> containerId l' \<in> issued (engine (sys_pool ?s))
        \<and> containerId l' \<notin> set (served ?s)" if "l' \<in> set (idle_list (store (sys_pool ?s)) lang')"
      for l' lang' using idle[of l' lang'] that by simp
  qed
qed

lemma pool_inv_add:
  assumes inv: "pool_inv issued s" and t: "threads s t = Adding l"
    and e: "on_store (storage_addValue (launcher_type l) l) (sys_pool s) = (Inr (), p)"
  shows "pool_inv issued (goto t Idle p s)"
proof -
  let ?lang = "launcher_type l"
  note facts = pool_invD[OF inv]
  obtain vs where vs: "store (sys_pool s) ?lang = Some vs"
    and p: "p = (sys_pool s)\<lparr>store := (store (sys_pool s))(?lang \<mapsto> vs @ [l])\<rparr>"
    using on_store_addValue[OF e] by blast
  have here: "at_place s (Inr t) = Some (containerId l)" by (simp add: t)
  have inj: "inj_opt (at_place (goto t Idle p s))"
    using inj_opt_move[OF facts(1) here, of "Inl (?lang, length vs)"] by (simp add: at_place_add[OF vs] p)
  have ok: "phase_ok issued (goto t Idle p s) (threads (goto t Idle p s) t')" for t'
    using phase_ok_mono[OF facts(4)[of t'], of "goto t Idle p s"] by (simp add: p)
  have idle: "launcher_type l' = lang' \<and> containerId l' \<in> issued (engine p)
      \<and> containerId l' \<notin> set (served s)" if "l' \<in> set (idle_list (store p) lang')" for l' lang'
    using that facts(4)[of t] t facts(5)[of l' lang']
    by (auto simp: p idle_list_def vs split: if_splits)
  show ?thesis
  proof (rule pool_invI[OF inj _ _ ok])
    show "distinct (served (goto t Idle p s))" using facts(2) by simp
    show "set (served (goto t Idle p s)) \<subseteq> issued (engine (sys_pool (goto t Idle p s)))"
      using facts(3) by (simp add: p)
  qed (use idle in \<open>unfold goto_simps, blast\<close>)
qed

lemma pool_step_inv:
  assumes c: "docker_contract c issued" and "pool_step c s s'" and inv: "pool_inv issued s"
  shows "pool_inv issued s'"
  using assms(2)
proof cases
  case (request t lang)
  then show ?thesis
    using pool_inv_local[OF inv, of "engine (sys_pool s)" "Waiting lang" t] by simp
next
  case (take t lang l p)
  then show ?thesis using pool_inv_take[OF inv] by blast
next
  case (info t l i d)
  with issued_getInfo[OF c info(3)] pool_invD(4)[OF inv, of t] show ?thesis
    by (auto intro!: pool_inv_local[OF inv])
next
  case (prepare t h tar action ok d)
  then have "issued d = issued (engine (sys_pool s))"
    using issued_prepareCode[OF c, of "m_codeLauncher h" tar action "engine (sys_pool s)"] by simp
  with prepare pool_invD(4)[OF inv, of t] show ?thesis
    by (auto intro!: pool_inv_local[OF inv])
next
  case (exec t h args result d)
  then have "issued d = issued (engine (sys_pool s))"
    using issued_wrapper(7)[OF c, of _ "engine (sys_pool s)"] by (metis snd_conv)
  with exec pool_invD(4)[OF inv, of t] show ?thesis
    by (auto intro!: pool_inv_local[OF inv])
next
  case (report t h i d)
  with issued_getInfo(1)[OF c report(3)] pool_invD(4)[OF inv, of t] show ?thesis
    by (auto intro!: pool_inv_local[OF inv])
next
  case (finish t h)
  with pool_invD(4)[OF inv, of t] show ?thesis
    using pool_inv_local[OF inv, of "engine (sys_pool s)" "Releasing (m_restartInfo h)" t] by simp
next
  case (unwind t h)
  with pool_invD(4)[OF inv, of t] show ?thesis
    using pool_inv_local[OF inv, of "engine (sys_pool s)" "Releasing (m_restartInfo h)" t] by simp
next
  case (remove t i)
  then show ?thesis
    by (auto intro!: pool_inv_local[OF inv] simp: issued_removeCodeLauncher[OF c])
next
  case (create t i l d)
  note fresh = createCodeLauncher_result(2)[OF c create(3) refl]
  have "phase_ok issued (goto t (Adding l) ((sys_pool s)\<lparr>engine := d\<rparr>) s) (Adding l)"
    using fresh pool_invD(3)[OF inv] by auto
  with fresh create show ?thesis by (auto intro!: pool_inv_local[OF inv])
next
  case (create_failed t i d)
  then have "pool_inv issued (goto t Idle ((sys_pool s)\<lparr>engine := d\<rparr>) s)"
    using createCodeLauncher_result(1)[OF c create_failed(3)] by (auto intro!: pool_inv_local[OF inv])
  then show ?thesis unfolding create_failed(1) by simp
next
  case (add t l p)
  then show ?thesis using pool_inv_add[OF inv] by blast
qed

section \<open>The initial pool\<close>

definition quiet :: "'d pool \<Rightarrow> 'd sys" where
  "quiet p = \<lparr>sys_pool = p, threads = (\<lambda>_. Idle), served = [], lost = (\<lambda>_. 0)\<rparr>"

lemma quiet_simps [simp]:
  "sys_pool (quiet p) = p" "threads (quiet p) t = Idle" "served (quiet p) = []" "lost (quiet p) lang = 0"
  by (simp_all add: quiet_def)

lemma sys_init_quiet: "sys_init c config d = quiet (provider_init c config d)"
  by (simp add: sys_init_def quiet_def)

abbreviation ids :: "BaseCodeLauncher list \<Rightarrow> string list" where
  "ids ls \<equiv> map containerId ls"

lemma launch_loop_result:
  assumes "docker_contract c issued"
  shows "launch_loop c img lang n ls d = (ls', d') \<Longrightarrow>
    \<exists>new. ls' = ls @ new \<and> distinct (ids new) \<and> set (ids new) \<inter> issued d = {}
      \<and> issued d' = issued d \<union> set (ids new) \<and> (\<forall>l \<in> set new. launcher_type l = lang)
      \<and> length new \<le> n"
proof (induction n arbitrary: ls d)
  case (Suc n)
  obtain r d1 where create: "createCodeLauncher c img lang d = (r, d1)" by (cases "createCodeLauncher c img lang d")
  show ?case
  proof (cases r)
    case None
    with Suc.IH[of ls d1] Suc.prems createCodeLauncher_result(1)[OF assms create] create
    show ?thesis by fastforce
  next
    case (Some l)
    note fresh = createCodeLauncher_result(2)[OF assms create Some]
    from Suc.IH[of "ls @ [l]" d1] Suc.prems create Some obtain new where
      "ls' = (ls @ [l]) @ new" "distinct (ids new)" "set (ids new) \<inter> issued d1 = {}"
      "issued d' = issued d1 \<union> set (ids new)" "\<forall>l \<in> set new. launcher_type l = lang" "length new \<le> n"
      by auto
    with fresh show ?thesis by (intro exI[of _ "l # new"]) auto
  qed
qed simp

lemma at_place_quiet:
  "at_place (quiet p) q = (case q of
     Inl (lang, i) \<Rightarrow> (if i < length (idle_list (store p) lang)
       then Some (containerId (idle_list (store p) lang ! i)) else None)
   | Inr t \<Rightarrow> None)"
  by (cases q) (auto split: prod.splits)

lemma pool_inv_extend:
  assumes inv: "pool_inv issued (quiet p)"
    and new: "distinct (ids new)" "set (ids new) \<inter> issued (engine p) = {}"
      "issued d = issued (engine p) \<union> set (ids new)" "\<forall>l \<in> set new. launcher_type l = lang"
    and st: "idle_list m = (idle_list (store p))(lang := idle_list (store p) lang @ new)"
  shows "pool_inv issued (quiet \<lparr>engine = d, store = m\<rparr>)" (is "pool_inv issued ?s")
proof (rule pool_invI)
  note facts = pool_invD[OF inv, simplified quiet_simps]
  let ?old = "idle_list (store p)"
  let ?f = "at_place ?s"
  have val: "?f q = Some x \<Longrightarrow> (at_place (quiet p) q = Some x \<and> x \<in> issued (engine p))
      \<or> (\<exists>i < length new. q = Inl (lang, length (?old lang) + i) \<and> x = containerId (new ! i)
          \<and> x \<notin> issued (engine p))" for q x
  proof (cases q)
    case (Inl b)
    assume q: "?f q = Some x"
    obtain a i where b: "b = (a, i)" by (cases b)
    show ?thesis
    proof (cases "i < length (?old a)")
      case True
      with q Inl b st facts(5)[OF nth_mem[OF True]] show ?thesis
        by (auto simp: at_place_quiet nth_append split: if_splits)
    next
      case False
      with q Inl b st have "a = lang" and i: "i - length (?old lang) < length new"
        and x: "x = containerId (new ! (i - length (?old lang)))"
        by (auto simp: at_place_quiet nth_append split: if_splits)
      moreover have "x \<notin> issued (engine p)" using x nth_mem[OF i] new(2) by fastforce
      ultimately show ?thesis using False Inl b i
        by (intro disjI2 exI[of _ "i - length (?old lang)"]) auto
    qed
  qed (simp add: at_place_quiet)
  show "inj_opt ?f"
    unfolding inj_opt_def
  proof (intro allI impI)
    fix q r x assume q: "?f q = Some x" and r: "?f r = Some x"
    show "q = r"
    proof (cases "x \<in> issued (engine p)")
      case True
      then show ?thesis using val[OF q] val[OF r] inj_optD[OF facts(1)] by blast
    next
      case False
      then obtain i j where "i < length new" "q = Inl (lang, length (?old lang) + i)" "x = containerId (new ! i)"
        "j < length new" "r = Inl (lang, length (?old lang) + j)" "x = containerId (new ! j)"
        using val[OF q] val[OF r] by blast
      moreover from this new(1) have "i = j" by (simp add: distinct_conv_nth) (metis nth_map length_map)
      ultimately show ?thesis by simp
    qed
  qed
  show "launcher_type l = lang' \<and> containerId l \<in> issued (engine (sys_pool ?s)) \<and> containerId l \<notin> set (served ?s)"
    if "l \<in> set (idle_list (store (sys_pool ?s)) lang')" for l lang'
    using that facts(5)[of l lang'] new(3,4) st by (auto split: if_splits)
qed simp_all

lemma idle_list_addValues:
  "idle_list (storage_addValues lang ls m) = (idle_list m)(lang := idle_list m lang @ ls)"
  by (cases "ls = []") (auto simp: st.addValues_some idle_list_def fun_eq_iff)

lemma engine_upd: "p\<lparr>engine := d\<rparr> = \<lparr>engine = d, store = store p\<rparr>"
  by (cases p) simp

lemma launchContainers_inv:
  assumes c: "docker_contract c issued"
  shows "pool_inv issued (quiet p) \<Longrightarrow> pool_inv issued (quiet (launchContainers c conf p))"
proof (induction conf arbitrary: p)
  case (Cons e conf)
  obtain lang info where e: "e = (lang, info)" by (cases e)
  obtain ls d where run: "launch_loop c (imageName info) lang (unat (launched info)) [] (engine p) = (ls, d)"
    by (cases "launch_loop c (imageName info) lang (unat (launched info)) [] (engine p)")
  let ?p = "\<lparr>engine = d, store = storage_addValues lang ls (store p)\<rparr>"
  have "pool_inv issued (quiet ?p)"
    using launch_loop_result[OF c run] by (auto intro!: pool_inv_extend[OF Cons.prems] simp: idle_list_addValues)
  then show ?case using Cons.IH by (cases "ls = []") (simp_all add: e run Let_def engine_upd)
qed simp

lemma issued_killContainers:
  "docker_contract c issued \<Longrightarrow> issued (killContainers c pat cs d) = issued d"
  by (induction cs arbitrary: d) (simp_all add: issued_removeCodeLauncher)

lemma issued_syncRemove:
  "docker_contract c issued \<Longrightarrow> issued (syncRemoveRunningCodeLanchers c d) = issued d"
  by (simp add: syncRemoveRunningCodeLanchers_def Let_def case_prod_beta issued_killContainers issued_wrapper)

lemma pool_inv_init:
  assumes "docker_contract c issued"
  shows "pool_inv issued (sys_init c config d)"
proof -
  have "pool_inv issued (quiet \<lparr>engine = syncRemoveRunningCodeLanchers c d, store = Map.empty\<rparr>)"
    by (rule pool_invI) (simp_all add: inj_opt_def at_place_quiet idle_list_def split: sum.splits)
  then show ?thesis
    by (simp add: sys_init_quiet provider_init_def CodeLauncherOSManipulator_init_def
        syncCreateCodeLaunchers_def Let_def launchContainers_inv[OF assms])
qed

lemma reachable_pool_inv:
  assumes "reachable c config d s" and "docker_contract c issued"
  shows "pool_inv issued s"
  using assms(1) by induction (blast intro: pool_inv_init pool_step_inv assms(2))+

end
