(* ===== verification/Pool_Progress.thy ===== *)
theory Pool_Progress
  imports Launcher_Pool
begin

text \<open>
  What the request threads can count on: containers are neither shared nor reused, their number is
  conserved up to failed creations, a waiting thread is served as long as one container of its
  language is left, and the sequential operations of \<open>Code_Launcher\<close> are runs of \<open>pool_step\<close>.
\<close>

section \<open>Conservation of launchers\<close>

definition in_use :: "'d sys \<Rightarrow> Language \<Rightarrow> nat" where
  "in_use s lang = card {t. busy (threads s t) = Some lang}"

definition available :: "'d sys \<Rightarrow> Language \<Rightarrow> nat" where
  "available s lang = length (idle_list (store (sys_pool s)) lang)"

definition capacity :: "'d docker_client \<Rightarrow> Config \<Rightarrow> 'd \<Rightarrow> Language \<Rightarrow> nat" where
  "capacity c config d lang = available (sys_init c config d) lang"

definition active_finite :: "'d sys \<Rightarrow> bool" where
  "active_finite s \<longleftrightarrow> finite {t. threads s t \<noteq> Idle}"

abbreviation total :: "'d sys \<Rightarrow> Language \<Rightarrow> nat" where
  "total s lang \<equiv> available s lang + in_use s lang + lost s lang"

lemma active_finite_goto: "active_finite s \<Longrightarrow> active_finite (goto t ph p s)"
  unfolding active_finite_def
  by (rule finite_subset[of _ "insert t {t. threads s t \<noteq> Idle}"]) auto

lemma active_finite_upd [simp]:
  "active_finite (s\<lparr>served := x\<rparr>) = active_finite s" "active_finite (s\<lparr>lost := y\<rparr>) = active_finite s"
  by (simp_all add: active_finite_def)

lemma finite_busy: "active_finite s \<Longrightarrow> finite {t. busy (threads s t) = Some lang}"
  unfolding active_finite_def by (erule rev_finite_subset) auto

lemma in_use_goto:
  assumes "active_finite s"
  shows "in_use (goto t ph p s) lang + of_bool (busy (threads s t) = Some lang)
    = in_use s lang + of_bool (busy ph = Some lang)"
proof -
  let ?B = "{t. busy (threads s t) = Some lang}"
  have "{t'. busy (((threads s)(t := ph)) t') = Some lang}
      = (if busy ph = Some lang then insert t ?B else ?B - {t})"
    by auto
  then show ?thesis
    using finite_busy[OF assms, of lang] card_gt_0_iff[of ?B]
    by (auto simp: in_use_def card_insert_if card_Diff_singleton_if)
qed

lemma in_use_upd [simp]:
  "in_use (s\<lparr>served := x\<rparr>) lang = in_use s lang" "in_use (s\<lparr>lost := y\<rparr>) lang = in_use s lang"
  by (simp_all add: in_use_def)

lemma available_goto [simp]: "available (goto t ph p s) lang = length (idle_list (store p) lang)"
  by (simp add: available_def)

lemma available_upd [simp]:
  "available (s\<lparr>served := x\<rparr>) lang = available s lang" "available (s\<lparr>lost := y\<rparr>) lang = available s lang"
  by (simp_all add: available_def)

lemma pool_step_active: "pool_step c s s' \<Longrightarrow> active_finite s \<Longrightarrow> active_finite s'"
  by (elim pool_stepE) (auto intro: active_finite_goto)

lemma in_use_same:
  assumes "active_finite s" and "busy (threads s t) = busy ph"
  shows "in_use (goto t ph p s) lang = in_use s lang"
  using in_use_goto[OF assms(1), of t ph p lang] assms(2) by simp

lemma pool_step_total:
  assumes "pool_step c s s'" and "docker_contract c issued" and inv: "pool_inv issued s"
    and fin: "active_finite s"
  shows "total s' lang = total s lang"
  using assms(1)
proof cases
  case (request t L)
  then show ?thesis using in_use_same[OF fin, of t "Waiting L" "sys_pool s" lang] by (simp add: available_def)
next
  case (take t L l p)
  obtain vs where vs: "store (sys_pool s) L = Some (vs @ [l])"
    and p: "p = (sys_pool s)\<lparr>store := (store (sys_pool s))(L \<mapsto> vs)\<rparr>"
    using on_store_extract[OF take(3)] by blast
  have "launcher_type l = L" using pool_invD(5)[OF inv, of l L] by (simp add: idle_list_def vs)
  then show ?thesis
    using take in_use_goto[OF fin, of t "Extracted l" p lang] p idle_list_Some[of "store (sys_pool s)", OF vs]
    by (auto simp: available_def)
next
  case (info t l i d)
  then show ?thesis
    using in_use_same[OF fin, of t "Running \<lparr>m_codeLauncher = l, m_restartInfo = i\<rparr>"
        "(sys_pool s)\<lparr>engine := d\<rparr>" lang] by (simp add: available_def)
next
  case (prepare t h tar action ok d)
  then show ?thesis
    using pool_invD(4)[OF inv, of t]
      in_use_same[OF fin, of t "if ok then Prepared h else Executed h"
        "(sys_pool s)\<lparr>engine := d\<rparr>" lang] by (auto simp: available_def split: if_splits)
next
  case (exec t h args result d)
  then show ?thesis
    using in_use_same[OF fin, of t "Executed h" "(sys_pool s)\<lparr>engine := d\<rparr>" lang] by (simp add: available_def)
next
  case (report t h i d)
  then show ?thesis
    using pool_invD(4)[OF inv, of t]
      in_use_same[OF fin, of t "Releasing (m_restartInfo h)" "(sys_pool s)\<lparr>engine := d\<rparr>" lang]
    by (simp add: available_def)
next
  case (finish t h)
  then show ?thesis
    using pool_invD(4)[OF inv, of t]
      in_use_same[OF fin, of t "Releasing (m_restartInfo h)" "sys_pool s" lang]
    by (simp add: available_def)
next
  case (unwind t h)
  then show ?thesis
    using pool_invD(4)[OF inv, of t]
      in_use_same[OF fin, of t "Releasing (m_restartInfo h)" "sys_pool s" lang]
    by (simp add: available_def)
next
  case (remove t i)
  then show ?thesis
    using in_use_same[OF fin, of t "Creating i" "(sys_pool s)\<lparr>engine := removeCodeLauncher c
        (info_containerId i) (engine (sys_pool s))\<rparr>" lang] by (simp add: available_def)
next
  case (create t i l d)
  then have "launcher_type l = info_type i"
    using createCodeLauncher_result(2)[OF assms(2) create(3) refl] by simp
  with create show ?thesis
    using in_use_same[OF fin, of t "Adding l" "(sys_pool s)\<lparr>engine := d\<rparr>" lang]
    by (simp add: available_def)
next
  case (create_failed t i d)
  then show ?thesis
    using in_use_goto[OF fin, of t Idle "(sys_pool s)\<lparr>engine := d\<rparr>" lang] by (auto simp: available_def)
next
  case (add t l p)
  obtain vs where vs: "store (sys_pool s) (launcher_type l) = Some vs"
    and p: "p = (sys_pool s)\<lparr>store := (store (sys_pool s))(launcher_type l \<mapsto> vs @ [l])\<rparr>"
    using on_store_addValue[OF add(3)] by blast
  show ?thesis
    using add in_use_goto[OF fin, of t Idle p lang] p idle_list_Some[of "store (sys_pool s)", OF vs]
    by (auto simp: available_def)
qed

lemma active_finite_quiet [simp]: "active_finite (quiet p)"
  by (simp add: active_finite_def)

lemma reachable_total:
  assumes "reachable c config d s" and "docker_contract c issued"
  shows "active_finite s \<and> total s lang = capacity c config d lang"
  using assms(1)
proof induction
  case start
  then show ?case by (simp add: capacity_def sys_init_quiet in_use_def)
next
  case (step s s')
  then show ?case
    using pool_step_total[OF step.hyps(2) assms(2) reachable_pool_inv[OF step.hyps(1) assms(2)]]
      pool_step_active[OF step.hyps(2)] by simp
qed

section \<open>The languages of the pool do not change\<close>

fun wanted :: "phase \<Rightarrow> Language option" where
  "wanted (Waiting lang) = Some lang"
| "wanted ph = busy ph"

lemma busy_wanted: "busy ph = Some lang \<Longrightarrow> wanted ph = Some lang"
  by (cases ph) simp_all

definition keys_inv :: "'d sys \<Rightarrow> bool" where
  "keys_inv s \<longleftrightarrow> (\<forall>t lang. wanted (threads s t) = Some lang \<longrightarrow> lang \<in> dom (store (sys_pool s)))"

lemma keys_invD: "keys_inv s \<Longrightarrow> wanted (threads s t) = Some lang \<Longrightarrow> \<exists>vs. store (sys_pool s) lang = Some vs"
  by (auto simp: keys_inv_def)

lemma keys_inv_goto:
  assumes "keys_inv s" and "dom (store p) = dom (store (sys_pool s))"
    and "wanted ph = None \<or> wanted ph = wanted (threads s t) \<or> (\<exists>lang \<in> dom (store p). wanted ph = Some lang)"
  shows "keys_inv (goto t ph p s)"
  unfolding keys_inv_def goto_simps fun_upd_apply
  using assms by (metis keys_inv_def option.distinct(1) option.inject)

lemma keys_inv_upd [simp]:
  "keys_inv (s\<lparr>served := x\<rparr>) = keys_inv s" "keys_inv (s\<lparr>lost := y\<rparr>) = keys_inv s"
  by (simp_all add: keys_inv_def)

lemma pool_step_keys:
  assumes "pool_step c s s'" and c: "docker_contract c issued" and inv: "pool_inv issued s" and "keys_inv s"
  shows "keys_inv s' \<and> dom (store (sys_pool s')) = dom (store (sys_pool s))"
  using assms(1)
proof cases
  case (request t L)
  then show ?thesis
    using keys_inv_goto[OF assms(4), of "sys_pool s" "Waiting L" t]
    by (auto simp: codeLauncherTypeIsValid_def storage_contains_def)
next
  case (take t L l p)
  then obtain vs where vs: "store (sys_pool s) L = Some (vs @ [l])"
    and p: "p = (sys_pool s)\<lparr>store := (store (sys_pool s))(L \<mapsto> vs)\<rparr>"
    using on_store_extract[OF take(3)] by blast
  have dom: "dom (store p) = dom (store (sys_pool s))" using vs by (auto simp: p)
  have "launcher_type l = L" using pool_invD(5)[OF inv, of l L] by (simp add: idle_list_def vs)
  with take vs dom show ?thesis
    using keys_inv_goto[OF assms(4) dom, of "Extracted l" t] by simp
next
  case (info t l i d)
  then show ?thesis by (auto intro!: keys_inv_goto[OF assms(4)])
next
  case (prepare t h tar action ok d)
  then show ?thesis
    using pool_invD(4)[OF inv, of t] by (auto intro!: keys_inv_goto[OF assms(4)])
next
  case (exec t h args result d)
  then show ?thesis
    using pool_invD(4)[OF inv, of t] by (auto intro!: keys_inv_goto[OF assms(4)])
next
  case (report t h i d)
  then show ?thesis
    using pool_invD(4)[OF inv, of t] by (auto intro!: keys_inv_goto[OF assms(4)])
next
  case (finish t h)
  then show ?thesis
    using pool_invD(4)[OF inv, of t] by (auto intro!: keys_inv_goto[OF assms(4)])
next
  case (unwind t h)
  then show ?thesis
    using pool_invD(4)[OF inv, of t] by (auto intro!: keys_inv_goto[OF assms(4)])
next
  case (remove t i)
  then show ?thesis by (auto intro!: keys_inv_goto[OF assms(4)])
next
  case (create t i l d)
  then have "launcher_type l = info_type i"
    using createCodeLauncher_result(2)[OF c create(3) refl] by simp
  with create show ?thesis by (auto intro!: keys_inv_goto[OF assms(4)])
next
  case (create_failed t i d)
  then show ?thesis by (auto intro!: keys_inv_goto[OF assms(4)])
next
  case (add t l p)
  then show ?thesis
    using on_store_addValue[OF add(3)] by (auto intro!: keys_inv_goto[OF assms(4)] split: if_splits)
qed

lemma reachable_keys:
  assumes "reachable c config d s" and "docker_contract c issued"
  shows "keys_inv s \<and> dom (store (sys_pool s)) = dom (store (provider_init c config d))"
  using assms(1)
proof induction
  case start
  then show ?case by (simp add: sys_init_quiet keys_inv_def)
next
  case (step s s')
  then show ?case
    using pool_step_keys[OF step.hyps(2) assms(2) reachable_pool_inv[OF step.hyps(1) assms(2)]] by simp
qed

section \<open>Every busy thread can go on\<close>

text \<open>The number of steps a thread still has to take before its request is over.\<close>

fun steps_left :: "phase \<Rightarrow> nat" where
  "steps_left (Extracted l) = 7"
| "steps_left (Running h) = 6"
| "steps_left (Prepared h) = 5"
| "steps_left (Executed h) = 4"
| "steps_left (Releasing i) = 3"
| "steps_left (Creating i) = 2"
| "steps_left (Adding l) = 1"
| "steps_left _ = 0"

lemma prepareCode_returns: "\<exists>ok d'. prepareCode c l tar action d = (Inr ok, d')"
  by (cases action) (auto simp: prepareCode_def kDefaultPaths_def Let_def case_prod_beta)

lemma busy_step:
  assumes "busy (threads s t) = Some lang" and keys: "keys_inv s"
  shows "\<exists>s'. pool_step c s s' \<and> steps_left (threads s' t) < steps_left (threads s t)
    \<and> (\<forall>t'. t' \<noteq> t \<longrightarrow> threads s' t' = threads s t')"
proof (cases "threads s t")
  case (Extracted l)
  then show ?thesis
    by (intro exI conjI, rule pool_step.info[OF _ surjective_pairing]) simp_all
next
  case (Running h)
  obtain ok d' where "prepareCode c (m_codeLauncher h) [] Chapter (engine (sys_pool s)) = (Inr ok, d')"
    using prepareCode_returns[of c "m_codeLauncher h" "[]" Chapter "engine (sys_pool s)"] by auto
  from pool_step.prepare[OF Running this] show ?thesis using Running by (intro exI conjI) auto
next
  case (Prepared h)
  then show ?thesis
    by (intro exI conjI, rule pool_step.exec[OF _ surjective_pairing]) simp_all
next
  case (Executed h)
  from pool_step.finish[OF this] show ?thesis using Executed by (intro exI conjI) auto
next
  case (Releasing i)
  from pool_step.remove[OF this] show ?thesis using Releasing by (intro exI conjI) auto
next
  case (Creating i)
  obtain r d' where c: "createCodeLauncher c (info_image i) (info_type i) (engine (sys_pool s)) = (r, d')"
    by (cases "createCodeLauncher c (info_image i) (info_type i) (engine (sys_pool s))")
  show ?thesis
  proof (cases r)
    case None
    from pool_step.create_failed[OF Creating c[unfolded None]] show ?thesis
      using Creating by (intro exI conjI) auto
  next
    case (Some l)
    from pool_step.create[OF Creating c[unfolded Some]] show ?thesis
      using Creating by (intro exI conjI) auto
  qed
next
  case (Adding l)
  then obtain vs where "store (sys_pool s) (launcher_type l) = Some vs"
    using keys_invD[OF keys, of t] by auto
  then have "on_store (storage_addValue (launcher_type l) l) (sys_pool s)
      = (Inr (), (sys_pool s)\<lparr>store := (store (sys_pool s))(launcher_type l \<mapsto> vs @ [l])\<rparr>)"
    by (simp add: on_store_def storage_addValue_def)
  from pool_step.add[OF Adding this] show ?thesis using Adding by (intro exI conjI) auto
qed (use assms in simp_all)

lemma take_step:
  assumes "threads s t = Waiting lang" and "available s lang > 0"
  shows "\<exists>s' l. pool_step c s s' \<and> threads s' = (threads s)(t := Extracted l)
    \<and> l \<in> set (idle_list (store (sys_pool s)) lang)"
proof -
  obtain vs where vs: "store (sys_pool s) lang = Some vs" "vs \<noteq> []"
    using assms(2) by (cases "store (sys_pool s) lang") (auto simp: available_def idle_list_def)
  then have "on_store (storage_extract lang) (sys_pool s)
      = (Inr (last vs), (sys_pool s)\<lparr>store := (store (sys_pool s))(lang \<mapsto> butlast vs)\<rparr>)"
    by (simp add: on_store_def storage_extract_def)
  from pool_step.take[OF assms(1) this] show ?thesis
    using vs by (intro exI conjI) (auto simp: idle_list_def)
qed

section \<open>A language without containers\<close>

lemma lost_mono: "pool_step c s s' \<Longrightarrow> lost s lang \<le> lost s' lang"
  by (elim pool_stepE) auto

lemma exhausted_step:
  assumes "pool_step c s s'" and "threads s t = Waiting lang" and "available s lang = 0"
  shows "threads s' t = Waiting lang"
  using assms(1)
proof cases
  case (take t' L l p)
  then obtain vs where "store (sys_pool s) L = Some (vs @ [l])" using on_store_extract by blast
  with assms(3) have "L \<noteq> lang" by (auto simp: available_def idle_list_def)
  with take assms(2) show ?thesis by auto
qed (use assms(2) in auto)

lemma reachable_steps: "(pool_step c)\<^sup>*\<^sup>* s s' \<Longrightarrow> reachable c config d s \<Longrightarrow> reachable c config d s'"
  by (induction rule: rtranclp_induct) (auto intro: reachable.step)

lemma exhausted_steps:
  assumes "(pool_step c)\<^sup>*\<^sup>* s s'" and r: "reachable c config d s" and c: "docker_contract c issued"
    and t: "threads s t = Waiting lang" and l: "lost s lang = capacity c config d lang"
  shows "threads s' t = Waiting lang \<and> lost s' lang = capacity c config d lang"
  using assms(1)
proof (induction rule: rtranclp_induct)
  case (step u v)
  have ru: "reachable c config d u" and rv: "reachable c config d v"
    using reachable_steps[OF step.hyps(1) r] step.hyps(2) by (auto intro: reachable.step)
  show ?case
    using step.IH reachable_total[OF ru c, of lang] reachable_total[OF rv c, of lang]
      exhausted_step[OF step.hyps(2)] lost_mono[OF step.hyps(2), of lang] by simp
qed (use t l in simp)

section \<open>The sequential operations are runs of the system\<close>

text \<open>A step of one thread that has called the pool; the others stand still.\<close>

definition thread_step :: "'d docker_client \<Rightarrow> nat \<Rightarrow> 'd sys \<Rightarrow> 'd sys \<Rightarrow> bool" where
  "thread_step c t s s' \<longleftrightarrow>
     pool_step c s s' \<and> threads s t \<noteq> Idle \<and> (\<forall>t'. t' \<noteq> t \<longrightarrow> threads s' t' = threads s t')"

lemma thread_stepI:
  "pool_step c s s' \<Longrightarrow> threads s t \<noteq> Idle \<Longrightarrow> threads s' = (threads s)(t := ph) \<Longrightarrow> thread_step c t s s'"
  by (simp add: thread_step_def)

lemma thread_steps_pool: "(thread_step c t)\<^sup>*\<^sup>* s s' \<Longrightarrow> (pool_step c)\<^sup>*\<^sup>* s s'"
  by (erule rtranclp_mono[THEN predicate2D, rotated]) (auto simp: thread_step_def)

abbreviation called :: "nat \<Rightarrow> Language \<Rightarrow> 'd sys \<Rightarrow> 'd sys" where
  "called t lang s \<equiv> goto t (Waiting lang) (sys_pool s) s"

lemma called_steps:
  assumes "threads s t = Idle" and "codeLauncherTypeIsValid lang (sys_pool s)" and "(thread_step c t)\<^sup>*\<^sup>* (called t lang s) s'"
  shows "(pool_step c)\<^sup>*\<^sup>* s s'"
  by (rule converse_rtranclp_into_rtranclp[of "pool_step c", OF pool_step.request[OF assms(1,2)] thread_steps_pool[OF assms(3)]])

lemma run_phases:
  assumes "threads s t = Running h" and "callbacked_runCode c h tar args action (sys_pool s) = (r, p)"
  shows "(thread_step c t)\<^sup>*\<^sup>* s (goto t (Executed h) p s)"
proof -
  let ?d = "engine (sys_pool s)" and ?l = "m_codeLauncher h"
  obtain ok d1 where prep: "prepareCode c ?l tar action ?d = (Inr ok, d1)"
    using prepareCode_returns[of c ?l tar action ?d] by auto
  let ?s1 = "goto t (if ok then Prepared h else Executed h) ((sys_pool s)\<lparr>engine := d1\<rparr>) s"
  have step1: "thread_step c t s ?s1"
    by (rule thread_stepI[OF pool_step.prepare[OF assms(1) prep]]) (simp_all add: assms(1))
  show ?thesis
  proof (cases ok)
    case False
    with prep assms(2) have "p = (sys_pool s)\<lparr>engine := d1\<rparr>"
      by (simp add: callbacked_runCode_def on_engine_def runCode_def)
    with step1 False show ?thesis by auto
  next
    case True
    let ?e = "\<lparr>exec_containerId = containerId ?l, exec_cmd = args\<rparr>"
    obtain result d2 where ex: "exec_container c ?e d1 = (result, d2)" by (cases "exec_container c ?e d1")
    have "p = (sys_pool s)\<lparr>engine := d2\<rparr>"
      using prep True ex assms(2)
      by (auto simp: callbacked_runCode_def on_engine_def runCode_def Let_def split: if_splits Api.splits)
    moreover have "thread_step c t ?s1 (goto t (Executed h) ((sys_pool ?s1)\<lparr>engine := d2\<rparr>) ?s1)"
      by (rule thread_stepI[OF pool_step.exec[where result = result and args = args]]) (use True ex in simp_all)
    moreover have "goto t (Executed h) ((sys_pool ?s1)\<lparr>engine := d2\<rparr>) ?s1
        = goto t (Executed h) ((sys_pool s)\<lparr>engine := d2\<rparr>) s" by (simp add: goto_def)
    ultimately show ?thesis using step1 by (metis converse_rtranclp_into_rtranclp r_into_rtranclp)
  qed
qed

lemma three_steps: "r a b \<Longrightarrow> r b e \<Longrightarrow> r e f \<Longrightarrow> r\<^sup>*\<^sup>* a f"
  by (meson converse_rtranclp_into_rtranclp r_into_rtranclp)

lemma getCodeLauncher_valid: "getCodeLauncher c lang p = (Inr (Some h), p') \<Longrightarrow> codeLauncherTypeIsValid lang p"
  by (auto simp: getCodeLauncher_def split: if_splits)

lemma get_phases:
  assumes get: "getCodeLauncher c lang (sys_pool s) = (Inr (Some h), p)"
  shows "(thread_step c t)\<^sup>*\<^sup>* (called t lang s)
    ((goto t (Running h) p s)\<lparr>served := served s @ [containerId (m_codeLauncher h)]\<rparr>)"
proof -
  note valid = getCodeLauncher_valid[OF get]
  obtain r p1 where ext: "on_store (storage_extract lang) (sys_pool s) = (r, p1)"
    by (cases "on_store (storage_extract lang) (sys_pool s)")
  then obtain l where r: "r = Inr l" using get valid by (cases r) (auto simp: getCodeLauncher_def)
  obtain i d where info: "getInfo c l (engine p1) = (i, d)" by (cases "getInfo c l (engine p1)")
  have h: "h = \<lparr>m_codeLauncher = l, m_restartInfo = i\<rparr>" and p: "p = p1\<lparr>engine := d\<rparr>"
    using get valid ext r info by (auto simp: getCodeLauncher_def sbind_def on_engine_def)
  let ?s1 = "called t lang s"
  let ?s2 = "(goto t (Extracted l) p1 ?s1)\<lparr>served := served ?s1 @ [containerId l]\<rparr>"
  let ?s3 = "goto t (Running h) p ?s2"
  have s2: "thread_step c t ?s1 ?s2"
    by (rule thread_stepI[OF pool_step.take]) (use ext r in simp_all)
  have "thread_step c t ?s2 (goto t (Running \<lparr>m_codeLauncher = l, m_restartInfo = i\<rparr>)
      ((sys_pool ?s2)\<lparr>engine := d\<rparr>) ?s2)"
    by (rule thread_stepI[OF pool_step.info]) (use info in simp_all)
  then have s3: "thread_step c t ?s2 ?s3" by (simp add: h p)
  have "?s3 = (goto t (Running h) p s)\<lparr>served := served s @ [containerId (m_codeLauncher h)]\<rparr>"
    by (simp add: goto_def h)
  with converse_rtranclp_into_rtranclp[of "thread_step c t", OF s2 r_into_rtranclp[of "thread_step c t", OF s3]]
  show ?thesis by (simp only:)
qed

lemma restart_phases:
  assumes rel: "threads s t = Releasing i" and re: "restartCodeLauncher c i (sys_pool s) = (Inr (), p)"
  shows "\<exists>s'. (thread_step c t)\<^sup>*\<^sup>* s s' \<and> sys_pool s' = p \<and> threads s' = (threads s)(t := Idle) \<and> served s' = served s"
proof -
  let ?d1 = "removeCodeLauncher c (info_containerId i) (engine (sys_pool s))"
  let ?s1 = "goto t (Creating i) ((sys_pool s)\<lparr>engine := ?d1\<rparr>) s"
  have step1: "thread_step c t s ?s1" by (rule thread_stepI[OF pool_step.remove[OF rel]]) (simp_all add: rel)
  obtain r d2 where cr: "createCodeLauncher c (info_image i) (info_type i) ?d1 = (r, d2)"
    by (cases "createCodeLauncher c (info_image i) (info_type i) ?d1")
  let ?p2 = "(sys_pool ?s1)\<lparr>engine := d2\<rparr>"
  have re': "(case r of None \<Rightarrow> sret () | Some l \<Rightarrow> on_store (storage_addValue (info_type i) l)) ?p2 = (Inr (), p)"
    using re cr by (simp add: restartCodeLauncher_def sbind_def asyncRemoveCodeLauncher_def
        asyncCreateCodeLauncher_def on_engine_def)
  show ?thesis
  proof (cases r)
    case None
    have p: "p = ?p2" using None re' by simp
    have "thread_step c t ?s1 ((goto t Idle ?p2 ?s1)\<lparr>lost := (lost ?s1)(info_type i := Suc (lost ?s1 (info_type i)))\<rparr>)"
      by (rule thread_stepI[OF pool_step.create_failed]) (use cr None in simp_all)
    from converse_rtranclp_into_rtranclp[of "thread_step c t", OF step1 r_into_rtranclp[of "thread_step c t", OF this]]
    show ?thesis unfolding p by (intro exI conjI, assumption) simp_all
  next
    case (Some l)
    have ty: "launcher_type l = info_type i"
      using cr Some by (auto simp: createCodeLauncher_def Let_def split: prod.splits if_splits)
    let ?s2 = "goto t (Adding l) ?p2 ?s1"
    have s2: "thread_step c t ?s1 ?s2" by (rule thread_stepI[OF pool_step.create]) (use cr Some in simp_all)
    have s3: "thread_step c t ?s2 (goto t Idle p ?s2)"
      by (rule thread_stepI[OF pool_step.add]) (use re' in \<open>simp_all add: Some flip: ty\<close>)
    from three_steps[of "thread_step c t", OF step1 s2 s3] show ?thesis by (intro exI conjI, assumption) simp_all
  qed
qed

lemma serve_phases:
  assumes idle: "threads s t = Idle" and get: "getCodeLauncher c lang (sys_pool s) = (Inr (Some h), p1)"
    and run: "callbacked_runCode c h tar args action p1 = (r, p2)"
    and rep: "p3 = p2 \<or> callbacked_getInfo c h p2 = (i, p3)"
    and dtor: "callbacked_destructor c h p3 = (Inr (), p4)"
  shows "\<exists>s'. (thread_step c t)\<^sup>*\<^sup>* (called t lang s) s' \<and> sys_pool s' = p4 \<and> threads s' = threads s
    \<and> served s' = served s @ [containerId (m_codeLauncher h)]"
proof -
  let ?s1 = "(goto t (Running h) p1 s)\<lparr>served := served s @ [containerId (m_codeLauncher h)]\<rparr>"
  let ?s2 = "goto t (Executed h) p2 ?s1"
  let ?s3 = "goto t (Releasing (m_restartInfo h)) p3 ?s2"
  have s1: "(thread_step c t)\<^sup>*\<^sup>* (called t lang s) ?s1" by (rule get_phases[OF get])
  have s2: "(thread_step c t)\<^sup>*\<^sup>* ?s1 ?s2" by (rule run_phases) (use run in simp_all)
  have "pool_step c ?s2 ?s3"
    using rep
  proof
    assume "p3 = p2"
    then show ?thesis using pool_step.finish[of ?s2 t h c] by simp
  next
    assume "callbacked_getInfo c h p2 = (i, p3)"
    then obtain i' d where "getInfo c (m_codeLauncher h) (engine p2) = (i', d)" and "p3 = p2\<lparr>engine := d\<rparr>"
      by (cases "getInfo c (m_codeLauncher h) (engine p2)") (auto simp: callbacked_getInfo_def on_engine_def)
    then show ?thesis using pool_step.report[of ?s2 t h c i' d] by simp
  qed
  then have s3: "thread_step c t ?s2 ?s3" by (rule thread_stepI) simp_all
  obtain s4 where "(thread_step c t)\<^sup>*\<^sup>* ?s3 s4" "sys_pool s4 = p4" "threads s4 = (threads ?s3)(t := Idle)"
    "served s4 = served ?s3"
    using restart_phases[of ?s3 t "m_restartInfo h" c p4] dtor by (auto simp: callbacked_destructor_def)
  then show ?thesis
    using s1 s2 s3 idle by (intro exI[of _ s4]) (auto intro: rtranclp_trans r_into_rtranclp)
qed

section \<open>A concrete engine\<close>

text \<open>
  An engine whose state is the number of containers it has created; identifier number \<open>n\<close> is a
  string of \<open>n + 1\<close> letters, and creation fails after \<open>limit\<close> containers.
\<close>

definition counting_client :: "nat \<Rightarrow> nat docker_client" where
  "counting_client limit =
     \<lparr>client_listContainers = (\<lambda>_ n. (\<lparr>list_success = True, list_containers = []\<rparr>, n)),
      client_inspectContainer = (\<lambda>_ n. (\<lparr>inspect_success = True, inspect_isRunning = True,
        inspect_image = ''senjun_courses_cpp''\<rparr>, n)),
      client_killContainer = (\<lambda>_ n. (True, n)),
      client_deleteContainer = (\<lambda>_ n. (True, n)),
      client_runContainer = (\<lambda>_ n. if n < limit then ((True, replicate (Suc n) CHR ''c''), Suc n)
        else ((False, []), n)),
      client_putArchive = (\<lambda>_ n. ((True, []), n)),
      client_exec = (\<lambda>_ n. ((True, ''hello'' @ ''user_solution_ok_f936a25e''), n))\<rparr>"

definition counting_issued :: "nat \<Rightarrow> string set" where
  "counting_issued n = (\<lambda>k. replicate (Suc k) CHR ''c'') ` {..<n}"

lemma counting_contract: "docker_contract (counting_client limit) counting_issued"
proof -
  have "replicate (Suc n) CHR ''c'' \<notin> counting_issued n" for n
    by (auto simp: counting_issued_def replicate_eq_replicate simp del: replicate.simps)
  moreover have "counting_issued (Suc n) = insert (replicate (Suc n) CHR ''c'') (counting_issued n)" for n
    by (simp add: counting_issued_def lessThan_Suc)
  ultimately show ?thesis
    by (auto simp: docker_contract_def counting_client_def simp del: replicate.simps split: if_splits)
qed

definition one_container :: Config where
  "one_container = \<lparr>threadPoolSize = 2, maxContainersAmount = 1,
     courses = [(CPP, \<lparr>imageName = ''senjun_courses_cpp'', launched = 1\<rparr>)], playgrounds = [], practices = []\<rparr>"

definition demo :: "nat docker_client" where
  "demo = counting_client 1"

lemma demo_contract: "docker_contract demo counting_issued"
  by (simp add: demo_def counting_contract)

lemmas demo_defs = demo_def counting_client_def getAllContainers_def createCodeLauncher_def
  run_container_def isRunning_def getImage_def killContainer_def removeContainer_def
  removeCodeLauncher_def getInfo_def putArchive_def exec_container_def

lemma demo_provider:
  "provider_init demo one_container 0 =
     \<lparr>engine = 1, store = [CPP \<mapsto> [\<lparr>containerId = ''c'', launcher_type = CPP\<rparr>]]\<rparr>"
  by (simp add: provider_init_def CodeLauncherOSManipulator_init_def
      syncRemoveRunningCodeLanchers_def syncCreateCodeLaunchers_def one_container_def demo_defs)

lemma demo_capacity: "capacity demo one_container 0 lang = of_bool (lang = CPP)"
  by (simp add: capacity_def available_def sys_init_quiet demo_provider idle_list_def)

text \<open>Thread 2 asks for a launcher in the initial pool.\<close>

definition waiting_state :: "nat sys" where
  "waiting_state = goto 2 (Waiting CPP) (provider_init demo one_container 0) (sys_init demo one_container 0)"

lemma waiting_reachable: "reachable demo one_container 0 waiting_state"
proof -
  have "pool_step demo (sys_init demo one_container 0)
      (goto 2 (Waiting CPP) (sys_pool (sys_init demo one_container 0)) (sys_init demo one_container 0))"
    by (rule pool_step.request)
      (simp_all add: sys_init_quiet demo_provider codeLauncherTypeIsValid_def storage_contains_def)
  from reachable.step[OF reachable.start this] show ?thesis
    by (simp add: waiting_state_def sys_init_quiet)
qed

text \<open>
  After one request on that engine, which has no second container to give, the pool has lost its
  only launcher; the next request waits.
\<close>

lemma demo_request:
  "\<exists>s. (thread_step demo t)\<^sup>*\<^sup>* (called t CPP (sys_init demo one_container 0)) s
     \<and> sys_pool s = \<lparr>engine = 1, store = [CPP \<mapsto> []]\<rparr> \<and> threads s = (\<lambda>_. Idle)"
proof -
  let ?s = "sys_init demo one_container 0"
  let ?l = "\<lparr>containerId = ''c'', launcher_type = CPP\<rparr>"
  let ?h = "\<lparr>m_codeLauncher = ?l, m_restartInfo = \<lparr>info_containerId = ''c'',
    info_image = ''senjun_courses_cpp'', info_type = CPP\<rparr>\<rparr>"
  let ?p = "\<lparr>engine = 1, store = [CPP \<mapsto> []]\<rparr> :: nat pool"
  have pool: "sys_pool ?s = \<lparr>engine = 1, store = [CPP \<mapsto> [?l]]\<rparr>" and idle: "threads ?s t = Idle"
    by (simp_all add: sys_init_quiet demo_provider)
  have get: "getCodeLauncher demo CPP (sys_pool ?s) = (Inr (Some ?h), ?p)"
    unfolding pool by (simp add: getCodeLauncher_def codeLauncherTypeIsValid_def storage_contains_def
        sbind_def on_store_def on_engine_def storage_extract_def demo_defs)
  obtain r where run: "callbacked_runCode demo ?h [] [] Practice_api ?p = (r, ?p)"
    by (simp add: callbacked_runCode_def on_engine_def runCode_def sbind_def prepareCode_def
        kDefaultPaths_def demo_defs)
  have dtor: "callbacked_destructor demo ?h ?p = (Inr (), ?p)"
    by (simp add: callbacked_destructor_def restartCodeLauncher_def asyncRemoveCodeLauncher_def
        asyncCreateCodeLauncher_def sbind_def on_engine_def demo_defs)
  have "threads ?s = (\<lambda>_. Idle)" by (simp add: sys_init_def)
  with serve_phases[OF idle get run disjI1[OF refl] dtor] show ?thesis by auto
qed

lemma demo_valid: "codeLauncherTypeIsValid CPP (sys_pool (sys_init demo one_container 0))"
  by (simp add: sys_init_quiet demo_provider codeLauncherTypeIsValid_def storage_contains_def)

lemma demo_lost:
  assumes "reachable demo one_container 0 s" and "sys_pool s = \<lparr>engine = 1, store = [CPP \<mapsto> []]\<rparr>"
    and "threads s = (\<lambda>_. Idle)"
  shows "lost s CPP = 1"
  using reachable_total[OF assms(1) demo_contract, of CPP] assms(2,3)
  by (simp add: demo_capacity available_def in_use_def idle_list_def)

lemma exhausted_reachable:
  "\<exists>s. reachable demo one_container 0 s \<and> threads s 2 = Waiting CPP \<and> threads s 3 = Idle \<and> lost s CPP = 1"
proof -
  let ?s = "sys_init demo one_container 0"
  obtain s1 where s1: "(thread_step demo 2)\<^sup>*\<^sup>* (called 2 CPP ?s) s1"
      "sys_pool s1 = \<lparr>engine = 1, store = [CPP \<mapsto> []]\<rparr>" "threads s1 = (\<lambda>_. Idle)"
    using demo_request by blast
  have r1: "reachable demo one_container 0 s1"
    by (rule reachable_steps[OF called_steps[OF _ demo_valid s1(1)] reachable.start]) (simp add: sys_init_quiet)
  have "pool_step demo s1 (called 2 CPP s1)"
    by (rule pool_step.request) (simp_all add: s1 codeLauncherTypeIsValid_def storage_contains_def)
  from reachable.step[OF r1 this] show ?thesis
    by (intro exI conjI, assumption) (simp_all add: demo_lost[OF r1] s1)
qed

section \<open>Properties\<close>

text \<open>
  C3. No two request threads ever hold the same container, and a container held by a thread is not
  in the storage: in every reachable state of the interleaved system, given an engine that does
  not reissue identifiers.
\<close>

theorem container_exclusive:
  assumes "docker_contract c issued" and "reachable c config d s" and "owned (threads s t) = Some i"
  shows "(owned (threads s t') = Some i \<longrightarrow> t' = t)
    \<and> i \<notin> containerId ` set (idle_list (store (sys_pool s)) lang)"
proof -
  note inj = pool_invD(1)[OF reachable_pool_inv[OF assms(2,1)]]
  have here: "at_place s (Inr t) = Some i" using assms(3) by simp
  have "i \<notin> containerId ` set (idle_list (store (sys_pool s)) lang)"
  proof
    assume "i \<in> containerId ` set (idle_list (store (sys_pool s)) lang)"
    then obtain k where "k < length (idle_list (store (sys_pool s)) lang)"
      "i = containerId (idle_list (store (sys_pool s)) lang ! k)" by (auto simp: in_set_conv_nth)
    then have "at_place s (Inl (lang, k)) = Some i" by simp
    with inj_optD[OF inj here] show False by blast
  qed
  moreover have "owned (threads s t') = Some i \<Longrightarrow> t' = t"
    using inj_optD[OF inj here, of "Inr t'"] by simp
  ultimately show ?thesis by blast
qed

text \<open>Thread 2 holds the only container of the demonstration pool.\<close>

definition holding_state :: "nat sys" where
  "holding_state = (goto 2 (Extracted \<lparr>containerId = ''c'', launcher_type = CPP\<rparr>)
     \<lparr>engine = 1, store = [CPP \<mapsto> []]\<rparr> waiting_state)\<lparr>served := [''c'']\<rparr>"

lemma holding_reachable: "reachable demo one_container 0 holding_state"
proof -
  have "pool_step demo waiting_state ((goto 2 (Extracted \<lparr>containerId = ''c'', launcher_type = CPP\<rparr>)
      \<lparr>engine = 1, store = [CPP \<mapsto> []]\<rparr> waiting_state)\<lparr>served := served waiting_state @
        [containerId \<lparr>containerId = ''c'', launcher_type = CPP\<rparr>]\<rparr>)"
    by (rule pool_step.take[where lang = CPP])
      (simp_all add: waiting_state_def demo_provider on_store_def storage_extract_def fun_eq_iff)
  from reachable.step[OF waiting_reachable this] show ?thesis
    by (simp add: holding_state_def waiting_state_def sys_init_quiet)
qed

theorem container_exclusive_witness:
  "owned (threads holding_state 2) = Some ''c''
   \<and> ''c'' \<notin> containerId ` set (idle_list (store (sys_pool holding_state)) CPP)"
  using container_exclusive[OF demo_contract holding_reachable, of 2 "''c''" 3 CPP]
  by (simp add: holding_state_def)

text \<open>
  C10. A container serves at most one request: over the whole history of the system no container
  identifier is handed out twice, and the containers waiting in the storage have not been used.
\<close>

theorem container_single_use:
  assumes "docker_contract c issued" and "reachable c config d s"
  shows "distinct (served s)
    \<and> (\<forall>lang. containerId ` set (idle_list (store (sys_pool s)) lang) \<inter> set (served s) = {})"
  using pool_invD(2,5)[OF reachable_pool_inv[OF assms(2,1)]] by blast

theorem container_single_use_witness:
  "served holding_state = [''c''] \<and> distinct (served holding_state)
   \<and> containerId ` set (idle_list (store (sys_pool holding_state)) CPP) \<inter> set (served holding_state) = {}"
  using container_single_use[OF demo_contract holding_reachable] by (simp add: holding_state_def)

text \<open>
  C7. Launchers are conserved: in every reachable state the launchers of a language that are in the
  storage, those held or being replaced by a request thread, and those whose replacement could not
  be created add up to the number the service started with.
\<close>

theorem launchers_conserved:
  assumes "docker_contract c issued" and "reachable c config d s"
  shows "length (idle_list (store (sys_pool s)) lang) + card {t. busy (threads s t) = Some lang} + lost s lang
    = length (idle_list (store (provider_init c config d)) lang)"
  using reachable_total[OF assms(2,1), of lang]
  by (simp add: capacity_def available_def in_use_def sys_init_quiet)

theorem launchers_conserved_witness:
  "length (idle_list (store (sys_pool holding_state)) CPP) = 0 \<and> lost holding_state CPP = 0
   \<and> card {t. busy (threads holding_state t) = Some CPP} = 1"
  using launchers_conserved[OF demo_contract holding_reachable, of CPP]
  by (simp add: holding_state_def waiting_state_def sys_init_quiet idle_list_def demo_provider)

text \<open>
  C8. No deadlock: while not all launchers of a language are lost, a thread waiting for one can take
  it, or some thread that uses one has a next step towards giving it back (each request has at most
  seven of them after the extraction), which leaves every other thread where it is.
\<close>

theorem waiting_progress:
  assumes "docker_contract c issued" and "reachable c config d s"
    and "threads s t = Waiting lang"
    and "lost s lang < length (idle_list (store (provider_init c config d)) lang)"
  shows "(\<exists>s' l. pool_step c s s' \<and> threads s' t = Extracted l)
    \<or> (\<exists>t' s'. busy (threads s t') = Some lang \<and> pool_step c s s'
        \<and> steps_left (threads s' t') < steps_left (threads s t')
        \<and> (\<forall>u. u \<noteq> t' \<longrightarrow> threads s' u = threads s u))"
proof (cases "available s lang > 0")
  case True
  with take_step[OF assms(3)] show ?thesis by fastforce
next
  case False
  then have "in_use s lang > 0"
    using reachable_total[OF assms(2,1), of lang] assms(4) by (simp add: capacity_def available_def sys_init_quiet)
  then obtain t' where t': "busy (threads s t') = Some lang"
    by (auto simp: in_use_def card_gt_0_iff)
  have "keys_inv s" using reachable_keys[OF assms(2,1)] by blast
  with busy_step[OF t'] t' show ?thesis by blast
qed

theorem waiting_progress_witness:
  "\<exists>s' l. pool_step demo waiting_state s' \<and> threads s' 2 = Extracted l"
  using waiting_progress[OF demo_contract waiting_reachable, of 2 CPP]
  by (auto simp: waiting_state_def sys_init_quiet demo_provider idle_list_def split: if_splits)

text \<open>
  A language whose launchers are all lost (the re-creation of a container failed as many times
  as there were containers) blocks its clients for good: the language still counts as valid, so a
  request is accepted, and a thread that waits is still waiting in every later state.
\<close>

theorem exhausted_language_blocks:
  assumes "docker_contract c issued" and "reachable c config d s"
    and "threads s t = Waiting lang"
    and "lost s lang = length (idle_list (store (provider_init c config d)) lang)"
    and "(pool_step c)\<^sup>*\<^sup>* s s'"
  shows "threads s' t = Waiting lang \<and> codeLauncherTypeIsValid lang (sys_pool s')"
proof -
  have "threads s' t = Waiting lang"
    using exhausted_steps[OF assms(5,2,1,3)] assms(4) by (simp add: capacity_def available_def sys_init_quiet)
  moreover have "keys_inv s'"
    using reachable_keys[OF reachable_steps[OF assms(5,2)] assms(1)] by blast
  ultimately show ?thesis
    using keys_invD[of s' t lang] by (auto simp: codeLauncherTypeIsValid_def storage_contains_def)
qed

theorem exhausted_language_blocks_witness:
  "\<exists>s. reachable demo one_container 0 s \<and> pool_step demo s (goto 3 (Waiting CPP) (sys_pool s) s)
     \<and> threads (goto 3 (Waiting CPP) (sys_pool s) s) 2 = Waiting CPP \<and> codeLauncherTypeIsValid CPP (sys_pool s)"
proof -
  obtain s where r: "reachable demo one_container 0 s" and w: "threads s 2 = Waiting CPP"
    and i: "threads s 3 = Idle" and l: "lost s CPP = 1"
    using exhausted_reachable by blast
  have len: "lost s CPP = length (idle_list (store (provider_init demo one_container 0)) CPP)"
    using l by (simp add: demo_provider idle_list_def)
  note blocks = exhausted_language_blocks[OF demo_contract r w len]
  have v: "codeLauncherTypeIsValid CPP (sys_pool s)" using blocks by blast
  from pool_step.request[OF i v] show ?thesis using r v blocks[OF r_into_rtranclp] by blast
qed

end
