(* ===== verification/Pool_Startup.thy ===== *)
theory Pool_Startup
  imports Pool_Progress
begin

text \<open>
  What the constructor of the manipulator (\<open>container_manipulator.cpp\<close>) leaves behind: old containers of
  the service are removed, and the pool holds the configured number of launchers per language.
\<close>

section \<open>Creating the configured containers\<close>

text \<open>An engine with room for every container the configuration asks for.\<close>

definition always_creates :: "'d docker_client \<Rightarrow> bool" where
  "always_creates c \<longleftrightarrow> (\<forall>params d. \<exists>i d'. i \<noteq> [] \<and> client_runContainer c params d = ((True, i), d'))"

definition configured :: "ConfigContainerStorage \<Rightarrow> Language \<Rightarrow> nat" where
  "configured table lang = sum_list (map (\<lambda>(l, info). if l = lang then unat (launched info) else 0) table)"

lemma configured_simps [simp]:
  "configured [] lang = 0"
  "configured ((l, info) # table) lang = (if l = lang then unat (launched info) else 0) + configured table lang"
  by (simp_all add: configured_def)

lemma createCodeLauncher_creates:
  assumes "always_creates c"
  shows "\<exists>l d'. createCodeLauncher c img lang d = (Some l, d') \<and> launcher_type l = lang"
proof -
  obtain i d' where "i \<noteq> []" and "client_runContainer c \<lparr>run_image = img, run_tty = True, run_memory = 300000000000\<rparr> d
      = ((True, i), d')"
    using assms unfolding always_creates_def by blast
  then show ?thesis by (simp add: createCodeLauncher_def run_container_def)
qed

lemma launch_loop_length:
  assumes "always_creates c"
  shows "length (fst (launch_loop c img lang n ls d)) = length ls + n"
proof (induction n arbitrary: ls d)
  case (Suc n)
  obtain l d' where "createCodeLauncher c img lang d = (Some l, d')"
    using createCodeLauncher_creates[OF assms] by blast
  with Suc show ?case by simp
qed simp

lemma launchContainers_length:
  assumes "always_creates c"
  shows "length (idle_list (store (launchContainers c table p)) lang) = length (idle_list (store p) lang) + configured table lang"
proof (induction table arbitrary: p)
  case (Cons row table)
  obtain l info where row: "row = (l, info)" by (cases row)
  obtain ls d where run: "launch_loop c (imageName info) l (unat (launched info)) [] (engine p) = (ls, d)"
    by (cases "launch_loop c (imageName info) l (unat (launched info)) [] (engine p)")
  have len: "length ls = unat (launched info)"
    using launch_loop_length[OF assms, of "imageName info" l "unat (launched info)" "[]" "engine p"] run by simp
  show ?case
    using Cons.IH[of p] Cons.IH[of "p\<lparr>engine := d\<rparr>"] Cons.IH[of "p\<lparr>engine := d, store := storage_addValues l ls (store p)\<rparr>"] len
    by (cases "ls = []") (simp_all add: row run idle_list_addValues)
qed simp

section \<open>Removing the containers of an earlier run\<close>

text \<open>
  Documented behaviour of an engine that answers: \<open>present\<close> gives for the identifier of each container its image and
  whether it runs. Listing and inspecting report that and change nothing, a killed container stops running, and a
  container is deleted unless it is running.
\<close>

definition engine_contract :: "'d docker_client \<Rightarrow> ('d \<Rightarrow> string \<rightharpoonup> string \<times> bool) \<Rightarrow> bool" where
  "engine_contract c present \<longleftrightarrow>
     (\<forall>d. present d [] = None) \<and>
     (\<forall>d answer d'. client_listContainers c True d = (answer, d') \<longrightarrow> present d' = present d \<and>
        (list_success answer \<longrightarrow> (\<forall>r. r \<in> set (list_containers answer) \<longleftrightarrow>
           (\<exists>b. present d (container_id r) = Some (container_image r, b))))) \<and>
     (\<forall>i d answer d'. client_inspectContainer c i d = (answer, d') \<longrightarrow> present d' = present d \<and>
        (inspect_success answer \<longleftrightarrow> present d i \<noteq> None) \<and>
        (\<forall>img b. present d i = Some (img, b) \<longrightarrow> inspect_isRunning answer = b)) \<and>
     (\<forall>i d. present (snd (client_killContainer c i d)) =
        (case present d i of Some (img, b) \<Rightarrow> (present d)(i \<mapsto> (img, False)) | None \<Rightarrow> present d)) \<and>
     (\<forall>i d. present (snd (client_deleteContainer c i d)) =
        (case present d i of Some (img, False) \<Rightarrow> (present d)(i := None) | _ \<Rightarrow> present d))"

lemma present_isRunning:
  assumes "engine_contract c present" and "isRunning c i d = (b, d')"
  shows "present d' = present d \<and> (b \<longleftrightarrow> (\<exists>img. present d i = Some (img, True)))"
proof -
  obtain answer where "client_inspectContainer c i d = (answer, d')"
    and b: "b \<longleftrightarrow> inspect_success answer \<and> inspect_isRunning answer"
    using assms(2) by (auto simp: isRunning_def split: prod.splits if_splits)
  then have "present d' = present d \<and> (inspect_success answer \<longleftrightarrow> present d i \<noteq> None)
      \<and> (\<forall>img b. present d i = Some (img, b) \<longrightarrow> inspect_isRunning answer = b)"
    using assms(1) unfolding engine_contract_def by blast
  with b show ?thesis by (cases "present d i") auto
qed

lemma present_kill_remove:
  assumes "engine_contract c present" and "i \<noteq> []"
  shows "present (snd (killContainer c i d)) =
      (case present d i of Some (img, b) \<Rightarrow> (present d)(i \<mapsto> (img, False)) | None \<Rightarrow> present d)"
    and "present (snd (removeContainer c i d)) =
      (case present d i of Some (img, False) \<Rightarrow> (present d)(i := None) | _ \<Rightarrow> present d)"
  using assms by (simp_all add: engine_contract_def killContainer_def removeContainer_def case_prod_beta Let_def)

lemma present_removeCodeLauncher:
  assumes "engine_contract c present" and "i \<noteq> []"
  shows "present (removeCodeLauncher c i d) = (present d)(i := None)"
proof -
  obtain b d1 where run: "isRunning c i d = (b, d1)" by (cases "isRunning c i d")
  note facts = present_isRunning[OF assms(1) run] present_kill_remove[OF assms]
  show ?thesis
  proof (cases "present d i")
    case None
    with facts show ?thesis by (auto simp: removeCodeLauncher_def run fun_upd_idem)
  next
    case (Some x)
    with facts show ?thesis by (cases x; cases "snd x") (simp_all add: removeCodeLauncher_def run)
  qed
qed

lemma present_killContainers:
  assumes "engine_contract c present" and "\<And>r. r \<in> set cs \<Longrightarrow> fits (container_image r) \<and> container_id r \<noteq> []"
  shows "present (killContainers c pattern cs d) i =
    (if \<exists>r \<in> set cs. container_id r = i \<and> sublist pattern (container_image r) then None else present d i)"
  using assms(2)
proof (induction cs arbitrary: d)
  case (Cons r cs)
  then have "str_find (container_image r) pattern \<noteq> npos \<longleftrightarrow> sublist pattern (container_image r)"
    using contains_str_iff[of "container_image r" pattern] by (simp add: contains_str_def occurs_iff)
  with Cons present_removeCodeLauncher[OF assms(1), of "container_id r"] show ?case by auto
qed simp

lemma provider_length:
  assumes "always_creates c"
  shows "length (idle_list (store (provider_init c config d)) lang)
    = configured (courses config) lang + configured (playgrounds config) lang + configured (practices config) lang"
  using launchContainers_length[OF assms]
  by (simp add: provider_init_def CodeLauncherOSManipulator_init_def syncCreateCodeLaunchers_def idle_list_def)

lemma provider_max_amount: "provider_init c (config\<lparr>maxContainersAmount := n\<rparr>) d = provider_init c config d"
  by (simp add: provider_init_def CodeLauncherOSManipulator_init_def syncCreateCodeLaunchers_def)

section \<open>Properties\<close>

text \<open>
  The initial pool has exactly the configured launchers: when the engine creates every container, the
  list of a language holds as many launchers as the three tables of the configuration ask for together. The field
  \<open>maxContainersAmount\<close> limits nothing: with any other value the constructor does the same.
\<close>

theorem initial_pool_size:
  assumes "always_creates c"
  shows "length (idle_list (store (provider_init c config d)) lang)
      = configured (courses config) lang + configured (playgrounds config) lang + configured (practices config) lang
    \<and> provider_init c (config\<lparr>maxContainersAmount := n\<rparr>) d = provider_init c config d"
  by (intro conjI provider_length[OF assms] provider_max_amount)

text \<open>The engine of the examples without a limit.\<close>

definition unlimited :: "nat docker_client" where
  "unlimited = (counting_client 0)\<lparr>client_runContainer := (\<lambda>_ n. ((True, replicate (Suc n) CHR ''c''), Suc n))\<rparr>"

definition python_rows :: "32 word \<Rightarrow> ConfigContainerStorage" where
  "python_rows n = [(PYTHON, \<lparr>imageName = ''senjun_python'', launched = n\<rparr>)]"

theorem initial_pool_size_witness:
  "length (idle_list (store (provider_init unlimited \<lparr>threadPoolSize = 12, maxContainersAmount = 5,
     courses = python_rows 6, playgrounds = python_rows 3, practices = python_rows 3\<rparr> 0)) PYTHON) = 12"
proof -
  have "always_creates unlimited" by (simp add: always_creates_def unlimited_def)
  from initial_pool_size[OF this] show ?thesis by (simp add: python_rows_def)
qed

text \<open>
  C29. What is left of an earlier run at start: on an engine that behaves as documented and lists its containers, the
  containers whose image name contains \<open>senjun\<close> are gone afterwards, those that were running included, and every other
  container is there as before, running or not. If the listing fails nothing changes.
\<close>

theorem startup_removes_senjun:
  assumes "engine_contract c present" and "client_listContainers c True d = (answer, d1)"
    and "list_all (\<lambda>r. fits (container_image r)) (list_containers answer)"
  shows "present (syncRemoveRunningCodeLanchers c d) i =
    (case present d i of
       None \<Rightarrow> None
     | Some (img, b) \<Rightarrow> if list_success answer \<and> sublist ''senjun'' img then None else Some (img, b))"
proof -
  have same: "present d1 = present d" and empty: "present d [] = None" using assms(1,2) unfolding engine_contract_def by blast+
  show ?thesis
  proof (cases "list_success answer")
    case False
    with same assms(2) show ?thesis
      by (auto simp: syncRemoveRunningCodeLanchers_def getAllContainers_def split: option.splits)
  next
    case True
    then have listed: "r \<in> set (list_containers answer) \<longleftrightarrow> (\<exists>b. present d (container_id r) = Some (container_image r, b))" for r
      using assms(1,2) unfolding engine_contract_def by blast
    have "getAllContainers c d = (list_containers answer, d1)"
      using assms(2) True by (auto simp: getAllContainers_def intro!: map_idI)
    moreover have "fits (container_image r) \<and> container_id r \<noteq> []" if "r \<in> set (list_containers answer)" for r
      using that assms(3) listed[of r] empty by (auto simp: list_all_iff)
    ultimately have "present (syncRemoveRunningCodeLanchers c d) i =
        (if \<exists>r \<in> set (list_containers answer). container_id r = i \<and> sublist ''senjun'' (container_image r)
         then None else present d1 i)"
      using present_killContainers[OF assms(1), of "list_containers answer" kSenjunPattern d1 i]
      by (simp add: syncRemoveRunningCodeLanchers_def kSenjunPattern_def)
    also have "(\<exists>r \<in> set (list_containers answer). container_id r = i \<and> sublist ''senjun'' (container_image r))
        \<longleftrightarrow> (\<exists>img b. present d i = Some (img, b) \<and> sublist ''senjun'' img)"
      unfolding Bex_def listed by (metis Container.select_convs(1,2))
    finally show ?thesis using True same by (auto split: option.splits)
  qed
qed

text \<open>An engine whose state is the list of its containers, with image and whether they run.\<close>

definition listed_present :: "(string \<times> string \<times> bool) list \<Rightarrow> string \<rightharpoonup> string \<times> bool" where
  "listed_present d i = (if i = [] then None else map_of d i)"

definition listing_client :: "(string \<times> string \<times> bool) list docker_client" where
  "listing_client =
     \<lparr>client_listContainers = (\<lambda>_ d. (\<lparr>list_success = True,
        list_containers = map (\<lambda>(i, img, _). \<lparr>container_id = i, container_image = img\<rparr>)
          (filter (\<lambda>(i, x). listed_present d i = Some x) d)\<rparr>, d)),
      client_inspectContainer = (\<lambda>i d. (case listed_present d i of
         None \<Rightarrow> \<lparr>inspect_success = False, inspect_isRunning = False, inspect_image = []\<rparr>
       | Some (img, b) \<Rightarrow> \<lparr>inspect_success = True, inspect_isRunning = b, inspect_image = img\<rparr>, d)),
      client_killContainer = (\<lambda>i d. (True, case listed_present d i of None \<Rightarrow> d | Some (img, b) \<Rightarrow> (i, img, False) # d)),
      client_deleteContainer = (\<lambda>i d. (True, case listed_present d i of
         Some (img, False) \<Rightarrow> filter (\<lambda>(j, x). j \<noteq> i) d | _ \<Rightarrow> d)),
      client_runContainer = (\<lambda>_ d. ((False, []), d)),
      client_putArchive = (\<lambda>_ d. ((False, []), d)),
      client_exec = (\<lambda>_ d. ((False, []), d))\<rparr>"

lemma listing_contract: "engine_contract listing_client listed_present"
proof -
  have "r \<in> set (map (\<lambda>(i, img, _). \<lparr>container_id = i, container_image = img\<rparr>)
      (filter (\<lambda>(i, x). listed_present d i = Some x) d))
    \<longleftrightarrow> (\<exists>b. listed_present d (container_id r) = Some (container_image r, b))" for r d
    by (cases r) (force simp: listed_present_def image_iff dest: map_of_SomeD split: if_splits)
  moreover have "map_of (filter (\<lambda>(j, x). j \<noteq> i) d) = (map_of d)(i := None)" for i :: string and d :: "(string \<times> string \<times> bool) list"
    by (induction d) auto
  ultimately show ?thesis
    unfolding engine_contract_def listing_client_def
    by (auto simp: listed_present_def fun_eq_iff split: option.splits bool.splits)
qed

theorem startup_removes_senjun_witness:
  "listed_present (syncRemoveRunningCodeLanchers listing_client
      [(''1'', ''senjun_cpp'', True), (''2'', ''postgres'', True)]) ''1'' = None
   \<and> listed_present (syncRemoveRunningCodeLanchers listing_client
      [(''1'', ''senjun_cpp'', True), (''2'', ''postgres'', True)]) ''2'' = Some (''postgres'', True)"
proof -
  let ?d = "[(''1'', ''senjun_cpp'', True), (''2'', ''postgres'', True)]"
  have sub: "sublist ''senjun'' ''senjun_cpp''" "\<not> sublist ''senjun'' ''postgres''" by code_simp+
  have "client_listContainers listing_client True ?d = (\<lparr>list_success = True, list_containers =
      [\<lparr>container_id = ''1'', container_image = ''senjun_cpp''\<rparr>, \<lparr>container_id = ''2'', container_image = ''postgres''\<rparr>]\<rparr>, ?d)"
    by (simp add: listing_client_def listed_present_def)
  note gone = startup_removes_senjun[OF listing_contract this]
  show ?thesis using gone[of "''1''"] gone[of "''2''"] sub by (simp add: fits_def listed_present_def[of ?d])
qed

end
