(* ===== verification/Json_Reader.thy ===== *)
theory Json_Reader
  imports Watchman_Prelude
begin

text \<open>
  The recursive parser of \<open>third_party/rapidjson/include/rapidjson/reader.h\<close> with the flags the
  service uses (\<open>kParseNoFlags\<close>: no comments, no trailing commas, no encoding validation, numbers
  not as strings) and the value it builds. The stream is the input that is left; at its end \<open>Peek\<close>
  returns NUL. An error carries the input left at the offset it reports. Doubles are kept as
  their text; whether converting one overflows is decided by IEEE arithmetic and is the parameter
  \<open>too_big\<close>. Lengths of strings and arrays below \<open>2^32\<close> and a stack deep enough for the nesting are
  assumed, as in the code.
\<close>

unbundle bit_operations_syntax

section \<open>Values and errors\<close>

datatype json =
    JNull
  | JBool bool
  | JInt int
  | JDouble string
  | JString string
  | JArray "json list"
  | JObject "(string \<times> json) list"

datatype ParseErrorCode =
    kParseErrorDocumentEmpty
  | kParseErrorDocumentRootNotSingular
  | kParseErrorValueInvalid
  | kParseErrorObjectMissName
  | kParseErrorObjectMissColon
  | kParseErrorObjectMissCommaOrCurlyBracket
  | kParseErrorArrayMissCommaOrSquareBracket
  | kParseErrorStringUnicodeEscapeInvalidHex
  | kParseErrorStringUnicodeSurrogateInvalid
  | kParseErrorStringEscapeInvalid
  | kParseErrorStringMissQuotationMark
  | kParseErrorStringInvalidEncoding
  | kParseErrorNumberTooBig
  | kParseErrorNumberMissFraction
  | kParseErrorNumberMissExponent

type_synonym 'a pres = "(ParseErrorCode \<times> string) + 'a \<times> string"

section \<open>The stream\<close>

definition Peek :: "string \<Rightarrow> char" where
  "Peek is = (case is of [] \<Rightarrow> CHR 0x00 | c # _ \<Rightarrow> c)"

definition Consume :: "string \<Rightarrow> char \<Rightarrow> string option" where
  "Consume is expect = (case is of [] \<Rightarrow> None | c # r \<Rightarrow> if c = expect then Some r else None)"

fun consume_all :: "string \<Rightarrow> string \<Rightarrow> string + string" where
  "consume_all is [] = Inr is"
| "consume_all is (c # cs) = (case Consume is c of None \<Rightarrow> Inl is | Some r \<Rightarrow> consume_all r cs)"

lemma Consume_Some: "Consume is c = Some r \<longleftrightarrow> is = c # r"
  by (cases "is") (auto simp: Consume_def)

lemma Peek_Cons [simp]: "Peek (c # is) = c"
  by (simp add: Peek_def)

lemma Peek_Nil [simp]: "Peek [] = CHR 0x00"
  by (simp add: Peek_def)

lemma Peek_tl: "Peek is = c \<Longrightarrow> c \<noteq> CHR 0x00 \<Longrightarrow> is = c # tl is"
  by (cases "is") auto

definition is_space :: "char \<Rightarrow> bool" where
  "is_space c \<longleftrightarrow> c = CHR '' '' \<or> c = CHR 0x0A \<or> c = CHR 0x0D \<or> c = CHR 0x09"

definition SkipWhitespace :: "string \<Rightarrow> string" where
  "SkipWhitespace is = dropWhile is_space is"

section \<open>Strings\<close>

definition hex_value :: "char \<Rightarrow> nat option" where
  "hex_value c =
     (let n = of_char c in
      if 48 \<le> n \<and> n \<le> 57 then Some (n - 48)
      else if 65 \<le> n \<and> n \<le> 70 then Some (n - 55)
      else if 97 \<le> n \<and> n \<le> 102 then Some (n - 87) else None)"

fun hex_digits :: "nat \<Rightarrow> nat \<Rightarrow> string \<Rightarrow> string \<Rightarrow> nat pres" where
  "hex_digits 0 codepoint esc is = Inr (codepoint, is)"
| "hex_digits (Suc i) codepoint esc is =
     (case hex_value (Peek is) of
        None \<Rightarrow> Inl (kParseErrorStringUnicodeEscapeInvalidHex, esc)
      | Some v \<Rightarrow> hex_digits i (16 * codepoint + v) esc (tl is))"

definition ParseHex4 :: "string \<Rightarrow> string \<Rightarrow> nat pres" where
  "ParseHex4 esc is = hex_digits 4 0 esc is"

text \<open>\<open>UTF8<>::Encode\<close> in \<open>encodings.h\<close>; \<open>codepoint \<le> 0x10FFFF\<close> holds for every caller.\<close>

definition Encode :: "nat \<Rightarrow> string" where
  "Encode codepoint =
     (if codepoint \<le> 0x7F then [char_of (codepoint AND 0xFF)]
      else if codepoint \<le> 0x7FF then
        [char_of (0xC0 OR (drop_bit 6 codepoint AND 0xFF)), char_of (0x80 OR (codepoint AND 0x3F))]
      else if codepoint \<le> 0xFFFF then
        [char_of (0xE0 OR (drop_bit 12 codepoint AND 0xFF)),
         char_of (0x80 OR (drop_bit 6 codepoint AND 0x3F)), char_of (0x80 OR (codepoint AND 0x3F))]
      else
        [char_of (0xF0 OR (drop_bit 18 codepoint AND 0xFF)),
         char_of (0x80 OR (drop_bit 12 codepoint AND 0x3F)),
         char_of (0x80 OR (drop_bit 6 codepoint AND 0x3F)), char_of (0x80 OR (codepoint AND 0x3F))])"

text \<open>The table \<open>escape\<close> of the reader.\<close>

definition reader_escape :: "char \<Rightarrow> char option" where
  "reader_escape e =
     (if e = CHR 0x22 then Some (CHR 0x22)
      else if e = CHR ''/'' then Some (CHR ''/'')
      else if e = CHR 0x5C then Some (CHR 0x5C)
      else if e = CHR ''b'' then Some (CHR 0x08)
      else if e = CHR ''f'' then Some (CHR 0x0C)
      else if e = CHR ''n'' then Some (CHR 0x0A)
      else if e = CHR ''r'' then Some (CHR 0x0D)
      else if e = CHR ''t'' then Some (CHR 0x09) else None)"

text \<open>
  The body of the escape branch: \<open>esc\<close> is the input at the backslash, \<open>is\<close> the input after it; the
  result is what is put on the output.
\<close>

definition parse_escape :: "string \<Rightarrow> string \<Rightarrow> string pres" where
  "parse_escape esc is =
     (case reader_escape (Peek is) of
        Some e \<Rightarrow> Inr ([e], tl is)
      | None \<Rightarrow>
          if Peek is = CHR ''u'' then
            (case ParseHex4 esc (tl is) of
               Inl err \<Rightarrow> Inl err
             | Inr (codepoint, is1) \<Rightarrow>
                 if 0xD800 \<le> codepoint \<and> codepoint \<le> 0xDFFF then
                   if codepoint \<le> 0xDBFF then
                     (case consume_all is1 [CHR 0x5C, CHR ''u''] of
                        Inl _ \<Rightarrow> Inl (kParseErrorStringUnicodeSurrogateInvalid, esc)
                      | Inr is2 \<Rightarrow>
                          (case ParseHex4 esc is2 of
                             Inl err \<Rightarrow> Inl err
                           | Inr (codepoint2, is3) \<Rightarrow>
                               if codepoint2 < 0xDC00 \<or> codepoint2 > 0xDFFF
                               then Inl (kParseErrorStringUnicodeSurrogateInvalid, esc)
                               else Inr (Encode ((push_bit 10 (codepoint - 0xD800) OR (codepoint2 - 0xDC00))
                                      + 0x10000), is3)))
                   else Inl (kParseErrorStringUnicodeSurrogateInvalid, esc)
                 else Inr (Encode codepoint, is1))
          else Inl (kParseErrorStringEscapeInvalid, esc))"

lemma hex_digits_length: "hex_digits n v esc is = Inr (w, r) \<Longrightarrow> length r \<le> length is"
proof (induction n arbitrary: v "is")
  case (Suc n)
  then show ?case by (auto split: option.splits) fastforce
qed simp

lemma consume_all_length: "consume_all is cs = Inr r \<Longrightarrow> length r \<le> length is"
proof (induction cs arbitrary: "is")
  case (Cons c cs)
  then show ?case by (fastforce simp: Consume_def split: option.splits list.splits if_splits)
qed simp

lemma parse_escape_length: "parse_escape esc is = Inr (w, r) \<Longrightarrow> length r \<le> length is"
  unfolding parse_escape_def ParseHex4_def
  by (fastforce split: option.splits sum.splits if_splits prod.splits
      dest: hex_digits_length consume_all_length simp del: consume_all.simps)

function ParseStringToStream :: "string \<Rightarrow> string \<Rightarrow> string pres" where
  "ParseStringToStream os [] = Inl (kParseErrorStringMissQuotationMark, [])"
| "ParseStringToStream os (c # is) =
     (if c = CHR 0x5C then
        (case parse_escape (c # is) is of
           Inl err \<Rightarrow> Inl err
         | Inr (w, is') \<Rightarrow> ParseStringToStream (os @ w) is')
      else if c = CHR 0x22 then Inr (os, is)
      else if of_char c < (0x20 :: nat) then
        (if c = CHR 0x00 then Inl (kParseErrorStringMissQuotationMark, c # is)
         else Inl (kParseErrorStringInvalidEncoding, c # is))
      else ParseStringToStream (os @ [c]) is)"
  by pat_completeness auto
termination
  by (relation "measure (\<lambda>(os, is). length is)") (auto dest: parse_escape_length)

definition ParseString :: "string \<Rightarrow> string pres" where
  "ParseString is = ParseStringToStream [] (tl is)"

section \<open>Numbers\<close>

definition is_digit :: "char \<Rightarrow> bool" where
  "is_digit c \<longleftrightarrow> (48 :: nat) \<le> of_char c \<and> of_char c \<le> (57 :: nat)"

definition digit :: "char \<Rightarrow> nat" where
  "digit c = of_char c - 48"

text \<open>
  The two loops that read the integer part: in 32 bits, and from where that would overflow in 64
  bits. The flag says that the loop stopped because the next digit does not fit.
\<close>

fun int_loop :: "bool \<Rightarrow> 32 word \<Rightarrow> string \<Rightarrow> 32 word \<times> bool \<times> string" where
  "int_loop neg i [] = (i, False, [])"
| "int_loop neg i (c # is) =
     (if \<not> is_digit c then (i, False, c # is)
      else if neg \<and> i \<ge> 214748364 \<and> (i \<noteq> 214748364 \<or> digit c > 8) then (i, True, c # is)
      else if \<not> neg \<and> i \<ge> 429496729 \<and> (i \<noteq> 429496729 \<or> digit c > 5) then (i, True, c # is)
      else int_loop neg (i * 10 + word_of_nat (digit c)) is)"

fun int64_loop :: "bool \<Rightarrow> 64 word \<Rightarrow> string \<Rightarrow> 64 word \<times> bool \<times> string" where
  "int64_loop neg i [] = (i, False, [])"
| "int64_loop neg i (c # is) =
     (if \<not> is_digit c then (i, False, c # is)
      else if neg \<and> i \<ge> 0x0CCCCCCCCCCCCCCC \<and> (i \<noteq> 0x0CCCCCCCCCCCCCCC \<or> digit c > 8)
      then (i, True, c # is)
      else if \<not> neg \<and> i \<ge> 0x1999999999999999 \<and> (i \<noteq> 0x1999999999999999 \<or> digit c > 5)
      then (i, True, c # is)
      else int64_loop neg (i * 10 + word_of_nat (digit c)) is)"

text \<open>The integer a handler call receives: \<open>Int\<close>, \<open>Uint\<close>, \<open>Int64\<close> or \<open>Uint64\<close>.\<close>

definition int_event :: "bool \<Rightarrow> bool \<Rightarrow> 32 word \<Rightarrow> 64 word \<Rightarrow> int" where
  "int_event neg use64bit i i64 =
     (if use64bit then (if neg then sint (NOT i64 + 1) else uint i64)
      else (if neg then sint (NOT i + 1) else uint i))"

definition parse_int :: "bool \<Rightarrow> string \<Rightarrow> (bool \<times> int) pres" where
  "parse_int neg is =
     (if Peek is = CHR ''0'' then Inr ((False, int_event neg False 0 0), tl is)
      else if is_digit (Peek is) then
        (let (i, use64bit, is1) = int_loop neg (word_of_nat (digit (Peek is))) (tl is) in
         if \<not> use64bit then Inr ((False, int_event neg False i 0), is1)
         else (let (i64, useDouble, is2) = int64_loop neg (ucast i) is1 in
               if useDouble then Inr ((True, 0), dropWhile is_digit is2)
               else Inr ((False, int_event neg True i i64), is2)))
      else Inl (kParseErrorValueInvalid, is))"

definition parse_frac :: "string \<Rightarrow> bool pres" where
  "parse_frac is =
     (case Consume is (CHR ''.'') of
        None \<Rightarrow> Inr (False, is)
      | Some is1 \<Rightarrow>
          if \<not> is_digit (Peek is1) then Inl (kParseErrorNumberMissFraction, is1)
          else Inr (True, dropWhile is_digit is1))"

definition parse_exp :: "string \<Rightarrow> bool pres" where
  "parse_exp is =
     (if Peek is = CHR ''e'' \<or> Peek is = CHR ''E'' then
        (let is1 = tl is;
             is2 = (if Peek is1 = CHR ''+'' \<or> Peek is1 = CHR ''-'' then tl is1 else is1) in
         if \<not> is_digit (Peek is2) then Inl (kParseErrorNumberMissExponent, is2)
         else Inr (True, dropWhile is_digit is2))
      else Inr (False, is))"

definition ParseNumber :: "(string \<Rightarrow> bool) \<Rightarrow> string \<Rightarrow> json pres" where
  "ParseNumber too_big s =
     (let neg = (Peek s = CHR ''-''); is0 = (if neg then tl s else s) in
      case parse_int neg is0 of
        Inl err \<Rightarrow> Inl err
      | Inr ((big, n), is1) \<Rightarrow>
          (case parse_frac is1 of
             Inl err \<Rightarrow> Inl err
           | Inr (frac, is2) \<Rightarrow>
               (case parse_exp is2 of
                  Inl err \<Rightarrow> Inl err
                | Inr (expo, is3) \<Rightarrow>
                    (let token = take (length s - length is3) s in
                     if big \<or> frac \<or> expo then
                       (if too_big token then Inl (kParseErrorNumberTooBig, s)
                        else Inr (JDouble token, is3))
                     else Inr (JInt n, is3)))))"

section \<open>Values\<close>

definition parse_word :: "json \<Rightarrow> string \<Rightarrow> string \<Rightarrow> json pres" where
  "parse_word v cs is =
     (case consume_all (tl is) cs of
        Inl r \<Rightarrow> Inl (kParseErrorValueInvalid, r)
      | Inr r \<Rightarrow> Inr (v, r))"

text \<open>
  The recursion of \<open>ParseValue\<close>, \<open>ParseObject\<close> and \<open>ParseArray\<close>. Each call but the first has
  consumed at least one character, except that \<open>ParseElements\<close> starts with a \<open>ParseValue\<close> on the same
  input; so twice the length of the input, plus one, is fuel enough (\<open>parse_enough\<close>); \<open>None\<close> is fuel that ran out.
\<close>

fun ParseValue :: "(string \<Rightarrow> bool) \<Rightarrow> nat \<Rightarrow> string \<Rightarrow> json pres option"
  and ParseMembers :: "(string \<Rightarrow> bool) \<Rightarrow> nat \<Rightarrow> (string \<times> json) list \<Rightarrow> string \<Rightarrow> json pres option"
  and ParseElements :: "(string \<Rightarrow> bool) \<Rightarrow> nat \<Rightarrow> json list \<Rightarrow> string \<Rightarrow> json pres option" where
  "ParseValue too_big 0 is = None"
| "ParseValue too_big (Suc n) is =
     (if Peek is = CHR ''n'' then Some (parse_word JNull ''ull'' is)
      else if Peek is = CHR ''t'' then Some (parse_word (JBool True) ''rue'' is)
      else if Peek is = CHR ''f'' then Some (parse_word (JBool False) ''alse'' is)
      else if Peek is = CHR 0x22 then
        Some (case ParseString is of Inl err \<Rightarrow> Inl err | Inr (s, r) \<Rightarrow> Inr (JString s, r))
      else if Peek is = CHR 0x7B then
        (let is1 = SkipWhitespace (tl is) in
         case Consume is1 (CHR 0x7D) of
           Some r \<Rightarrow> Some (Inr (JObject [], r))
         | None \<Rightarrow> ParseMembers too_big n [] is1)
      else if Peek is = CHR 0x5B then
        (let is1 = SkipWhitespace (tl is) in
         case Consume is1 (CHR 0x5D) of
           Some r \<Rightarrow> Some (Inr (JArray [], r))
         | None \<Rightarrow> ParseElements too_big n [] is1)
      else Some (ParseNumber too_big is))"
| "ParseMembers too_big 0 ms is = None"
| "ParseMembers too_big (Suc n) ms is =
     (if Peek is \<noteq> CHR 0x22 then Some (Inl (kParseErrorObjectMissName, is))
      else (case ParseString is of
        Inl err \<Rightarrow> Some (Inl err)
      | Inr (name, is1) \<Rightarrow>
          (let is2 = SkipWhitespace is1 in
           case Consume is2 (CHR '':'') of
             None \<Rightarrow> Some (Inl (kParseErrorObjectMissColon, is2))
           | Some is3 \<Rightarrow>
               (case ParseValue too_big n (SkipWhitespace is3) of
                  None \<Rightarrow> None
                | Some (Inl err) \<Rightarrow> Some (Inl err)
                | Some (Inr (v, is4)) \<Rightarrow>
                    (let is5 = SkipWhitespace is4; ms' = ms @ [(name, v)] in
                     if Peek is5 = CHR '','' then ParseMembers too_big n ms' (SkipWhitespace (tl is5))
                     else if Peek is5 = CHR 0x7D then Some (Inr (JObject ms', tl is5))
                     else Some (Inl (kParseErrorObjectMissCommaOrCurlyBracket, is5)))))))"
| "ParseElements too_big 0 vs is = None"
| "ParseElements too_big (Suc n) vs is =
     (case ParseValue too_big n is of
        None \<Rightarrow> None
      | Some (Inl err) \<Rightarrow> Some (Inl err)
      | Some (Inr (v, is1)) \<Rightarrow>
          (let is2 = SkipWhitespace is1; vs' = vs @ [v] in
           if Peek is2 = CHR '','' then ParseElements too_big n vs' (SkipWhitespace (tl is2))
           else if Peek is2 = CHR 0x5D then Some (Inr (JArray vs', tl is2))
           else Some (Inl (kParseErrorArrayMissCommaOrSquareBracket, is2))))"

text \<open>
  \<open>GenericReader::Parse\<close> as \<open>Document::Parse(std::string const &)\<close> calls it, on the bytes before
  the first NUL. The result is the document or the error code and its offset.
\<close>

definition Parse :: "(string \<Rightarrow> bool) \<Rightarrow> string \<Rightarrow> (ParseErrorCode \<times> nat) + json" where
  "Parse too_big text =
     (let src = c_str text; is = SkipWhitespace src;
          offset = (\<lambda>r. length src - length r) in
      if Peek is = CHR 0x00 then Inl (kParseErrorDocumentEmpty, offset is)
      else (case the (ParseValue too_big (Suc (2 * length is)) is) of
        Inl (code, r) \<Rightarrow> Inl (code, offset r)
      | Inr (v, r) \<Rightarrow>
          (let r' = SkipWhitespace r in
           if Peek r' \<noteq> CHR 0x00 then Inl (kParseErrorDocumentRootNotSingular, offset r')
           else Inr v)))"

end
