(* ===== verification/Json_Dom.thy ===== *)
theory Json_Dom
  imports Json_Reader
begin

text \<open>
  The accessors of \<open>rapidjson::Value\<close> (\<open>third_party/rapidjson/include/rapidjson/document.h\<close>) that the
  service calls. Each starts with a \<open>RAPIDJSON_ASSERT\<close> on the type of the value, which does nothing in
  the modelled build; on a value of another type the accessor reads the same bytes by its own layout.
  Members are searched in the order of the document, so the first of two members with the same name counts.
\<close>

section \<open>The bytes of a value\<close>

text \<open>
  A value is a union of structures. \<open>ObjectData\<close>, \<open>ArrayData\<close> and \<open>String\<close> all begin with a 32-bit size or
  length and hold a pointer in their second half; \<open>Number\<close> lies in the first half. A value is made from zero bytes,
  so a null or Boolean has size zero and a null pointer, a number a null pointer and the low half of its
  64 bits as size, and an empty array or object has size zero and a null pointer. \<open>None\<close> is a size that
  the model does not know: the bits of a floating-point number, the characters of a string stored inline.
\<close>

fun data_size :: "json \<Rightarrow> 32 word option" where
  "data_size JNull = Some 0"
| "data_size (JBool b) = Some 0"
| "data_size (JInt i) = Some (word_of_int i)"
| "data_size (JDouble s) = None"
| "data_size (JString s) = None"
| "data_size (JArray vs) = Some (word_of_nat (length vs))"
| "data_size (JObject ms) = Some (word_of_nat (length ms))"

fun null_pointer :: "json \<Rightarrow> bool" where
  "null_pointer (JString s) \<longleftrightarrow> False"
| "null_pointer (JArray vs) \<longleftrightarrow> vs = []"
| "null_pointer (JObject ms) \<longleftrightarrow> ms = []"
| "null_pointer v \<longleftrightarrow> True"

section \<open>Accessors\<close>

fun find_member :: "(string \<times> json) list \<Rightarrow> string \<Rightarrow> json option" where
  "find_member [] name = None"
| "find_member ((k, v) # ms) name = (if k = name then Some v else find_member ms name)"

text \<open>
  On a value that is no object the loop of \<open>FindMember\<close> runs over as many members as the size says: none
  for size zero, otherwise over storage that holds no members.
\<close>

definition no_members :: string where
  "no_members = ''FindMember on storage that holds no members''"

fun HasMember :: "json \<Rightarrow> string \<Rightarrow> bool res" where
  "HasMember (JObject ms) name = Inr (find_member ms name \<noteq> None)"
| "HasMember v name = (if data_size v = Some 0 then Inr False else Inl (Undefined no_members))"

text \<open>\<open>operator[]\<close> returns a reference to a null value where there is no such member.\<close>

fun member_at :: "json \<Rightarrow> string \<Rightarrow> json res" where
  "member_at (JObject ms) name =
     (case find_member ms name of None \<Rightarrow> Inr JNull | Some v \<Rightarrow> Inr v)"
| "member_at v name = (if data_size v = Some 0 then Inr JNull else Inl (Undefined no_members))"

definition IsString :: "json \<Rightarrow> bool" where
  "IsString v = (case v of JString _ \<Rightarrow> True | _ \<Rightarrow> False)"

definition IsArray :: "json \<Rightarrow> bool" where
  "IsArray v = (case v of JArray _ \<Rightarrow> True | _ \<Rightarrow> False)"

definition IsObject :: "json \<Rightarrow> bool" where
  "IsObject v = (case v of JObject _ \<Rightarrow> True | _ \<Rightarrow> False)"

text \<open>
  \<open>Get<std::string>()\<close>, a string of \<open>GetStringLength()\<close> bytes from \<open>GetString()\<close>. From a null pointer it is the empty
  string if the length is zero, and an exception otherwise.
\<close>

definition no_characters :: string where
  "no_characters = ''GetString on storage that holds no characters''"

fun GetString :: "json \<Rightarrow> string res" where
  "GetString (JString s) = Inr s"
| "GetString v =
     (if null_pointer v then
        (case data_size v of
           None \<Rightarrow> Inl (Undefined no_characters)
         | Some n \<Rightarrow> if n = 0 then Inr [] else Inl (Throw null_string))
      else Inl (Undefined no_characters))"

text \<open>A \<open>std::string\<close> made from the pointer that \<open>GetString()\<close> returns, taken as a C string.\<close>

fun GetCString :: "json \<Rightarrow> string res" where
  "GetCString (JString s) = Inr (c_str s)"
| "GetCString v = (if null_pointer v then Inl (Throw null_string) else Inl (Undefined no_characters))"

text \<open>\<open>GetBool\<close> compares the flags of the value with those of true.\<close>

fun GetBool :: "json \<Rightarrow> bool" where
  "GetBool (JBool b) = b"
| "GetBool v = False"

text \<open>\<open>GetArray\<close> as the traversal of its elements sees it.\<close>

definition no_elements :: string where
  "no_elements = ''GetArray on storage that holds no elements''"

fun GetArray :: "json \<Rightarrow> json list res" where
  "GetArray (JArray vs) = Inr vs"
| "GetArray v = (if data_size v = Some 0 then Inr [] else Inl (Undefined no_elements))"

lemma find_member_size: "find_member ms k = Some v \<Longrightarrow> size v < size (JObject ms)"
proof (induction ms)
  case (Cons m ms)
  then show ?case by (cases m) (auto split: if_splits)
qed simp

lemma member_array_size: "member_at v k = Inr (JArray vs) \<Longrightarrow> size (JArray vs) < size v"
  by (cases v) (auto split: option.splits if_splits dest: find_member_size)

lemma GetArray_array: "IsArray v \<Longrightarrow> GetArray v = Inr vs \<longleftrightarrow> v = JArray vs"
  by (cases v) (auto simp: IsArray_def)

lemma HasMember_object [simp]: "HasMember (JObject ms) k = Inr (find_member ms k \<noteq> None)"
  by simp

lemma HasMember_True: "HasMember v k = Inr True \<longleftrightarrow> (\<exists>ms w. v = JObject ms \<and> find_member ms k = Some w)"
  by (cases v) auto

lemma reads_value [reads_intros]:
  "reads (HasMember v k)" "reads (member_at v k)" "reads (GetString v)" "reads (GetCString v)" "reads (GetArray v)"
  by (cases v; auto split: option.splits)+

end
