(* ===== verification/Project_Tree.thy ===== *)
theory Project_Tree
  imports Domain_Types Json_Dom
begin

text \<open>
  Project trees: \<open>src/core/detail/directory_traverser.cpp\<close> (JSON to a \<open>Directory\<close>) and
  \<open>src/common/detail/project_utils.cpp\<close> (a \<open>Directory\<close> to the list of paths and to a tar archive).
  The tar library (\<open>tar::Creator\<close>, a git submodule) is the parameter \<open>tar\<close>: the archive made by a
  sequence of \<open>addFile\<close> calls, or the exception it throws.
\<close>

section \<open>Reading the tree (directory_traverser.cpp)\<close>

definition key_name :: string where "key_name = ''name''"
definition key_children :: string where "key_children = ''children''"
definition key_contents :: string where "key_contents = ''contents''"
definition key_isMainFile :: string where "key_isMainFile = ''is_main_file''"

lemmas tree_keys = key_name_def key_children_def key_contents_def key_isMainFile_def

definition isFile :: "json \<Rightarrow> bool res" where
  "isFile child = HasMember child key_contents"

definition isDirectory :: "json \<Rightarrow> bool res" where
  "isDirectory child = HasMember child key_children"

definition empty_Directory :: Directory where
  "empty_Directory = Directory [] [] []"

definition set_name :: "string \<Rightarrow> Directory \<Rightarrow> Directory" where
  "set_name n d = Directory n (dir_files d) (dir_directories d)"

definition add_file :: "File \<Rightarrow> Directory \<Rightarrow> Directory" where
  "add_file f d = Directory (dir_name d) (dir_files d @ [f]) (dir_directories d)"

definition add_directory :: "Directory \<Rightarrow> Directory \<Rightarrow> Directory" where
  "add_directory s d = Directory (dir_name d) (dir_files d) (dir_directories d @ [s])"

text \<open>The file branch of the loop: an empty file gets a line end as its content.\<close>

definition read_file :: "json \<Rightarrow> File res" where
  "read_file child =
     rbind (rbind (member_at child key_name) GetCString) (\<lambda>n.
     rbind (rbind (member_at child key_contents) GetCString) (\<lambda>content.
     rbind (HasMember child key_isMainFile) (\<lambda>has.
     rbind (if has then rbind (member_at child key_isMainFile) (\<lambda>v. Inr (GetBool v)) else Inr False) (\<lambda>main.
       Inr \<lparr>file_name = n, file_content = (if content = [] then [CHR 0x0A] else content),
            file_isMain = main\<rparr>))))"

function recursiveDirectoryTraverse :: "Directory \<Rightarrow> json \<Rightarrow> Directory res"
  and traverse_children :: "Directory \<Rightarrow> json list \<Rightarrow> Directory res" where
  "recursiveDirectoryTraverse directory document =
     rbind (HasMember document key_name) (\<lambda>named.
       if \<not> named then Inr directory
       else rbind (rbind (member_at document key_name) GetCString) (\<lambda>n.
         let directory = set_name n directory in
         rbind (HasMember document key_children) (\<lambda>has.
           if \<not> has then Inr directory
           else rbind (member_at document key_children) (\<lambda>cs.
             if \<not> IsArray cs then Inr directory
             else rbind (GetArray cs) (\<lambda>childrenArray. traverse_children directory childrenArray)))))"
| "traverse_children directory [] = Inr directory"
| "traverse_children directory (child # rest) =
     rbind (isFile child) (\<lambda>file.
       if file then rbind (read_file child) (\<lambda>f. traverse_children (add_file f directory) rest)
       else rbind (isDirectory child) (\<lambda>dir.
         if dir then rbind (recursiveDirectoryTraverse empty_Directory child) (\<lambda>subDirectory.
                       traverse_children (add_directory subDirectory directory) rest)
         else traverse_children directory rest))"
  by pat_completeness auto
termination
proof (relation "measure (\<lambda>x. case x of Inl (_, v) \<Rightarrow> size v | Inr (_, vs) \<Rightarrow> size_list size vs)")
  fix directory :: Directory and document named n x has cs vs
  assume m: "member_at document key_children = Inr cs" and a: "\<not> \<not> IsArray cs" and g: "GetArray cs = Inr vs"
  from a g have "cs = JArray vs" by (simp add: GetArray_array)
  with member_array_size[of document key_children vs] m show "(Inr (x, vs), Inl (directory, document))
    \<in> measure (\<lambda>x. case x of Inl (_, v) \<Rightarrow> size v | Inr (_, vs) \<Rightarrow> size_list size vs)" by simp
qed simp_all

text \<open>The part of the input up to the error offset, as the exception quotes it.\<close>

definition jsonToDirectory :: "(string \<Rightarrow> bool) \<Rightarrow> string \<Rightarrow> Directory res" where
  "jsonToDirectory too_big text =
     (case Parse too_big text of
        Inl (code, offset) \<Rightarrow>
          Inl (Throw (Runtime_error
            (''Project tree has sytax error in the end of string: '' @ take offset text)))
      | Inr document \<Rightarrow> recursiveDirectoryTraverse empty_Directory document)"

section \<open>Paths (project_utils.cpp)\<close>

text \<open>
  \<open>std::filesystem::path::operator/\<close> on POSIX: an absolute right-hand side replaces the left-hand
  side; otherwise a separator is added when the left-hand side has a filename.
\<close>

definition has_filename :: "string \<Rightarrow> bool" where
  "has_filename p \<longleftrightarrow> p \<noteq> [] \<and> last p \<noteq> CHR ''/''"

definition path_append :: "string \<Rightarrow> string \<Rightarrow> string" where
  "path_append p q =
     (if q \<noteq> [] \<and> hd q = CHR ''/'' then q
      else p @ (if has_filename p then ''/'' else []) @ q)"

fun recursiveFillAbsolutePaths :: "Directory \<Rightarrow> string \<Rightarrow> PathContent list \<Rightarrow> PathContent list"
  and fill_directories :: "Directory list \<Rightarrow> string \<Rightarrow> PathContent list \<Rightarrow> PathContent list" where
  "recursiveFillAbsolutePaths (Directory n fs ds) currentPath paths =
     (let paths1 = paths @ [\<lparr>path = currentPath @ ''/'', content = [], isMain = False, isDir = True\<rparr>];
          paths2 = paths1 @ map (\<lambda>f. \<lparr>path = path_append currentPath (file_name f),
                     content = file_content f, isMain = file_isMain f, isDir = False\<rparr>) fs in
      fill_directories ds currentPath paths2)"
| "fill_directories [] currentPath paths = paths"
| "fill_directories (d # ds) currentPath paths =
     fill_directories ds currentPath
       (recursiveFillAbsolutePaths d (path_append currentPath (dir_name d)) paths)"

definition getPathsToFiles :: "Directory \<Rightarrow> PathContent list" where
  "getPathsToFiles rootDirectory = recursiveFillAbsolutePaths rootDirectory (dir_name rootDirectory) []"

fun getMainFile :: "PathContent list \<Rightarrow> string res" where
  "getMainFile [] = Inl (Throw (Logic_error ''There's no main file''))"
| "getMainFile (p # ps) = (if isMain p then Inr (path p) else getMainFile ps)"

section \<open>The archive (project_utils.cpp)\<close>

datatype FileType = RegularFile | Directory_type

datatype Filemode = ReadWrite | ReadWriteExecute

text \<open>The last component holds mode, modification time, uid, gid and the two owner names when given.\<close>

record tar_file =
  tar_path :: string
  tar_content :: string
  tar_type :: FileType
  tar_attributes :: "(Filemode \<times> nat \<times> nat \<times> nat \<times> string \<times> string) option"

type_synonym tar_creator = "tar_file list \<Rightarrow> exn + string"

definition run_tar :: "tar_creator \<Rightarrow> tar_file list \<Rightarrow> string res" where
  "run_tar tar fs = (case tar fs of Inl e \<Rightarrow> Inl (Throw e) | Inr s \<Rightarrow> Inr s)"

definition project_entry :: "PathContent \<Rightarrow> tar_file" where
  "project_entry p =
     (if isDir p then
        \<lparr>tar_path = path p, tar_content = content p, tar_type = Directory_type,
         tar_attributes = Some (ReadWrite, 0, 1000, 1000, ''code_runner'', ''code_runner'')\<rparr>
      else
        \<lparr>tar_path = path p, tar_content = content p, tar_type = RegularFile,
         tar_attributes = Some (ReadWriteExecute, 0, 1000, 1000, ''code_runner'', ''code_runner'')\<rparr>)"

definition makeProjectTar :: "tar_creator \<Rightarrow> Project \<Rightarrow> string res" where
  "makeProjectTar tar proj = run_tar tar (map project_entry (pathsContents proj))"

section \<open>Reading a tree back\<close>

text \<open>The JSON of a directory as a client sends it, and the names and contents that a C string can carry.\<close>

definition file_json :: "File \<Rightarrow> json" where
  "file_json f = JObject [(key_name, JString (file_name f)), (key_contents, JString (file_content f)),
     (key_isMainFile, JBool (file_isMain f))]"

fun dir_json :: "Directory \<Rightarrow> json" where
  "dir_json (Directory n fs ds) =
     JObject [(key_name, JString n), (key_children, JArray (map file_json fs @ map dir_json ds))]"

definition file_no_NUL :: "File \<Rightarrow> bool" where
  "file_no_NUL f \<longleftrightarrow> c_str (file_name f) = file_name f \<and> c_str (file_content f) = file_content f"

fun no_NUL :: "Directory \<Rightarrow> bool" where
  "no_NUL (Directory n fs ds) \<longleftrightarrow> c_str n = n \<and> list_all file_no_NUL fs \<and> list_all no_NUL ds"

definition norm_file :: "File \<Rightarrow> File" where
  "norm_file f = f\<lparr>file_content := (if file_content f = [] then [CHR 0x0A] else file_content f)\<rparr>"

fun norm_dir :: "Directory \<Rightarrow> Directory" where
  "norm_dir (Directory n fs ds) = Directory n (map norm_file fs) (map norm_dir ds)"

lemma read_file_json: "file_no_NUL f \<Longrightarrow> read_file (file_json f) = Inr (norm_file f)"
  by (cases f) (simp add: read_file_def file_json_def norm_file_def file_no_NUL_def tree_keys)

lemma traverse_files:
  assumes "list_all file_no_NUL fs"
  shows "traverse_children d (map file_json fs @ rest) =
    traverse_children (Directory (dir_name d) (dir_files d @ map norm_file fs) (dir_directories d)) rest"
  using assms
proof (induction fs arbitrary: d)
  case (Cons f fs)
  have "isFile (file_json f) = Inr True" by (simp add: isFile_def file_json_def tree_keys)
  with Cons show ?case by (simp add: read_file_json add_file_def del: traverse_children.simps(1))
qed simp

lemma traverse_directory:
  "no_NUL d \<Longrightarrow> recursiveDirectoryTraverse empty_Directory (dir_json d) = Inr (norm_dir d)"
proof (induction d)
  case (Directory n fs ds)
  have subs: "traverse_children acc (map dir_json xs) =
      Inr (Directory (dir_name acc) (dir_files acc) (dir_directories acc @ map norm_dir xs))"
    if "set xs \<subseteq> set ds" for acc xs
    using that
  proof (induction xs arbitrary: acc)
    case (Cons x xs)
    have x: "recursiveDirectoryTraverse empty_Directory (dir_json x) = Inr (norm_dir x)"
      using Directory.IH[of x] Directory.prems Cons.prems by (auto simp: list_all_iff)
    have "isFile (dir_json x) = Inr False" "isDirectory (dir_json x) = Inr True"
      by (cases x; simp add: isFile_def isDirectory_def tree_keys)+
    with Cons x show ?case by (simp add: add_directory_def del: recursiveDirectoryTraverse.simps)
  qed simp
  show ?case
    using Directory.prems traverse_files[of fs _ "map dir_json ds"] subs
    by (simp add: empty_Directory_def set_name_def tree_keys IsArray_def)
qed

section \<open>How reading a tree fails\<close>

lemma reads_read_file [reads_intros]: "reads (isFile v)" "reads (isDirectory v)" "reads (read_file v)"
  unfolding isFile_def isDirectory_def read_file_def by (intro reads_intros)+

lemma reads_traverse: "reads (recursiveDirectoryTraverse d v)" "reads (traverse_children d vs)"
proof (induction d v and d vs rule: recursiveDirectoryTraverse_traverse_children.induct)
  case (1 directory document)
  then show ?case
    by (subst recursiveDirectoryTraverse.simps) (auto simp: Let_def intro!: reads_intros)
next
  case (3 directory child rest)
  then show ?case by (subst traverse_children.simps) (auto intro!: reads_intros)
qed simp

lemma reads_tree [reads_intros]: "reads (jsonToDirectory too_big text)" "reads (getMainFile ps)"
proof -
  show "reads (jsonToDirectory too_big text)"
    unfolding jsonToDirectory_def using reads_traverse(1) by (auto split: sum.splits prod.splits simp del: recursiveDirectoryTraverse.simps)
  show "reads (getMainFile ps)" by (induction ps) simp_all
qed

section \<open>Paths of a tree\<close>

text \<open>
  The abstract view: a preorder list of the directories and files of a tree, each with the list of
  names on the way from the root.
\<close>

definition entry_path :: "string list \<Rightarrow> string" where
  "entry_path names = concat (map (\<lambda>n. n @ ''/'') (butlast names)) @ last names"

definition dir_entry :: "string list \<Rightarrow> PathContent" where
  "dir_entry names = \<lparr>path = entry_path names @ ''/'', content = [], isMain = False, isDir = True\<rparr>"

definition file_entry :: "string list \<Rightarrow> File \<Rightarrow> PathContent" where
  "file_entry names f = \<lparr>path = entry_path (names @ [file_name f]), content = file_content f,
     isMain = file_isMain f, isDir = False\<rparr>"

fun tree_entries :: "string list \<Rightarrow> Directory \<Rightarrow> PathContent list" where
  "tree_entries names (Directory n fs ds) =
     dir_entry (names @ [n]) # map (file_entry (names @ [n])) fs
     @ concat (map (tree_entries (names @ [n])) ds)"

definition plain_name :: "string \<Rightarrow> bool" where
  "plain_name n \<longleftrightarrow> n \<noteq> [] \<and> CHR ''/'' \<notin> set n"

fun plain_tree :: "Directory \<Rightarrow> bool" where
  "plain_tree (Directory n fs ds) \<longleftrightarrow>
     plain_name n \<and> list_all (\<lambda>f. plain_name (file_name f)) fs \<and> list_all plain_tree ds"

lemma plain_tree_name: "plain_tree d \<Longrightarrow> plain_name (dir_name d)"
  by (cases d) simp

lemma entry_path_snoc: "names \<noteq> [] \<Longrightarrow> entry_path (names @ [n]) = entry_path names @ ''/'' @ n"
  by (cases names rule: rev_cases) (simp_all add: entry_path_def butlast_append)

lemma path_append_plain:
  assumes "names \<noteq> []" and "plain_name (last names)" and "plain_name n"
  shows "path_append (entry_path names) n = entry_path (names @ [n])"
proof -
  have "has_filename (entry_path names)"
  proof -
    have "last (last names) \<noteq> CHR ''/''" using assms(2) by (metis last_in_set plain_name_def)
    with assms(2) show ?thesis by (simp add: has_filename_def entry_path_def plain_name_def)
  qed
  moreover have "hd n \<noteq> CHR ''/''" using assms(3) by (cases n) (auto simp: plain_name_def)
  ultimately show ?thesis using entry_path_snoc[OF assms(1)] by (simp add: path_append_def)
qed

lemma fill_paths:
  "plain_tree d \<Longrightarrow> recursiveFillAbsolutePaths d (entry_path (names @ [dir_name d])) acc = acc @ tree_entries names d"
proof (induction d arbitrary: names acc)
  case (Directory n fs ds)
  have subs: "fill_directories xs (entry_path (names @ [n])) acc
      = acc @ concat (map (tree_entries (names @ [n])) xs)" if "set xs \<subseteq> set ds" for acc xs
    using that
  proof (induction xs arbitrary: acc)
    case (Cons x xs)
    have p: "plain_tree x" using Cons.prems Directory.prems by (auto simp: list_all_iff)
    then have "path_append (entry_path (names @ [n])) (dir_name x) = entry_path ((names @ [n]) @ [dir_name x])"
      using path_append_plain[of "names @ [n]" "dir_name x"] Directory.prems plain_tree_name by simp
    with Cons Directory.IH[of x "names @ [n]" acc] p show ?case by simp
  qed simp
  have "map (\<lambda>f. \<lparr>path = path_append (entry_path (names @ [n])) (file_name f), content = file_content f,
      isMain = file_isMain f, isDir = False\<rparr>) fs = map (file_entry (names @ [n])) fs"
    using Directory.prems path_append_plain[of "names @ [n]"]
    by (auto simp: file_entry_def list_all_iff)
  with subs[of ds] show ?case by (simp add: dir_entry_def)
qed

lemma entry_path_root: "entry_path [n] = n"
  by (simp add: entry_path_def)

section \<open>Where a path leads\<close>

text \<open>
  The place that a path leads to when it is followed from the directory \<open>at\<close>, a list of names: an absolute path
  starts at the root of the file system, empty names and dots stay, two dots go up.
\<close>

fun slash_split :: "string \<Rightarrow> string list" where
  "slash_split [] = [[]]"
| "slash_split (c # s) =
     (if c = CHR ''/'' then [] # slash_split s
      else (case slash_split s of [] \<Rightarrow> [[c]] | n # ns \<Rightarrow> (c # n) # ns))"

fun walk :: "string list \<Rightarrow> string list \<Rightarrow> string list" where
  "walk at [] = at"
| "walk at (n # ns) = walk (if n = [] \<or> n = ''.'' then at else if n = ''..'' then butlast at else at @ [n]) ns"

definition location :: "string list \<Rightarrow> string \<Rightarrow> string list" where
  "location at p = walk (if prefix ''/'' p then [] else at) (slash_split p)"

definition dotless_name :: "string \<Rightarrow> bool" where
  "dotless_name n \<longleftrightarrow> n \<noteq> ''.'' \<and> n \<noteq> ''..''"

fun dotless :: "Directory \<Rightarrow> bool" where
  "dotless (Directory n fs ds) \<longleftrightarrow>
     dotless_name n \<and> list_all (\<lambda>f. dotless_name (file_name f)) fs \<and> list_all dotless ds"

fun all_files :: "Directory \<Rightarrow> File list" where
  "all_files (Directory n fs ds) = fs @ concat (map all_files ds)"

lemma slash_split_plain: "CHR ''/'' \<notin> set n \<Longrightarrow> slash_split n = [n]"
  by (induction n) auto

lemma slash_split_Cons: "CHR ''/'' \<notin> set n \<Longrightarrow> slash_split (n @ CHR ''/'' # s) = n # slash_split s"
  by (induction n) auto

lemma slash_split_entry:
  assumes "names \<noteq> []" and "list_all plain_name names"
  shows "slash_split (entry_path names @ s) =
    butlast names @ (if s = [] then [last names] else slash_split (last names @ s))"
  using assms
proof (induction names)
  case (Cons n names)
  show ?case
  proof (cases "names = []")
    case True
    with Cons.prems show ?thesis by (auto simp: entry_path_def plain_name_def slash_split_plain)
  next
    case False
    then have "entry_path (n # names) = n @ CHR ''/'' # entry_path names" by (simp add: entry_path_def)
    with Cons False show ?thesis by (simp add: slash_split_Cons plain_name_def)
  qed
qed simp

lemma walk_names:
  "list_all plain_name ns \<Longrightarrow> list_all dotless_name ns \<Longrightarrow> walk at (ns @ ms) = walk (at @ ns) ms"
  by (induction ns arbitrary: at) (simp_all add: plain_name_def dotless_name_def)

lemma location_entry:
  assumes "names \<noteq> []" and "list_all plain_name names" and "list_all dotless_name names" and "s = [] \<or> s = ''/''"
  shows "location at (entry_path names @ s) = at @ names"
proof -
  have hd: "hd names \<noteq> []" "hd (hd names) \<noteq> CHR ''/''"
    using assms(1,2) by (cases names; cases "hd names"; auto simp: plain_name_def)+
  have "entry_path names \<noteq> [] \<and> hd (entry_path names) = hd (hd names)"
    using assms(1) hd(1) by (cases names; cases "tl names") (auto simp: entry_path_def hd_append)
  then have rel: "\<not> prefix ''/'' (entry_path names @ s)" using hd(2) by (cases "entry_path names") auto
  have "last names \<in> set names" using assms(1) by simp
  with assms(2) have "CHR ''/'' \<notin> set (last names)" by (auto simp: list_all_iff plain_name_def)
  with assms(1,4) slash_split_entry[OF assms(1,2), of s]
  have "slash_split (entry_path names @ s) = names @ (if s = [] then [] else [[]])"
    using slash_split_Cons[of "last names" "[]"] by auto
  with rel walk_names[OF assms(2,3)] show ?thesis by (auto simp: location_def)
qed

lemma tree_entries_location:
  assumes "list_all plain_name names" and "list_all dotless_name names" and "plain_tree d" and "dotless d"
    and "p \<in> set (tree_entries names d)"
  shows "prefix (at @ names @ [dir_name d]) (location at (path p))"
  using assms
proof (induction d arbitrary: names)
  case (Directory n fs ds)
  let ?names = "names @ [n]"
  have names: "list_all plain_name ?names" "list_all dotless_name ?names" using Directory.prems by simp_all
  from Directory.prems(5) consider "p = dir_entry ?names" | f where "f \<in> set fs" "p = file_entry ?names f"
    | x where "x \<in> set ds" "p \<in> set (tree_entries ?names x)" by auto
  then show ?case
  proof cases
    case 1
    then show ?thesis using location_entry[OF _ names, of "''/''" at] by (simp add: dir_entry_def)
  next
    case (2 f)
    then have "list_all plain_name (?names @ [file_name f])" "list_all dotless_name (?names @ [file_name f])"
      using Directory.prems by (auto simp: list_all_iff)
    from location_entry[OF _ this, of "[]" at] 2 show ?thesis by (simp add: file_entry_def)
  next
    case (3 x)
    with Directory.IH[OF 3(1) names] Directory.prems have "prefix (at @ ?names @ [dir_name x]) (location at (path p))"
      by (auto simp: list_all_iff)
    then show ?thesis by (auto simp: prefix_def)
  qed
qed

lemma getPathsToFiles_entries: "plain_tree d \<Longrightarrow> getPathsToFiles d = tree_entries [] d"
  using fill_paths[of d "[]" "[]"] by (simp add: getPathsToFiles_def entry_path_root)

lemma fill_keeps: "set acc \<subseteq> set (recursiveFillAbsolutePaths d at acc)" "set acc \<subseteq> set (fill_directories ds at acc)"
proof (induction d at acc and ds at acc rule: recursiveFillAbsolutePaths_fill_directories.induct)
  case (1 n fs ds currentPath paths)
  then show ?case by (auto simp: Let_def)
next
  case (3 d ds currentPath paths)
  then show ?case by auto
qed simp

lemma absolute_file_listed:
  assumes "prefix ''/'' (file_name f)"
  shows "f \<in> set (all_files d) \<Longrightarrow> \<lparr>path = file_name f, content = file_content f, isMain = file_isMain f, isDir = False\<rparr>
      \<in> set (recursiveFillAbsolutePaths d at acc)" (is "_ \<Longrightarrow> ?e \<in> _")
proof (induction d arbitrary: at acc)
  case (Directory n fs ds)
  have sub: "?e \<in> set (fill_directories xs at acc)" if "x \<in> set xs" "set xs \<subseteq> set ds" "f \<in> set (all_files x)" for x xs acc
    using that
  proof (induction xs arbitrary: acc)
    case (Cons y xs)
    show ?case
    proof (cases "x = y")
      case True
      have y: "y \<in> set ds" using Cons.prems by simp
      have "?e \<in> set (recursiveFillAbsolutePaths y (path_append at (dir_name y)) acc)"
        by (rule Directory.IH[OF y]) (use Cons.prems True in simp)
      then show ?thesis using fill_keeps(2) by fastforce
    qed (use Cons in simp)
  qed simp
  from Directory.prems consider "f \<in> set fs" | x where "x \<in> set ds" "f \<in> set (all_files x)" by auto
  then show ?case
  proof cases
    case 1
    have "path_append at (file_name f) = file_name f" using assms by (cases "file_name f") (auto simp: path_append_def)
    with 1 have "?e \<in> (\<lambda>f. \<lparr>path = path_append at (file_name f), content = file_content f,
        isMain = file_isMain f, isDir = False\<rparr>) ` set fs" by force
    then show ?thesis by (auto simp: Let_def intro!: subsetD[OF fill_keeps(2)])
  qed (simp add: Let_def sub)
qed

section \<open>Properties\<close>

text \<open>
  C23. A project tree survives its JSON form: reading the JSON of a directory gives that directory, files,
  flags, subdirectories and order included, except that an empty file becomes a line end.
\<close>

theorem directory_json_roundtrip:
  assumes "no_NUL d"
  shows "recursiveDirectoryTraverse empty_Directory (dir_json d) = Inr (norm_dir d)"
  by (rule traverse_directory[OF assms])

theorem directory_json_roundtrip_witness:
  "recursiveDirectoryTraverse empty_Directory
     (dir_json (Directory ''app'' [\<lparr>file_name = ''main.py'', file_content = [], file_isMain = True\<rparr>]
        [Directory ''lib'' [] []]))
   = Inr (Directory ''app'' [\<lparr>file_name = ''main.py'', file_content = [CHR 0x0A], file_isMain = True\<rparr>]
        [Directory ''lib'' [] []])"
  using directory_json_roundtrip[of "Directory ''app'' [\<lparr>file_name = ''main.py'', file_content = [],
      file_isMain = True\<rparr>] [Directory ''lib'' [] []]"]
  by (simp add: file_no_NUL_def c_str_def norm_file_def)

text \<open>
  C24. For a tree whose names are nonempty and contain no slash, \<open>getPathsToFiles\<close> lists the directories and
  files in preorder with exactly the names on the way from the root as path. If besides no name is a dot or two dots,
  every path, followed from whatever directory the archive is unpacked in, leads to the root directory of the project
  or to a place below it.
\<close>

theorem paths_of_tree:
  assumes "plain_tree d"
  shows "getPathsToFiles d = tree_entries [] d
    \<and> (dotless d \<longrightarrow> (\<forall>p \<in> set (getPathsToFiles d). prefix (at @ [dir_name d]) (location at (path p))))"
  using tree_entries_location[of "[]" d] getPathsToFiles_entries[OF assms] assms by simp

theorem paths_of_tree_witness:
  "map path (getPathsToFiles (Directory ''app'' [\<lparr>file_name = ''a'', file_content = ''x'', file_isMain = False\<rparr>]
      [Directory ''lib'' [\<lparr>file_name = ''b'', file_content = ''y'', file_isMain = True\<rparr>] []]))
     = [''app/'', ''app/a'', ''app/lib/'', ''app/lib/b'']
   \<and> prefix [''home'', ''app''] (location [''home''] ''app/lib/b'')"
  using paths_of_tree[of "Directory ''app'' [\<lparr>file_name = ''a'', file_content = ''x'', file_isMain = False\<rparr>]
      [Directory ''lib'' [\<lparr>file_name = ''b'', file_content = ''y'', file_isMain = True\<rparr>] []]" "[''home'']"]
  by (simp add: plain_name_def dotless_name_def dir_entry_def file_entry_def entry_path_def) auto

text \<open>
  C38. An absolute file name drops the directories the file was sent in: at any depth of a tree whose root has a
  plain name, a file with such a name is listed under the name alone, with its content, and that path does not begin
  with the root directory.
\<close>

theorem absolute_name_escapes:
  assumes "plain_name (dir_name d)" and "f \<in> set (all_files d)" and "prefix ''/'' (file_name f)"
  shows "\<exists>p. p \<in> set (getPathsToFiles d) \<and> path p = file_name f \<and> content p = file_content f \<and> \<not> isDir p
    \<and> \<not> prefix (dir_name d @ ''/'') (path p)"
proof -
  have "\<not> prefix (dir_name d @ ''/'') (file_name f)"
    using assms(1,3) by (cases "dir_name d"; cases "file_name f") (auto simp: plain_name_def)
  with absolute_file_listed[OF assms(3,2), of "dir_name d" "[]"] show ?thesis
    unfolding getPathsToFiles_def by fastforce
qed

theorem absolute_name_escapes_witness:
  "\<exists>p. p \<in> set (getPathsToFiles (Directory ''app'' []
      [Directory ''lib'' [\<lparr>file_name = ''/task/run-task.sh'', file_content = ''x'', file_isMain = False\<rparr>] []]))
     \<and> path p = ''/task/run-task.sh'' \<and> content p = ''x'' \<and> \<not> isDir p"
  using absolute_name_escapes[of "Directory ''app'' []
      [Directory ''lib'' [\<lparr>file_name = ''/task/run-task.sh'', file_content = ''x'', file_isMain = False\<rparr>] []]"
      "\<lparr>file_name = ''/task/run-task.sh'', file_content = ''x'', file_isMain = False\<rparr>"]
  by (simp add: plain_name_def) blast

end
