(* ===== verification/Service.thy ===== *)
theory Service
  imports Project_Tree Pool_Progress
begin

text \<open>
  \<open>src/core/service.cpp\<close> with the archives it sends (\<open>core/detail/data_run_prepare.cpp\<close> and \<open>makeTar\<close>
  of \<open>common/common.cpp\<close>): one operation per kind of request, over the pool of launchers. The archive
  writer (\<open>structarus\<close>, a git submodule) is the parameter \<open>tar\<close>. Logging is dropped; the request to the
  engine that a log statement makes is kept.
\<close>

section \<open>Archives (common.cpp, data_run_prepare.cpp)\<close>

definition kFilenameTask :: string where "kFilenameTask = ''task''"
definition kFilenameTaskTests :: string where "kFilenameTaskTests = ''task_tests''"

record CodeFilename =
  code_text :: string
  code_filename :: string

text \<open>The condition as the operators bind: \<open>!empty && == task || == task_tests\<close>.\<close>

definition tar_selected :: "CodeFilename \<Rightarrow> bool" where
  "tar_selected e \<longleftrightarrow>
     (code_text e \<noteq> [] \<and> code_filename e = kFilenameTask) \<or> code_filename e = kFilenameTaskTests"

definition tar_entry :: "CodeFilename \<Rightarrow> tar_file" where
  "tar_entry e = \<lparr>tar_path = code_filename e, tar_content = code_text e, tar_type = RegularFile,
     tar_attributes = None\<rparr>"

definition makeTar :: "tar_creator \<Rightarrow> CodeFilename list \<Rightarrow> string res" where
  "makeTar tar data = run_tar tar (map tar_entry (filter tar_selected data))"

definition prepareData_chapter :: "tar_creator \<Rightarrow> ChapterTaskParams \<Rightarrow> string res" where
  "prepareData_chapter tar params =
     makeTar tar [\<lparr>code_text = sourceRun params, code_filename = kFilenameTask\<rparr>,
                  \<lparr>code_text = sourceTest params, code_filename = kFilenameTaskTests\<rparr>]"

definition prepareData_playground :: "tar_creator \<Rightarrow> PlaygroundTaskParams \<Rightarrow> string res" where
  "prepareData_playground tar params = makeProjectTar tar (project params)"

definition prepareData_practice :: "tar_creator \<Rightarrow> RunPracticeParams \<Rightarrow> string res" where
  "prepareData_practice tar params = makeProjectTar tar (practice_project (practice params))"

section \<open>Commands (service.cpp)\<close>

definition getArgs :: "string \<Rightarrow> string \<Rightarrow> string list \<Rightarrow> string list" where
  "getArgs type filename args = [''sh'', type, ''-f '' @ filename] @ args"

definition getArgsCourse :: "string \<Rightarrow> string list \<Rightarrow> string list" where
  "getArgsCourse filename args = getArgs ''task/run-task.sh'' filename args"

definition getArgsPlayground :: "string \<Rightarrow> string list \<Rightarrow> string list" where
  "getArgsPlayground filename args = getArgs ''playground/run-playground.sh'' filename args"

definition getPracticeDockerArgs :: "RunPracticeParams \<Rightarrow> string list" where
  "getPracticeDockerArgs params =
     (let runArgs = [''sh'', ''practice/run-practice.sh'',
                     ''-f '' @ project_name (practice_project (practice params))] in
      case practice_action (practice params) of
        Run \<Rightarrow> runArgs @ [''-p practice/'' @ pathToMainFile params]
                 @ (if userCmdLineArgs params \<noteq> [] then [''-o '' @ userCmdLineArgs params] else [])
                 @ [''-r'']
      | Test \<Rightarrow> runArgs @ [''-t''])"

section \<open>The operations (service.cpp)\<close>

text \<open>
  The scope of \<open>auto codeLauncher\<close>: a null pointer gives the answer \<open>none\<close>, and a launcher is destroyed,
  which restarts its container, when the handler is left.
\<close>

definition with_launcher ::
  "('s, 'h option) op \<Rightarrow> ('h \<Rightarrow> ('s, unit) op) \<Rightarrow> 'a \<Rightarrow> ('h \<Rightarrow> ('s, 'a) op) \<Rightarrow> ('s, 'a) op" where
  "with_launcher get dtor none body =
     sbind get (\<lambda>codeLauncher.
       case codeLauncher of
         None \<Rightarrow> sret none
       | Some h \<Rightarrow> with_destructor (body h) (dtor h))"

definition runChapter ::
  "'d docker_client \<Rightarrow> tar_creator \<Rightarrow> ChapterTaskParams \<Rightarrow> ('d pool, Response) op" where
  "runChapter c tar params =
     (if sourceRun params = [] \<and> sourceTest params = []
      then sret (mk_response kUserCodeError ''Sources and tests are not provided'' (Some []))
      else with_launcher (getCodeLauncher c (language params)) (callbacked_destructor c)
        (mk_response kInvalidCode ''Probably wrong containerType'' None)
        (\<lambda>codeLauncher.
           sbind (slift (prepareData_chapter tar params)) (\<lambda>archive.
           sbind (callbacked_runCode c codeLauncher archive
                    (getArgsCourse kFilenameTask (cmdLineArgs params)) Chapter) (\<lambda>result.
             if errorCodeIsUnexpected (sourceCode result)
             then sbind (callbacked_getInfo c codeLauncher) (\<lambda>_. sret result)
             else sret result))))"

definition runPlayground ::
  "'d docker_client \<Rightarrow> tar_creator \<Rightarrow> PlaygroundTaskParams \<Rightarrow> ('d pool, Response) op" where
  "runPlayground c tar params =
     with_launcher (getCodeLauncher c (language params)) (callbacked_destructor c) default_Response
       (\<lambda>codeLauncher.
          sbind (slift (prepareData_playground tar params)) (\<lambda>archive.
            callbacked_runCode c codeLauncher archive
              (getArgsPlayground (project_name (project params)) (cmdLineArgs params)) Playground))"

definition runPractice ::
  "'d docker_client \<Rightarrow> tar_creator \<Rightarrow> RunPracticeParams \<Rightarrow> ('d pool, Response) op" where
  "runPractice c tar params =
     with_launcher (getCodeLauncher c (practice_language params)) (callbacked_destructor c) default_Response
       (\<lambda>codeLauncher.
          let dockerCmdArgs = getPracticeDockerArgs params in
          sbind (slift (prepareData_practice tar params)) (\<lambda>archive.
            callbacked_runCode c codeLauncher archive dockerCmdArgs Practice_api))"

section \<open>A provider of launchers\<close>

text \<open>An outcome after which the thread goes on: a value or an exception.\<close>

definition orderly :: "'a res \<Rightarrow> bool" where
  "orderly r \<longleftrightarrow> (\<forall>w. r \<noteq> Inl (Abort w)) \<and> (\<forall>w. r \<noteq> Inl (Undefined w)) \<and> r \<noteq> Inl Block"

lemma orderly_simps [simp, res_simps]:
  "orderly (Inr x)" "orderly (Inl f) \<longleftrightarrow> (\<exists>e. f = Throw e)"
  by (simp add: orderly_def) (cases f; simp add: orderly_def)

lemma orderly_cases:
  assumes "orderly r"
  obtains x where "r = Inr x" | e where "r = Inl (Throw e)"
  using assms unfolding orderly_def by (metis failure.exhaust old.sum.exhaust)

lemma orderly_rbind: "orderly m \<Longrightarrow> (\<And>x. m = Inr x \<Longrightarrow> orderly (f x)) \<Longrightarrow> orderly (rbind m f)"
  by (cases m) auto

text \<open>
  What a handler relies on (\<open>code_launcher_provider_interface.hpp\<close>, \<open>code_launcher_interface.hpp\<close>): a
  launcher that was handed out stays usable while it runs code, and its destructor succeeds and
  leaves the provider as good as before.
\<close>

locale launcher_provider =
  fixes get :: "Language \<Rightarrow> ('s, 'h option) op"
    and run :: "'h \<Rightarrow> string \<Rightarrow> string list \<Rightarrow> Action \<Rightarrow> ('s, Response) op"
    and inform :: "'h \<Rightarrow> ('s, 'i) op"
    and dtor :: "'h \<Rightarrow> ('s, unit) op"
    and wf :: "'s \<Rightarrow> bool"
    and held :: "'h \<Rightarrow> 's \<Rightarrow> bool"
  assumes get_held: "wf s \<Longrightarrow> get lang s = (Inr (Some h), s') \<Longrightarrow> held h s'"
    and get_none: "get lang s = (Inr None, s') \<Longrightarrow> s' = s"
    and get_fails: "get lang s = (Inl f, s') \<Longrightarrow> f = Block \<and> s' = s"
    and run_held: "held h s \<Longrightarrow> run h archive args action s = (r, s') \<Longrightarrow> held h s' \<and> orderly r"
    and inform_held: "held h s \<Longrightarrow> inform h s = (i, s') \<Longrightarrow> held h s' \<and> orderly i"
    and dtor_wf: "held h s \<Longrightarrow> \<exists>s'. dtor h s = (Inr (), s') \<and> wf s'"
begin

lemma scope:
  assumes "wf s" and body: "\<And>h s r s'. held h s \<Longrightarrow> body h s = (r, s') \<Longrightarrow> held h s' \<and> orderly r"
    and call: "with_launcher (get lang) dtor none body s = (r, s')"
  shows "wf s' \<and> (orderly r \<or> r = Inl Block \<and> s' = s)"
proof (cases "get lang s")
  case (Pair g s1)
  show ?thesis
  proof (cases g)
    case (Inl f)
    with Pair get_fails[of lang s f s1] call assms(1) show ?thesis by (simp add: with_launcher_def)
  next
    case (Inr ho)
    show ?thesis
    proof (cases ho)
      case None
      with Inr Pair get_none[of lang s s1] call assms(1) show ?thesis by (auto simp: with_launcher_def)
    next
      case (Some h)
      then have h: "held h s1" using get_held[OF assms(1), of lang h s1] Inr Pair by simp
      obtain b s2 where b: "body h s1 = (b, s2)" by (cases "body h s1")
      with body[OF h b] obtain s3 where s3: "dtor h s2 = (Inr (), s3)" "wf s3" using dtor_wf by blast
      have "with_destructor (body h) (dtor h) s1 = (b, s3)"
        using body[OF h b] b s3 by (auto elim!: orderly_cases)
      with Pair Inr Some call body[OF h b] s3 show ?thesis by (simp add: with_launcher_def)
    qed
  qed
qed

lemma run_then:
  assumes "held h s" and "orderly archive"
    and "\<And>result s r s'. held h s \<Longrightarrow> rest result s = (r, s') \<Longrightarrow> held h s' \<and> orderly r"
    and "sbind (slift archive) (\<lambda>a. sbind (run h a args action) rest) s = (r, s')"
  shows "held h s' \<and> orderly r"
proof (cases archive)
  case (Inl e)
  with assms(1,2,4) show ?thesis by auto
next
  case (Inr a)
  obtain x s1 where x: "run h a args action s = (x, s1)" by (cases "run h a args action s")
  with Inr assms(4) run_held[OF assms(1) x] assms(3)[of s1] show ?thesis by (cases x) auto
qed

end

text \<open>
  The pool keeps these promises: every idle launcher is in the list of its own language, and the
  language of a launcher in use has a list to put a new launcher in.
\<close>

definition pool_wf :: "'d pool \<Rightarrow> bool" where
  "pool_wf p \<longleftrightarrow> (\<forall>lang vs. store p lang = Some vs \<longrightarrow> (\<forall>l \<in> set vs. launcher_type l = lang))"

definition pool_held :: "CallbackedCodeLauncher \<Rightarrow> 'd pool \<Rightarrow> bool" where
  "pool_held h p \<longleftrightarrow> pool_wf p \<and> info_type (m_restartInfo h) \<in> dom (store p)"

lemma pool_wf_engine [simp]: "pool_wf (p\<lparr>engine := d\<rparr>) = pool_wf p" "pool_held h (p\<lparr>engine := d\<rparr>) = pool_held h p"
  by (simp_all add: pool_wf_def pool_held_def)

lemma on_engine_result: "on_engine f p = (r, p') \<Longrightarrow> \<exists>d. f (engine p) = (r, d) \<and> p' = p\<lparr>engine := d\<rparr>"
  by (auto simp: on_engine_def split: prod.splits)

lemma orderly_string: "orderly (substr s a n)" "orderly (erase s a n)"
  by (simp_all add: substr_def erase_def)

lemma orderly_tender: "orderly (removeEscapeSequencesTender s)"
proof -
  have "orderly (tender_loop s ps)" for s ps
    by (induction ps arbitrary: s) (auto intro!: orderly_rbind simp: tender_step_def Let_def orderly_string)
  then show ?thesis by (simp add: removeEscapeSequencesTender_def)
qed

lemma orderly_outputs: "orderly (getMessageOutput code m)" "orderly (getMessageOutput_playground m)" "orderly (getUserOutput m)"
  unfolding getMessageOutput_def getMessageOutput_playground_def getUserOutput_def Let_def
  by (intro orderly_rbind, simp_all add: orderly_string) (intro orderly_rbind, simp_all add: orderly_string)?

lemma orderly_process: "orderly (processChapter m)" "orderly (processPlayground m)"
  unfolding processChapter_def processPlayground_def Let_def
  by (cases "getExitCode m"; simp add: orderly_rbind orderly_outputs)+

lemma orderly_answers: "orderly (getCourseResponse m)" "orderly (getPlaygroungResponse m)" "orderly (getPracticeResponse m)"
  by (simp_all add: getCourseResponse_def getPlaygroungResponse_def getPracticeResponse_def orderly_rbind
      orderly_tender orderly_process)

lemma orderly_runCode: "runCode c l tar args action d = (r, d') \<Longrightarrow> orderly r"
  using prepareCode_returns[of c l tar action d] orderly_answers
  by (auto simp: runCode_def sbind_def Let_def split: prod.splits if_splits Api.splits)

lemma getCodeLauncher_cases:
  assumes "getCodeLauncher c lang p = (r, p')"
  obtains (none) "store p lang = None" "r = Inr None" "p' = p"
  | (block) "store p lang = Some []" "r = Inl Block" "p' = p"
  | (some) vs l i d where "store p lang = Some (vs @ [l])" "getInfo c l (engine p) = (i, d)"
      "r = Inr (Some \<lparr>m_codeLauncher = l, m_restartInfo = i\<rparr>)"
      "p' = p\<lparr>store := (store p)(lang \<mapsto> vs), engine := d\<rparr>"
proof (cases "store p lang")
  case None
  show ?thesis
    by (rule none) (use None assms in \<open>simp_all add: getCodeLauncher_def codeLauncherTypeIsValid_def
        storage_contains_def\<close>)
next
  case (Some ws)
  show ?thesis
  proof (cases ws rule: rev_cases)
    case Nil
    show ?thesis
      by (rule block) (use Some Nil assms in \<open>simp_all add: getCodeLauncher_def codeLauncherTypeIsValid_def
          storage_contains_def on_store_def storage_extract_def\<close>)
  next
    case (snoc vs l)
    obtain i d where info: "getInfo c l (engine p) = (i, d)" by (cases "getInfo c l (engine p)")
    show ?thesis
      by (rule some[OF _ info]) (use Some snoc info assms in \<open>auto simp: getCodeLauncher_def
          codeLauncherTypeIsValid_def storage_contains_def on_store_def storage_extract_def on_engine_def sbind_def\<close>)
  qed
qed

lemma getInfo_fields: "getInfo c l d = (i, d') \<Longrightarrow> info_containerId i = containerId l \<and> info_type i = launcher_type l"
  by (auto simp: getInfo_def split: prod.splits)

lemma restart_returns:
  assumes "pool_wf p" and "info_type i \<in> dom (store p)"
  shows "\<exists>p'. restartCodeLauncher c i p = (Inr (), p') \<and> pool_wf p'"
proof -
  let ?d1 = "removeCodeLauncher c (info_containerId i) (engine p)"
  obtain r d2 where cr: "createCodeLauncher c (info_image i) (info_type i) ?d1 = (r, d2)"
    by (cases "createCodeLauncher c (info_image i) (info_type i) ?d1")
  have "launcher_type l = info_type i" if "r = Some l" for l
    using cr that by (auto simp: createCodeLauncher_def Let_def split: prod.splits if_splits)
  with cr assms show ?thesis
    by (cases r) (auto simp: restartCodeLauncher_def asyncRemoveCodeLauncher_def asyncCreateCodeLauncher_def sbind_def
        on_engine_def on_store_def storage_addValue_def pool_wf_def)
qed

interpretation lp: launcher_provider "getCodeLauncher c" "callbacked_runCode c" "callbacked_getInfo c"
  "callbacked_destructor c" pool_wf pool_held
  for c :: "'d docker_client"
proof
  show "pool_held h p'" if "pool_wf p" "getCodeLauncher c lang p = (Inr (Some h), p')"
    for lang h and p p' :: "'d pool"
    using that(2)
  proof (cases rule: getCodeLauncher_cases)
    case (some vs l i d)
    with that(1) getInfo_fields[OF some(2)] show ?thesis by (auto simp: pool_held_def pool_wf_def)
  qed simp_all
  show "p' = p" if "getCodeLauncher c lang p = (Inr None, p')" for lang and p p' :: "'d pool"
    using that by (cases rule: getCodeLauncher_cases) simp_all
  show "f = Block \<and> p' = p" if "getCodeLauncher c lang p = (Inl f, p')" for lang f and p p' :: "'d pool"
    using that by (cases rule: getCodeLauncher_cases) simp_all
  show "pool_held h p' \<and> orderly r" if "pool_held h p" "callbacked_runCode c h a args action p = (r, p')"
    for h a args action r and p p' :: "'d pool"
    using that by (auto simp: callbacked_runCode_def dest!: on_engine_result intro: orderly_runCode)
  show "pool_held h p' \<and> orderly i" if "pool_held h p" "callbacked_getInfo c h p = (i, p')"
    for h i and p p' :: "'d pool"
    using that by (auto simp: callbacked_getInfo_def dest!: on_engine_result split: prod.splits)
  show "\<exists>p'. callbacked_destructor c h p = (Inr (), p') \<and> pool_wf p'" if "pool_held h p"
    for h and p :: "'d pool"
    using that restart_returns[of p "m_restartInfo h" c] by (simp add: callbacked_destructor_def pool_held_def)
qed

section \<open>Every operation of the service is orderly\<close>

lemma orderly_run_tar: "orderly (run_tar tar fs)"
  by (auto simp: run_tar_def split: sum.splits)

lemma orderly_archives: "orderly (prepareData_chapter tar p)" "orderly (prepareData_playground tar q)"
  "orderly (prepareData_practice tar u)"
  by (simp_all only: prepareData_chapter_def prepareData_playground_def prepareData_practice_def makeTar_def
      makeProjectTar_def orderly_run_tar)

lemma sbind_sret: "sbind m sret = m"
  by (rule ext) (auto simp: sbind_def split: prod.splits sum.splits)

lemma report_held:
  assumes "pool_held h p"
    and "(if errorCodeIsUnexpected (sourceCode x) then sbind (callbacked_getInfo c h) (\<lambda>_. sret x) else sret x) p = (r, p')"
  shows "pool_held h p' \<and> orderly r"
proof (cases "callbacked_getInfo c h p")
  case (Pair i q)
  with assms lp.inform_held[OF assms(1) Pair] show ?thesis by (cases i) (auto split: if_splits)
qed

lemma report_returns:
  "\<exists>p'. (if errorCodeIsUnexpected (sourceCode x) then sbind (callbacked_getInfo c h) (\<lambda>_. sret x) else sret x) p = (Inr x, p')"
  by (simp add: callbacked_getInfo_def on_engine_def sbind_def case_prod_beta)

lemma chapter_body_held:
  assumes "pool_held h p"
    and "sbind (slift (prepareData_chapter tar params)) (\<lambda>archive.
      sbind (callbacked_runCode c h archive args action) (\<lambda>x.
        if errorCodeIsUnexpected (sourceCode x) then sbind (callbacked_getInfo c h) (\<lambda>_. sret x) else sret x)) p = (r, p')"
  shows "pool_held h p' \<and> orderly r"
  by (rule lp.run_then[OF assms(1) orderly_archives(1) _ assms(2)]) (rule report_held)

lemma plain_body_held:
  assumes "pool_held h p" and "orderly archive"
    and "sbind (slift archive) (\<lambda>a. callbacked_runCode c h a args action) p = (r, p')"
  shows "pool_held h p' \<and> orderly r"
proof -
  have run: "sbind (slift archive) (\<lambda>a. sbind (callbacked_runCode c h a args action) sret) p = (r, p')"
    using assms(3) by (simp only: sbind_sret)
  show ?thesis by (rule lp.run_then[OF assms(1,2) _ run]) auto
qed

lemma runChapter_wf:
  assumes "pool_wf p" and "runChapter c tar params p = (r, p')"
  shows "pool_wf p' \<and> (orderly r \<or> r = Inl Block \<and> p' = p)"
proof (cases "sourceRun params = [] \<and> sourceTest params = []")
  case True
  with assms show ?thesis by (auto simp: runChapter_def)
next
  case False
  note call = assms(2)[unfolded runChapter_def if_not_P[OF False]]
  show ?thesis
    by (rule lp.scope[OF assms(1) _ call]) (rule chapter_body_held)
qed

lemma runPlayground_wf:
  assumes "pool_wf p" and "runPlayground c tar params p = (r, p')"
  shows "pool_wf p' \<and> (orderly r \<or> r = Inl Block \<and> p' = p)"
  by (rule lp.scope[OF assms(1) _ assms(2)[unfolded runPlayground_def]])
    (rule plain_body_held[OF _ orderly_archives(2)])

lemma runPractice_wf:
  assumes "pool_wf p" and "runPractice c tar params p = (r, p')"
  shows "pool_wf p' \<and> (orderly r \<or> r = Inl Block \<and> p' = p)"
  by (rule lp.scope[OF assms(1) _ assms(2)[unfolded runPractice_def Let_def]])
    (rule plain_body_held[OF _ orderly_archives(3)])

section \<open>Every operation of the service is a run of the pool\<close>

text \<open>
  What a handler may do with a launcher: give up before running code, or run code once and ask for
  the image afterwards.
\<close>

definition uses_launcher :: "'d docker_client \<Rightarrow> CallbackedCodeLauncher \<Rightarrow> ('d pool, 'a) op \<Rightarrow> bool" where
  "uses_launcher c h body \<longleftrightarrow>
     (\<forall>p r p'. body p = (r, p') \<longrightarrow>
        p' = p \<or> (\<exists>archive args action x p1 i. callbacked_runCode c h archive args action p = (x, p1)
          \<and> (p' = p1 \<or> callbacked_getInfo c h p1 = (i, p'))))"

lemma uses_launcher_run:
  assumes "\<And>x p r p'. rest x p = (r, p') \<Longrightarrow> p' = p \<or> (\<exists>i. callbacked_getInfo c h p = (i, p'))"
  shows "uses_launcher c h (sbind (slift archive) (\<lambda>a. sbind (callbacked_runCode c h a args action) rest))"
  unfolding uses_launcher_def
proof (intro allI impI)
  fix p r p'
  assume b: "sbind (slift archive) (\<lambda>a. sbind (callbacked_runCode c h a args action) rest) p = (r, p')"
  show "p' = p \<or> (\<exists>archive args action x p1 i. callbacked_runCode c h archive args action p = (x, p1)
      \<and> (p' = p1 \<or> callbacked_getInfo c h p1 = (i, p')))"
  proof (cases archive)
    case (Inr a)
    obtain x p1 where x: "callbacked_runCode c h a args action p = (x, p1)"
      by (cases "callbacked_runCode c h a args action p")
    with b Inr have "p' = p1 \<or> (\<exists>i. callbacked_getInfo c h p1 = (i, p'))"
      using assms[of _ p1 r p'] by (cases x) auto
    with x show ?thesis by blast
  qed (use b in auto)
qed

lemma uses_launcher_plain: "uses_launcher c h (sbind (slift archive) (\<lambda>a. callbacked_runCode c h a args action))"
proof -
  have "uses_launcher c h (sbind (slift archive) (\<lambda>a. sbind (callbacked_runCode c h a args action) sret))"
    by (rule uses_launcher_run) auto
  then show ?thesis by (simp only: sbind_sret)
qed

lemma unwind_phases:
  assumes idle: "threads s t = Idle" and get: "getCodeLauncher c lang (sys_pool s) = (Inr (Some h), p1)"
    and dtor: "callbacked_destructor c h p1 = (Inr (), p4)"
  shows "\<exists>s'. (thread_step c t)\<^sup>*\<^sup>* (called t lang s) s' \<and> sys_pool s' = p4 \<and> threads s' = threads s
    \<and> served s' = served s @ [containerId (m_codeLauncher h)]"
proof -
  let ?s1 = "(goto t (Running h) p1 s)\<lparr>served := served s @ [containerId (m_codeLauncher h)]\<rparr>"
  let ?s3 = "goto t (Releasing (m_restartInfo h)) p1 ?s1"
  have "pool_step c ?s1 ?s3" using pool_step.unwind[of ?s1 t h c] by simp
  then have s3: "thread_step c t ?s1 ?s3" by (rule thread_stepI) simp_all
  obtain s4 where "(thread_step c t)\<^sup>*\<^sup>* ?s3 s4" "sys_pool s4 = p4" "threads s4 = (threads ?s3)(t := Idle)"
    "served s4 = served ?s3"
    using restart_phases[of ?s3 t "m_restartInfo h" c p4] dtor by (auto simp: callbacked_destructor_def)
  then show ?thesis
    using get_phases[OF get, of t] s3 idle
    by (intro exI[of _ s4]) (auto intro: rtranclp_trans r_into_rtranclp)
qed

text \<open>
  One call of the service on behalf of an idle thread \<open>t\<close>: it asks for a launcher of its language, goes through the
  phases of a request and is idle again.
\<close>

definition one_call :: "'d docker_client \<Rightarrow> nat \<Rightarrow> Language \<Rightarrow> 'd sys \<Rightarrow> 'd pool \<Rightarrow> bool" where
  "one_call c t lang s p \<longleftrightarrow> codeLauncherTypeIsValid lang (sys_pool s)
     \<and> (\<exists>s' i. (thread_step c t)\<^sup>*\<^sup>* (called t lang s) s' \<and> sys_pool s' = p \<and> threads s' = threads s
          \<and> served s' = served s @ [i])"

lemma one_callI:
  assumes "getCodeLauncher c lang (sys_pool s) = (Inr (Some h), p1)"
    and "\<exists>s'. (thread_step c t)\<^sup>*\<^sup>* (called t lang s) s' \<and> sys_pool s' = p \<and> threads s' = threads s
      \<and> served s' = served s @ [containerId (m_codeLauncher h)]"
  shows "one_call c t lang s p"
  unfolding one_call_def using getCodeLauncher_valid[OF assms(1)] assms(2) by blast

text \<open>
  What a call that asks for a launcher of \<open>lang\<close> does to the pool: nothing for a language without launchers or when
  it waits, and one call of the pool otherwise.
\<close>

definition call_outcome :: "'d docker_client \<Rightarrow> nat \<Rightarrow> Language \<Rightarrow> 'd sys \<Rightarrow> 'a res \<Rightarrow> 'd pool \<Rightarrow> bool" where
  "call_outcome c t lang s r p \<longleftrightarrow>
     \<not> codeLauncherTypeIsValid lang (sys_pool s) \<and> p = sys_pool s
     \<or> r = Inl Block \<and> p = sys_pool s \<or> one_call c t lang s p"

lemma call_outcome_steps:
  assumes "threads s t = Idle" and "call_outcome c t lang s r p"
  shows "\<exists>s' ids. (pool_step c)\<^sup>*\<^sup>* s s' \<and> sys_pool s' = p \<and> threads s' = threads s
    \<and> served s' = served s @ ids \<and> length ids \<le> 1"
proof (cases "one_call c t lang s p")
  case True
  then obtain s' i where "(thread_step c t)\<^sup>*\<^sup>* (called t lang s) s'" "sys_pool s' = p" "threads s' = threads s"
      "served s' = served s @ [i]" and "codeLauncherTypeIsValid lang (sys_pool s)"
    unfolding one_call_def by blast
  with called_steps[OF assms(1)] show ?thesis by (intro exI[of _ s'] exI[of _ "[i]"]) auto
next
  case False
  with assms(2) show ?thesis by (intro exI[of _ s] exI[of _ "[]"]) (auto simp: call_outcome_def)
qed

lemma scope_one_call:
  assumes idle: "threads s t = Idle" and wf: "pool_wf (sys_pool s)"
    and held: "\<And>h p r p'. pool_held h p \<Longrightarrow> body h p = (r, p') \<Longrightarrow> pool_held h p' \<and> orderly r"
    and uses: "\<And>h. uses_launcher c h (body h)"
    and call: "with_launcher (getCodeLauncher c lang) (callbacked_destructor c) none body (sys_pool s) = (r, p)"
  shows "call_outcome c t lang s r p"
proof (cases "getCodeLauncher c lang (sys_pool s)")
  case (Pair g p1)
  from Pair show ?thesis
  proof (cases rule: getCodeLauncher_cases)
    case none
    with Pair call show ?thesis
      by (simp add: with_launcher_def call_outcome_def codeLauncherTypeIsValid_def storage_contains_def)
  next
    case block
    with Pair call show ?thesis by (simp add: with_launcher_def call_outcome_def)
  next
    case (some vs l i d)
    then obtain h where get: "getCodeLauncher c lang (sys_pool s) = (Inr (Some h), p1)" using Pair by simp
    have h: "pool_held h p1" by (rule lp.get_held[OF wf get])
    obtain b p2 where b: "body h p1 = (b, p2)" by (cases "body h p1")
    obtain p4 where d: "callbacked_destructor c h p2 = (Inr (), p4)" using held[OF h b] lp.dtor_wf by blast
    have p: "p = p4" using call get b d held[OF h b] by (auto simp: with_launcher_def elim!: orderly_cases)
    consider "p2 = p1" | a args action x q i where "callbacked_runCode c h a args action p1 = (x, q)"
        "p2 = q \<or> callbacked_getInfo c h q = (i, p2)"
      using uses[of h] b unfolding uses_launcher_def by blast
    then have "one_call c t lang s p4"
    proof cases
      case 1
      with one_callI[OF get unwind_phases[OF idle get]] d show ?thesis by blast
    next
      case 2
      with one_callI[OF get serve_phases[OF idle get 2(1) 2(2) d]] show ?thesis by blast
    qed
    then show ?thesis by (simp add: call_outcome_def p)
  qed
qed

lemma runChapter_one_call:
  assumes "threads s t = Idle" and "pool_wf (sys_pool s)" and "runChapter c tar params (sys_pool s) = (r, p)"
  shows "if sourceRun params = [] \<and> sourceTest params = [] then p = sys_pool s \<and> (\<exists>x. r = Inr x)
    else call_outcome c t (language params) s r p"
proof (cases "sourceRun params = [] \<and> sourceTest params = []")
  case True
  with assms(3) show ?thesis by (auto simp: runChapter_def)
next
  case False
  note call = assms(3)[unfolded runChapter_def if_not_P[OF False]]
  have "call_outcome c t (language params) s r p"
  proof (rule scope_one_call[OF assms(1,2) _ _ call], goal_cases)
    case 1
    then show ?case by (rule chapter_body_held)
  next
    case (2 h)
    show ?case
      by (rule uses_launcher_run) (auto split: if_splits simp: sbind_def split: prod.splits sum.splits)
  qed
  with False show ?thesis by auto
qed

lemma plain_one_call:
  assumes "threads s t = Idle" and "pool_wf (sys_pool s)" and "orderly archive"
    and "with_launcher (getCodeLauncher c lang) (callbacked_destructor c) none
      (\<lambda>h. sbind (slift archive) (\<lambda>a. callbacked_runCode c h a args action)) (sys_pool s) = (r, p)"
  shows "call_outcome c t lang s r p"
proof (rule scope_one_call[OF assms(1,2) _ _ assms(4)], goal_cases)
  case (1 h p r p')
  then show ?case by (rule plain_body_held[OF _ assms(3)])
next
  case (2 h)
  show ?case by (rule uses_launcher_plain)
qed

lemma runPlayground_one_call:
  assumes "threads s t = Idle" and "pool_wf (sys_pool s)" and "runPlayground c tar params (sys_pool s) = (r, p)"
  shows "call_outcome c t (language params) s r p"
  by (rule plain_one_call[OF assms(1,2) orderly_archives(2) assms(3)[unfolded runPlayground_def]])

lemma runPractice_one_call:
  assumes "threads s t = Idle" and "pool_wf (sys_pool s)" and "runPractice c tar params (sys_pool s) = (r, p)"
  shows "call_outcome c t (practice_language params) s r p"
  by (rule plain_one_call[OF assms(1,2) orderly_archives(3) assms(3)[unfolded runPractice_def Let_def]])

lemma pool_inv_wf: "pool_inv issued s \<Longrightarrow> pool_wf (sys_pool s)"
  unfolding pool_wf_def using pool_invD(5)[of issued s] by (metis idle_list_Some)

section \<open>The answer of a run\<close>

text \<open>
  A launcher of the language is idle, the archive is built and the container accepts it; \<open>x\<close> is what running the
  command in the container gives.
\<close>

definition launcher_run ::
  "'d docker_client \<Rightarrow> Action \<Rightarrow> Language \<Rightarrow> string res \<Rightarrow> string list \<Rightarrow> 'd pool \<Rightarrow> ExecResult \<Rightarrow> bool" where
  "launcher_run c action lang archive args p x \<longleftrightarrow>
     (\<exists>vs l i a workdir d1 d2 d3. store p lang = Some (vs @ [l]) \<and> getInfo c l (engine p) = (i, d1)
        \<and> archive = Inr a \<and> map_of kDefaultPaths action = Some workdir
        \<and> putArchive c \<lparr>put_containerId = containerId l, put_path = workdir, put_archive = a,
            put_copyUIDGID = ''1''\<rparr> d1 = (True, d2)
        \<and> exec_container c \<lparr>exec_containerId = containerId l, exec_cmd = args\<rparr> d2 = (x, d3))"

lemma launcher_runI:
  fixes c :: "'d docker_client" and l :: BaseCodeLauncher and a workdir :: string
  defines "params \<equiv> \<lparr>put_containerId = containerId l, put_path = workdir, put_archive = a, put_copyUIDGID = ''1''\<rparr>"
  assumes "store p lang = Some (vs @ [l])" and "archive = Inr a" and "map_of kDefaultPaths action = Some workdir"
    and "fst (putArchive c params (snd (getInfo c l (engine p))))"
    and "fst (exec_container c \<lparr>exec_containerId = containerId l, exec_cmd = args\<rparr>
      (snd (putArchive c params (snd (getInfo c l (engine p)))))) = x"
  shows "launcher_run c action lang archive args p x"
  unfolding launcher_run_def using assms by (metis (full_types) prod.collapse)

definition chapter_run ::
  "'d docker_client \<Rightarrow> tar_creator \<Rightarrow> ChapterTaskParams \<Rightarrow> 'd pool \<Rightarrow> ExecResult \<Rightarrow> bool" where
  "chapter_run c tar params =
     launcher_run c Chapter (language params) (prepareData_chapter tar params)
       (getArgsCourse kFilenameTask (cmdLineArgs params))"

definition playground_run ::
  "'d docker_client \<Rightarrow> tar_creator \<Rightarrow> PlaygroundTaskParams \<Rightarrow> 'd pool \<Rightarrow> ExecResult \<Rightarrow> bool" where
  "playground_run c tar params =
     launcher_run c Playground (language params) (prepareData_playground tar params)
       (getArgsPlayground (project_name (project params)) (cmdLineArgs params))"

definition practice_run ::
  "'d docker_client \<Rightarrow> tar_creator \<Rightarrow> RunPracticeParams \<Rightarrow> 'd pool \<Rightarrow> ExecResult \<Rightarrow> bool" where
  "practice_run c tar params =
     launcher_run c Practice_api (practice_language params) (prepareData_practice tar params) (getPracticeDockerArgs params)"

text \<open>What \<open>runCode\<close> makes of the result of the command.\<close>

definition read_result :: "Action \<Rightarrow> ExecResult \<Rightarrow> Response res" where
  "read_result action x =
     (if exec_success x then
        (case action of
           Chapter \<Rightarrow> getCourseResponse (exec_message x)
         | Playground \<Rightarrow> getPlaygroungResponse (exec_message x)
         | Practice_api \<Rightarrow> getPracticeResponse (exec_message x))
      else Inr (mk_response kSuccessCode (exec_message x) None))"

lemma launcher_run_gives:
  assumes "pool_wf p" and "launcher_run c action lang archive args p x" and "read_result action x = Inr r"
  obtains h p1 a p2 where "getCodeLauncher c lang p = (Inr (Some h), p1)" and "pool_held h p1" and "archive = Inr a"
    and "callbacked_runCode c h a args action p1 = (Inr r, p2)"
proof -
  obtain vs l i a workdir d1 d2 d3 where st: "store p lang = Some (vs @ [l])"
    and info: "getInfo c l (engine p) = (i, d1)" and a: "archive = Inr a"
    and dir: "map_of kDefaultPaths action = Some workdir"
    and put: "putArchive c \<lparr>put_containerId = containerId l, put_path = workdir, put_archive = a,
        put_copyUIDGID = ''1''\<rparr> d1 = (True, d2)"
    and ex: "exec_container c \<lparr>exec_containerId = containerId l, exec_cmd = args\<rparr> d2 = (x, d3)"
    using assms(2) unfolding launcher_run_def by blast
  let ?h = "\<lparr>m_codeLauncher = l, m_restartInfo = i\<rparr>"
  let ?p1 = "p\<lparr>store := (store p)(lang \<mapsto> vs), engine := d1\<rparr>"
  have get: "getCodeLauncher c lang p = (Inr (Some ?h), ?p1)"
    using st info by (simp add: getCodeLauncher_def codeLauncherTypeIsValid_def storage_contains_def on_store_def
        storage_extract_def on_engine_def sbind_def)
  have "callbacked_runCode c ?h a args action ?p1 = (Inr r, ?p1\<lparr>engine := d3\<rparr>)"
    using put ex dir assms(3)
    by (cases action) (auto simp: callbacked_runCode_def on_engine_def runCode_def prepareCode_def sbind_def
        read_result_def bool_to_code_def kSuccessCode_def split: if_splits)
  from that[OF get lp.get_held[OF assms(1) get] a this] show ?thesis .
qed

lemma runChapter_answer:
  assumes "pool_wf p" and "sourceRun params \<noteq> [] \<or> sourceTest params \<noteq> []" and "chapter_run c tar params p x"
    and "read_result Chapter x = Inr r"
  shows "fst (runChapter c tar params p) = Inr r"
proof -
  obtain h p1 a p2 where get: "getCodeLauncher c (language params) p = (Inr (Some h), p1)" and held: "pool_held h p1"
    and a: "prepareData_chapter tar params = Inr a"
    and run: "callbacked_runCode c h a (getArgsCourse kFilenameTask (cmdLineArgs params)) Chapter p1 = (Inr r, p2)"
    by (rule launcher_run_gives[OF assms(1) assms(3)[unfolded chapter_run_def] assms(4)])
  let ?body = "\<lambda>h. sbind (slift (prepareData_chapter tar params)) (\<lambda>archive.
      sbind (callbacked_runCode c h archive (getArgsCourse kFilenameTask (cmdLineArgs params)) Chapter) (\<lambda>x.
        if errorCodeIsUnexpected (sourceCode x) then sbind (callbacked_getInfo c h) (\<lambda>_. sret x) else sret x))"
  obtain p3 where body: "?body h p1 = (Inr r, p3)" using a run report_returns[of r c h p2] by auto
  then obtain p4 where "callbacked_destructor c h p3 = (Inr (), p4)"
    using chapter_body_held[OF held body] lp.dtor_wf by blast
  with get body assms(2) show ?thesis by (auto simp: runChapter_def with_launcher_def)
qed

lemma plain_answer:
  assumes "pool_wf p" and "launcher_run c action lang archive args p x" and "read_result action x = Inr r"
    and "orderly archive"
  shows "fst (with_launcher (getCodeLauncher c lang) (callbacked_destructor c) none
    (\<lambda>h. sbind (slift archive) (\<lambda>a. callbacked_runCode c h a args action)) p) = Inr r"
proof -
  obtain h p1 a p2 where get: "getCodeLauncher c lang p = (Inr (Some h), p1)" and held: "pool_held h p1"
    and a: "archive = Inr a" and run: "callbacked_runCode c h a args action p1 = (Inr r, p2)"
    by (rule launcher_run_gives[OF assms(1-3)])
  then have body: "sbind (slift archive) (\<lambda>a. callbacked_runCode c h a args action) p1 = (Inr r, p2)" by simp
  then obtain p4 where "callbacked_destructor c h p2 = (Inr (), p4)"
    using plain_body_held[OF held assms(4) body] lp.dtor_wf by blast
  with get body show ?thesis by (simp add: with_launcher_def)
qed

lemma runPlayground_answer:
  assumes "pool_wf p" and "playground_run c tar params p x" and "read_result Playground x = Inr r"
  shows "fst (runPlayground c tar params p) = Inr r"
  unfolding runPlayground_def
  by (rule plain_answer[OF assms(1) assms(2)[unfolded playground_run_def] assms(3) orderly_archives(2)])

lemma runPractice_answer:
  assumes "pool_wf p" and "practice_run c tar params p x" and "read_result Practice_api x = Inr r"
  shows "fst (runPractice c tar params p) = Inr r"
  unfolding runPractice_def Let_def
  by (rule plain_answer[OF assms(1) assms(2)[unfolded practice_run_def] assms(3) orderly_archives(3)])

section \<open>A concrete run\<close>

definition demo_pool :: "nat pool" where
  "demo_pool = \<lparr>engine = 1, store = [CPP \<mapsto> [\<lparr>containerId = ''c'', launcher_type = CPP\<rparr>]]\<rparr>"

definition demo_chapter :: ChapterTaskParams where
  "demo_chapter = \<lparr>language = CPP, cmdLineArgs = [], sourceRun = ''int main() {}'', sourceTest = []\<rparr>"

text \<open>The archive writer of the examples puts names and contents one after the other.\<close>

definition plain_tar :: tar_creator where
  "plain_tar fs = Inr (concat (map (\<lambda>f. tar_path f @ '':'' @ tar_content f @ '';'') fs))"

text \<open>An engine on which no command can be run.\<close>

definition no_exec :: "nat docker_client" where
  "no_exec = demo\<lparr>client_exec := (\<lambda>_ n. ((False, ''no such exec instance''), n))\<rparr>"

lemma demo_pool_wf: "pool_wf demo_pool"
  by (simp add: pool_wf_def demo_pool_def)

lemma demo_archive: "prepareData_chapter plain_tar demo_chapter = Inr ''task:int main() {};task_tests:;''"
  by (simp add: prepareData_chapter_def makeTar_def tar_selected_def tar_entry_def run_tar_def plain_tar_def
      demo_chapter_def kFilenameTask_def kFilenameTaskTests_def)

lemma no_exec_run: "chapter_run no_exec plain_tar demo_chapter demo_pool
    \<lparr>exec_success = False, exec_message = ''no such exec instance''\<rparr>"
  unfolding chapter_run_def
  by (rule launcher_runI[where vs = "[]"])
    (simp_all add: demo_pool_def demo_archive kDefaultPaths_def no_exec_def demo_defs, simp_all add: demo_chapter_def)

section \<open>Properties\<close>

text \<open>
  C35. A command that could not be executed is reported as a success: when the engine refuses the
  command of a chapter, the status code of the response is \<open>kSuccessCode\<close>, because the \<open>bool\<close> \<open>false\<close>
  is stored in it, and the output is the error message of the engine.
\<close>

theorem exec_failure_is_success:
  assumes "pool_wf p" and "sourceRun params \<noteq> []"
    and "chapter_run c tar params p \<lparr>exec_success = False, exec_message = msg\<rparr>"
  shows "fst (runChapter c tar params p) = Inr (mk_response kSuccessCode msg None)"
  by (rule runChapter_answer[OF assms(1) _ assms(3)]) (use assms(2) in \<open>simp_all add: read_result_def\<close>)

theorem exec_failure_is_success_witness:
  "fst (runChapter no_exec plain_tar demo_chapter demo_pool)
   = Inr (mk_response kSuccessCode ''no such exec instance'' None)"
  by (rule exec_failure_is_success[OF demo_pool_wf _ no_exec_run]) (simp add: demo_chapter_def)

text \<open>
  What a chapter request sends to the container: the sources as file \<open>task\<close> unless they are empty,
  and then always the tests as file \<open>task_tests\<close>, also when they are empty; both as regular files.
\<close>

theorem chapter_archive:
  "prepareData_chapter tar params = run_tar tar
     ((if sourceRun params = [] then [] else
         [\<lparr>tar_path = ''task'', tar_content = sourceRun params, tar_type = RegularFile, tar_attributes = None\<rparr>])
      @ [\<lparr>tar_path = ''task_tests'', tar_content = sourceTest params, tar_type = RegularFile, tar_attributes = None\<rparr>])"
  by (simp add: prepareData_chapter_def makeTar_def tar_selected_def tar_entry_def kFilenameTask_def
      kFilenameTaskTests_def)

end
