(* ===== verification/Json_Fuel.thy ===== *)
theory Json_Fuel
  imports Json_Reader
begin

text \<open>
  Termination of the JSON reader: every call consumes input, so the fuel that \<open>Parse\<close> passes is
  enough, more fuel changes nothing, and a document that is read with any fuel is read by \<open>Parse\<close>.
\<close>

section \<open>Every call consumes input\<close>

lemma SkipWhitespace_length: "length (SkipWhitespace is) \<le> length is"
  by (simp add: SkipWhitespace_def length_dropWhile_le)

lemma ParseStringToStream_length:
  "ParseStringToStream os is = Inr (s, r) \<Longrightarrow> length r < length is"
proof (induction os "is" rule: ParseStringToStream.induct)
  case (2 os c "is")
  show ?case
  proof (cases "c = CHR 0x5C")
    case True
    with "2.prems" obtain w is' where e: "parse_escape (c # is) is = Inr (w, is')"
      and r: "ParseStringToStream (os @ w) is' = Inr (s, r)" by (auto split: sum.splits)
    from "2.IH"(1)[OF True e refl r] parse_escape_length[OF e] show ?thesis by simp
  next
    case False
    with 2 show ?thesis by (fastforce split: if_splits)
  qed
qed simp

lemma ParseString_length: "ParseString is = Inr (s, r) \<Longrightarrow> length r + 1 < length is"
  unfolding ParseString_def by (cases "is") (auto dest: ParseStringToStream_length)

lemma int_loop_length: "int_loop neg i is = (j, b, r) \<Longrightarrow> length r \<le> length is"
  by (induction "is" arbitrary: i) (fastforce split: if_splits)+

lemma int64_loop_length: "int64_loop neg i is = (j, b, r) \<Longrightarrow> length r \<le> length is"
  by (induction "is" arbitrary: i) (fastforce split: if_splits)+

lemma is_digit_NUL [simp]: "\<not> is_digit (CHR 0x00)"
  by (simp add: is_digit_def)

lemma parse_int_length:
  assumes "parse_int neg is = Inr (v, r)"
  shows "length r < length is"
proof (cases "is")
  case (Cons c cs)
  obtain i u is1 where l1: "int_loop neg (word_of_nat (digit c)) cs = (i, u, is1)"
    by (cases "int_loop neg (word_of_nat (digit c)) cs")
  obtain i64 d is2 where l2: "int64_loop neg (ucast i) is1 = (i64, d, is2)"
    by (cases "int64_loop neg (ucast i) is1 :: 64 word \<times> _")
  have "length is1 \<le> length cs" "length is2 \<le> length is1" "length (dropWhile is_digit is2) \<le> length is2"
    using int_loop_length[OF l1] int64_loop_length[OF l2] length_dropWhile_le by auto
  then show ?thesis
    using assms Cons by (simp add: parse_int_def l1 l2 split: if_splits)
qed (use assms in \<open>simp add: parse_int_def\<close>)

lemma parse_frac_length: "parse_frac is = Inr (v, r) \<Longrightarrow> length r \<le> length is"
  using length_dropWhile_le[of is_digit "tl is"]
  by (auto simp: parse_frac_def Consume_Some split: option.splits if_splits)

lemma parse_exp_length:
  assumes "parse_exp is = Inr (v, r)"
  shows "length r \<le> length is"
proof -
  let ?is2 = "if Peek (tl is) = CHR ''+'' \<or> Peek (tl is) = CHR ''-'' then tl (tl is) else tl is"
  have "r = is \<or> r = dropWhile is_digit ?is2"
    using assms unfolding parse_exp_def Let_def by (simp split: if_split_asm) blast
  moreover have "length (dropWhile is_digit ?is2) \<le> length is"
    by (rule order.trans[OF length_dropWhile_le]) simp
  ultimately show ?thesis by (elim disjE) simp_all
qed

lemma ParseNumber_length: "ParseNumber too_big is = Inr (v, r) \<Longrightarrow> length r < length is"
proof -
  assume a: "ParseNumber too_big is = Inr (v, r)"
  let ?neg = "Peek is = CHR ''-''"
  let ?is0 = "if ?neg then tl is else is"
  obtain big n is1 frac is2 expo where "parse_int ?neg ?is0 = Inr ((big, n), is1)"
    "parse_frac is1 = Inr (frac, is2)" "parse_exp is2 = Inr (expo, r)"
    using a by (auto simp: ParseNumber_def Let_def split: sum.splits prod.splits if_splits)
  then have "length r < length ?is0"
    using parse_int_length parse_frac_length parse_exp_length by (metis order.strict_trans1 order.trans)
  then show ?thesis by (auto split: if_splits)
qed

lemma parse_word_length: "parse_word v cs is = Inr (w, r) \<Longrightarrow> is \<noteq> [] \<Longrightarrow> length r < length is"
  by (cases "is") (auto simp: parse_word_def less_Suc_eq_le split: sum.splits dest: consume_all_length)

lemmas consumed = ParseString_length ParseNumber_length parse_word_length

section \<open>Fuel\<close>

lemma Consume_None: "Consume is c = None \<longleftrightarrow> (is = [] \<or> hd is \<noteq> c)"
  by (cases "is") (auto simp: Consume_def)

definition parses :: "nat \<Rightarrow> 'a pres option \<Rightarrow> bool" where
  "parses n x \<longleftrightarrow> (case x of None \<Rightarrow> False | Some (Inl _) \<Rightarrow> True | Some (Inr (_, r)) \<Rightarrow> length r < n)"

lemma parses_simps [simp]:
  "\<not> parses n None" "parses n (Some (Inl e))" "parses n (Some (Inr (v, r))) \<longleftrightarrow> length r < n"
  by (simp_all add: parses_def)

lemma parses_mono: "parses m x \<Longrightarrow> m \<le> n \<Longrightarrow> parses n x"
  by (auto simp: parses_def split: option.splits sum.splits)

lemma parses_word: "is \<noteq> [] \<Longrightarrow> parses (length is) (Some (parse_word v cs is))"
  using parse_word_length[of v cs "is"] by (cases "parse_word v cs is") auto

lemma parses_number: "parses (length is) (Some (ParseNumber too_big is))"
  using ParseNumber_length[of too_big "is"] by (cases "ParseNumber too_big is") auto

lemma parses_string:
  "parses (length is) (Some (case ParseString is of Inl err \<Rightarrow> Inl err | Inr (s, r) \<Rightarrow> Inr (JString s, r)))"
  using ParseString_length[of "is"] by (cases "ParseString is") auto

lemma skip_tl_length: "is \<noteq> [] \<Longrightarrow> length (SkipWhitespace (tl is)) < length is"
  using SkipWhitespace_length[of "tl is"] by (cases "is") (auto simp: less_Suc_eq_le)

lemma parse_enough:
  "2 * length is < n \<Longrightarrow> parses (length is) (ParseValue too_big n is)"
  "2 * length is < n \<Longrightarrow> parses (length is) (ParseMembers too_big n ms is)"
  "2 * length is + 1 < n \<Longrightarrow> parses (length is) (ParseElements too_big n vs is)"
proof (induction too_big n "is" and too_big n ms "is" and too_big n vs "is"
    rule: ParseValue_ParseMembers_ParseElements.induct)
  case (2 too_big n "is")
  show ?case
  proof (cases "is")
    case Nil
    then show ?thesis using parses_number[of "[]" too_big] by simp
  next
    case (Cons c cs)
    note skip = SkipWhitespace_length[of cs]
    show ?thesis
    proof (cases "c = CHR 0x7B")
      case True
      then show ?thesis
        using 2 Cons skip by (auto simp: Let_def Consume_Some split: option.splits intro: parses_mono)
    next
      case no_obj: False
      show ?thesis
      proof (cases "c = CHR 0x5B")
        case True
        then show ?thesis
          using 2 Cons skip by (auto simp: Let_def Consume_Some split: option.splits intro: parses_mono)
      next
        case False
        then show ?thesis
          using parses_word[of "is"] parses_number[of "is" too_big] parses_string[of "is"] no_obj
          by (simp add: Cons del: parses_simps) (auto simp del: parses_simps)
      qed
    qed
  qed
next
  case (4 too_big n ms "is")
  show ?case
  proof (cases "Peek is = CHR 0x22")
    case quote: True
    show ?thesis
    proof (cases "ParseString is")
      case str: (Inr b)
      obtain name is1 where b: "b = (name, is1)" by (cases b)
      have l1: "length is1 + 1 < length is" using ParseString_length str b by simp
      let ?is2 = "SkipWhitespace is1"
      show ?thesis
      proof (cases "Consume ?is2 (CHR '':'')")
        case None
        with quote str b show ?thesis by simp
      next
        case (Some is3)
        let ?v = "SkipWhitespace is3"
        have l2: "length ?v < length is1"
          using Some SkipWhitespace_length[of is1] SkipWhitespace_length[of is3] by (simp add: Consume_Some)
        then have IH: "parses (length ?v) (ParseValue too_big n ?v)"
          using "4.IH"(1)[OF _ str b[symmetric] refl Some] quote "4.prems" l1 by simp
        show ?thesis
        proof (cases "ParseValue too_big n ?v")
          case None
          with IH show ?thesis by simp
        next
          case val: (Some res)
          show ?thesis
          proof (cases res)
            case (Inl err)
            with quote str b Some val show ?thesis by simp
          next
            case (Inr q)
            obtain v is4 where q: "q = (v, is4)" by (cases q)
            let ?is5 = "SkipWhitespace is4"
            have l4: "length ?is5 < length is" "length ?is5 < length ?v"
              using IH val Inr q l1 l2 SkipWhitespace_length[of is4] by auto
            show ?thesis
            proof (cases "Peek ?is5 = CHR '',''")
              case True
              then have ne: "?is5 \<noteq> []" by auto
              have l5: "length (SkipWhitespace (tl ?is5)) < length ?is5" using skip_tl_length[OF ne] .
              have "parses (length (SkipWhitespace (tl ?is5)))
                  (ParseMembers too_big n (ms @ [(name, v)]) (SkipWhitespace (tl ?is5)))"
                using "4.IH"(2)[OF _ str b[symmetric] refl Some val Inr q[symmetric] refl refl True] quote "4.prems" l1 l2 l4 l5 by simp
              then show ?thesis
                using quote str b Some val Inr q True l4 l5 by (auto simp: Let_def intro: parses_mono)
            next
              case False
              then show ?thesis using quote str b Some val Inr q l4 by (auto simp: Let_def)
            qed
          qed
        qed
      qed
    qed (use quote in simp)
  qed simp
next
  case (6 too_big n vs "is")
  have IH: "parses (length is) (ParseValue too_big n is)" using 6 by simp
  show ?case
  proof (cases "ParseValue too_big n is")
    case None
    with IH show ?thesis by simp
  next
    case val: (Some res)
    show ?thesis
    proof (cases res)
      case (Inl err)
      with val show ?thesis by simp
    next
      case (Inr q)
      obtain v is1 where q: "q = (v, is1)" by (cases q)
      let ?is2 = "SkipWhitespace is1"
      have l2: "length ?is2 < length is" using IH val Inr q SkipWhitespace_length[of is1] by auto
      show ?thesis
      proof (cases "Peek ?is2 = CHR '',''")
        case True
        then have ne: "?is2 \<noteq> []" by auto
        have l3: "length (SkipWhitespace (tl ?is2)) < length ?is2" using skip_tl_length[OF ne] .
        have "parses (length (SkipWhitespace (tl ?is2)))
            (ParseElements too_big n (vs @ [v]) (SkipWhitespace (tl ?is2)))"
          using "6.IH"(2)[OF val Inr q[symmetric] refl refl True] "6.prems" l2 l3 by simp
        then show ?thesis using val Inr q True l2 l3 by (auto simp: Let_def intro: parses_mono)
      next
        case False
        then show ?thesis using val Inr q l2 by (auto simp: Let_def)
      qed
    qed
  qed
qed simp_all

lemma parse_mono:
  "ParseValue too_big n is = Some x \<Longrightarrow> n \<le> m \<Longrightarrow> ParseValue too_big m is = Some x"
  "ParseMembers too_big n ms is = Some x \<Longrightarrow> n \<le> m \<Longrightarrow> ParseMembers too_big m ms is = Some x"
  "ParseElements too_big n vs is = Some x \<Longrightarrow> n \<le> m \<Longrightarrow> ParseElements too_big m vs is = Some x"
proof (induction too_big n "is" and too_big n ms "is" and too_big n vs "is" arbitrary: m x and m x and m x
    rule: ParseValue_ParseMembers_ParseElements.induct)
  case (2 too_big n "is")
  obtain k where k: "m = Suc k" "n \<le> k" using "2.prems"(2) by (cases m) auto
  have no_obj: ?case if "Peek is \<noteq> CHR 0x7B" and "Peek is \<noteq> CHR 0x5B"
  proof -
    have "ParseValue too_big (Suc k) is = ParseValue too_big (Suc n) is" using that by simp
    with "2.prems"(1) show ?thesis unfolding k(1) by (simp only:)
  qed
  let ?r = "SkipWhitespace (tl is)"
  show ?case
  proof (cases "Peek is = CHR 0x7B")
    case obj: True
    show ?thesis
    proof (cases "Consume ?r (CHR 0x7D)")
      case None
      have "ParseMembers too_big n [] ?r = Some x" using "2.prems"(1) obj None by simp
      from "2.IH"(1)[OF _ _ _ _ obj refl None this k(2)] obj
      have "ParseMembers too_big k [] ?r = Some x" by simp
      then show ?thesis using obj None by (simp add: k(1))
    next
      case (Some r)
      then show ?thesis using "2.prems"(1) obj by (simp add: k(1))
    qed
  next
    case no_brace: False
    show ?thesis
    proof (cases "Peek is = CHR 0x5B")
      case arr: True
      show ?thesis
      proof (cases "Consume ?r (CHR 0x5D)")
        case None
        have "ParseElements too_big n [] ?r = Some x" using "2.prems"(1) arr None by simp
        from "2.IH"(2)[OF _ _ _ _ _ arr refl None this k(2)] arr
        have "ParseElements too_big k [] ?r = Some x" by simp
        then show ?thesis using arr None by (simp add: k(1))
      next
        case (Some r)
        then show ?thesis using "2.prems"(1) arr by (simp add: k(1))
      qed
    qed (use no_obj no_brace in blast)
  qed
next
  case (4 too_big n ms "is")
  obtain k where k: "m = Suc k" "n \<le> k" using "4.prems"(2) by (cases m) auto
  show ?case
  proof (cases "Peek is = CHR 0x22 \<and> (\<exists>b. ParseString is = Inr b)")
    case False
    then show ?thesis using "4.prems" k by (auto split: sum.splits if_splits)
  next
    case True
    then obtain name is1 where str: "ParseString is = Inr (name, is1)" by auto
    show ?thesis
    proof (cases "Consume (SkipWhitespace is1) (CHR '':'')")
      case None
      then show ?thesis using "4.prems" k True str by auto
    next
      case (Some is3)
      let ?v = "SkipWhitespace is3"
      obtain res where val: "ParseValue too_big n ?v = Some res"
        using "4.prems"(1) True str Some by (cases "ParseValue too_big n ?v") (auto split: if_splits)
      have val': "ParseValue too_big k ?v = Some res"
        using "4.IH"(1)[OF _ str refl refl Some val k(2)] True by simp
      show ?thesis
      proof (cases res)
        case (Inl err)
        then show ?thesis using "4.prems" k True str Some val val' by auto
      next
        case (Inr q)
        obtain v is4 where q: "q = (v, is4)" by (cases q)
        show ?thesis
        proof (cases "Peek (SkipWhitespace is4) = CHR '',''")
          case comma: True
          show ?thesis
            using "4.prems"(1) "4.IH"(2)[OF _ str refl refl Some val Inr q[symmetric] refl refl comma _ k(2)]
              k True str Some val val' Inr q comma by (simp add: Let_def)
        next
          case False
          then show ?thesis using "4.prems" k True str Some val val' Inr q by (simp add: Let_def)
        qed
      qed
    qed
  qed
next
  case (6 too_big n vs "is")
  obtain k where k: "m = Suc k" "n \<le> k" using "6.prems"(2) by (cases m) auto
  obtain res where val: "ParseValue too_big n is = Some res"
    using "6.prems"(1) by (cases "ParseValue too_big n is") auto
  have val': "ParseValue too_big k is = Some res" using "6.IH"(1)[OF val k(2)] .
  show ?case
  proof (cases res)
    case (Inl err)
    then show ?thesis using "6.prems" k val val' by auto
  next
    case (Inr q)
    obtain v is1 where q: "q = (v, is1)" by (cases q)
    show ?thesis
    proof (cases "Peek (SkipWhitespace is1) = CHR '',''")
      case comma: True
      show ?thesis
        using "6.prems"(1) "6.IH"(2)[OF val Inr q[symmetric] refl refl comma _ k(2)] k val val' Inr q comma
        by (simp add: Let_def)
    next
      case False
      then show ?thesis using "6.prems" k val val' Inr q by (simp add: Let_def)
    qed
  qed
qed simp_all

lemma parse_fuel:
  assumes "ParseValue too_big n is = Some x"
  shows "ParseValue too_big (Suc (2 * length is)) is = Some x"
proof -
  obtain y where y: "ParseValue too_big (Suc (2 * length is)) is = Some y"
    using parse_enough(1)[of "is" "Suc (2 * length is)" too_big]
    by (cases "ParseValue too_big (Suc (2 * length is)) is") auto
  then show ?thesis
    using parse_mono(1)[OF assms, of "max n (Suc (2 * length is))"] parse_mono(1)[OF y, of "max n (Suc (2 * length is))"]
    by simp
qed

lemma Parse_value:
  assumes "ParseValue too_big n is = Some (Inr (v, r))" and "SkipWhitespace (c_str text) = is"
    and "SkipWhitespace r = []"
  shows "Parse too_big text = Inr v"
proof -
  note val = parse_fuel[OF assms(1)]
  have ne: "is \<noteq> []"
    using parse_enough(1)[of "is" "Suc (2 * length is)" too_big] val by auto
  have nul: "Peek is \<noteq> CHR 0x00"
  proof -
    have "CHR 0x00 \<notin> set (c_str text)" by (auto simp: c_str_def dest: set_takeWhileD)
    then have "CHR 0x00 \<notin> set is"
      using assms(2) by (auto simp: SkipWhitespace_def dest: set_dropWhileD)
    with ne show ?thesis by (cases "is") auto
  qed
  show ?thesis
    unfolding Parse_def Let_def assms(2) using val nul assms(3) by simp
qed

section \<open>Properties\<close>

text \<open>
  C28. The JSON reader returns for every input: each level of recursion consumes input, so a depth of twice the
  length of the text is enough, every larger bound gives the same result, and that result is what \<open>Parse\<close> reads.
\<close>

theorem reader_terminates:
  assumes "2 * length is < n"
  shows "\<exists>x. ParseValue too_big n is = Some x \<and> ParseValue too_big (Suc (2 * length is)) is = Some x"
proof -
  obtain x where x: "ParseValue too_big n is = Some x"
    using parse_enough(1)[OF assms, of too_big] by (cases "ParseValue too_big n is") auto
  from parse_fuel[OF x] x show ?thesis by blast
qed

theorem reader_terminates_witness:
  "\<exists>x. ParseValue (\<lambda>_. False) 100 ''[[],[7]]'' = Some x \<and> ParseValue (\<lambda>_. False) 17 ''[[],[7]]'' = Some x"
  using reader_terminates[of "''[[],[7]]''" 100 "\<lambda>_. False"] by (simp del: ParseValue.simps)

end
