(* ===== verification/Json_Itoa.thy ===== *)
theory Json_Itoa
  imports Watchman_Prelude
begin

text \<open>
  \<open>third_party/rapidjson/include/rapidjson/internal/itoa.h\<close>: the table-driven conversion of 64-bit
  integers to decimal, kept at the widths of the code, and its equivalence with the schoolbook
  conversion \<open>dec\<close>.
\<close>

unbundle bit_operations_syntax

section \<open>The code\<close>

definition cDigitsLut :: string where
  "cDigitsLut =
     ''00010203040506070809'' @ ''10111213141516171819'' @ ''20212223242526272829'' @
     ''30313233343536373839'' @ ''40414243444546474849'' @ ''50515253545556575859'' @
     ''60616263646566676869'' @ ''70717273747576777879'' @ ''80818283848586878889'' @
     ''90919293949596979899''"

definition lut :: "32 word \<Rightarrow> char" where
  "lut d = cDigitsLut ! unat d"

definition put :: "bool \<Rightarrow> char \<Rightarrow> string" where
  "put b c = (if b then [c] else [])"

definition lut2 :: "32 word \<Rightarrow> string" where
  "lut2 d = [lut d, lut (d + 1)]"

definition digit_char :: "32 word \<Rightarrow> char" where
  "digit_char a = char_of (48 + unat a)"

definition twice :: "32 word \<Rightarrow> 32 word" where
  "twice d = push_bit 1 d"

definition kTen8 :: "64 word" where
  "kTen8 = 100000000"

definition kTen16 :: "64 word" where
  "kTen16 = kTen8 * kTen8"

text \<open>The eight digits of \<open>v\<close>, as the second and third branch of \<open>u64toa\<close> print them.\<close>

definition put8 :: "32 word \<Rightarrow> string" where
  "put8 v =
     (let b = v div 10000; c = v mod 10000;
          d1 = twice (b div 100); d2 = twice (b mod 100);
          d3 = twice (c div 100); d4 = twice (c mod 100) in
      lut2 d1 @ lut2 d2 @ lut2 d3 @ lut2 d4)"

definition u64toa :: "64 word \<Rightarrow> string" where
  "u64toa value =
     (if value < kTen8 then
        (let v = ucast value :: 32 word in
         if v < 10000 then
           (let d1 = twice (v div 100); d2 = twice (v mod 100) in
            put (v \<ge> 1000) (lut d1) @ put (v \<ge> 100) (lut (d1 + 1)) @ put (v \<ge> 10) (lut d2)
            @ [lut (d2 + 1)])
         else
           (let b = v div 10000; c = v mod 10000;
                d1 = twice (b div 100); d2 = twice (b mod 100);
                d3 = twice (c div 100); d4 = twice (c mod 100) in
            put (value \<ge> 10000000) (lut d1) @ put (value \<ge> 1000000) (lut (d1 + 1))
            @ put (value \<ge> 100000) (lut d2) @ [lut (d2 + 1)] @ lut2 d3 @ lut2 d4))
      else if value < kTen16 then
        (let v0 = ucast (value div kTen8) :: 32 word; v1 = ucast (value mod kTen8) :: 32 word;
             b0 = v0 div 10000; c0 = v0 mod 10000;
             d1 = twice (b0 div 100); d2 = twice (b0 mod 100);
             d3 = twice (c0 div 100); d4 = twice (c0 mod 100) in
         put (value \<ge> kTen8 * 10000000) (lut d1) @ put (value \<ge> kTen8 * 1000000) (lut (d1 + 1))
         @ put (value \<ge> kTen8 * 100000) (lut d2) @ put (value \<ge> kTen8 * 10000) (lut (d2 + 1))
         @ put (value \<ge> kTen8 * 1000) (lut d3) @ put (value \<ge> kTen8 * 100) (lut (d3 + 1))
         @ put (value \<ge> kTen8 * 10) (lut d4) @ [lut (d4 + 1)] @ put8 v1)
      else
        (let a = ucast (value div kTen16) :: 32 word; value = value mod kTen16;
             v0 = ucast (value div kTen8) :: 32 word; v1 = ucast (value mod kTen8) :: 32 word in
         (if a < 10 then [digit_char a]
          else if a < 100 then lut2 (twice a)
          else if a < 1000 then digit_char (a div 100) # lut2 (twice (a mod 100))
          else lut2 (twice (a div 100)) @ lut2 (twice (a mod 100)))
         @ put8 v0 @ put8 v1))"

definition i64toa :: "64 word \<Rightarrow> string" where
  "i64toa value = (if value <s 0 then CHR ''-'' # u64toa (NOT value + 1) else u64toa value)"

section \<open>The reference\<close>

definition dg :: "nat \<Rightarrow> char" where
  "dg n = char_of (48 + n)"

fun dec :: "nat \<Rightarrow> string" where
  "dec n = (if n < 10 then [dg n] else dec (n div 10) @ [dg (n mod 10)])"

declare dec.simps [simp del]

definition dec_int :: "int \<Rightarrow> string" where
  "dec_int i = (if i < 0 then CHR ''-'' # dec (nat (- i)) else dec (nat i))"

fun pad :: "nat \<Rightarrow> nat \<Rightarrow> string" where
  "pad 0 n = []"
| "pad (Suc k) n = pad k (n div 10) @ [dg (n mod 10)]"

lemma dec_split: "10 ^ k \<le> n \<Longrightarrow> dec n = dec (n div 10 ^ k) @ pad k (n mod 10 ^ k)"
proof (induction k arbitrary: n)
  case 0
  then show ?case by simp
next
  case (Suc k)
  have "10 ^ k \<le> n div 10" and "\<not> n < 10"
    using Suc.prems by (simp_all add: less_eq_div_iff_mult_less_eq) (smt (verit) Suc.prems mult_le_cancel1 one_le_power power_Suc mult.right_neutral le_trans not_less numeral_le_one_iff one_le_numeral)
  then have "dec n = (dec (n div 10 div 10 ^ k) @ pad k (n div 10 mod 10 ^ k)) @ [dg (n mod 10)]"
    using Suc.IH[of "n div 10"] by (subst dec.simps) simp
  moreover have "n mod 10 ^ Suc k div 10 = n div 10 mod 10 ^ k" "n mod 10 ^ Suc k mod 10 = n mod 10"
    by (simp_all add: mod_mult2_eq mod_mod_cancel)
  ultimately show ?case by (simp add: div_mult2_eq)
qed

lemma digit_facts:
  fixes n :: nat
  shows "n mod 100 mod 10 = n mod 10" "n mod 100 div 10 = n div 10 mod 10"
    "n div 10 div 10 = n div 100" "n div 100 div 10 = n div 1000" "n div 10 div 100 = n div 1000"
  using mod_mult2_eq[of n 10 10] by (simp_all add: mod_mod_cancel flip: div_mult2_eq)

lemma pad_numeral: "pad (numeral k) n = pad (pred_numeral k) (n div 10) @ [dg (n mod 10)]"
  by (subst numeral_eq_Suc, rule pad.simps)

abbreviation digits4 :: "nat \<Rightarrow> string" where
  "digits4 n \<equiv> [dg (n div 100 div 10), dg (n div 100 mod 10), dg (n mod 100 div 10), dg (n mod 100 mod 10)]"

lemma pad4: "n < 10000 \<Longrightarrow> pad 4 n = digits4 n"
  by (simp add: pad_numeral digit_facts)

lemma pad_split: "pad (j + k) m = pad j (m div 10 ^ k) @ pad k (m mod 10 ^ k)"
proof (induction k arbitrary: m)
  case (Suc k)
  have "m mod 10 ^ Suc k div 10 = m div 10 mod 10 ^ k" "m mod 10 ^ Suc k mod 10 = m mod 10"
    by (simp_all add: mod_mult2_eq mod_mod_cancel)
  with Suc[of "m div 10"] show ?case by (simp add: div_mult2_eq)
qed simp

lemma pad8: "n < 100000000 \<Longrightarrow> pad 8 n = digits4 (n div 10000) @ digits4 (n mod 10000)"
proof -
  assume "n < 100000000"
  with pad_split[of 4 4 n] pad4[of "n div 10000"] pad4[of "n mod 10000"] show ?thesis by simp
qed

lemma dec4:
  "n < 10000 \<Longrightarrow> dec n = put (1000 \<le> n) (dg (n div 100 div 10)) @ put (100 \<le> n) (dg (n div 100 mod 10))
     @ put (10 \<le> n) (dg (n mod 100 div 10)) @ [dg (n mod 100 mod 10)]"
  by (cases "n < 10"; cases "n < 100"; cases "n < 1000")
    (simp_all add: dec.simps put_def digit_facts div_less_iff_less_mult)

lemma dec8:
  assumes "n < 100000000" and "10000 \<le> n"
  shows "dec n = put (10000000 \<le> n) (dg (n div 10000 div 100 div 10))
     @ put (1000000 \<le> n) (dg (n div 10000 div 100 mod 10))
     @ put (100000 \<le> n) (dg (n div 10000 mod 100 div 10)) @ [dg (n div 10000 mod 100 mod 10)]
     @ digits4 (n mod 10000)"
  using dec_split[of 4 n] dec4[of "n div 10000"] pad4[of "n mod 10000"] assms
  by (simp add: less_eq_div_iff_mult_less_eq)

lemma lut_nat: "k < 100 \<Longrightarrow> cDigitsLut ! (2 * k) = dg (k div 10) \<and> cDigitsLut ! (2 * k + 1) = dg (k mod 10)"
proof -
  have "\<forall>k \<in> set [0..<100]. cDigitsLut ! (2 * k) = dg (k div 10) \<and> cDigitsLut ! (2 * k + 1) = dg (k mod 10)"
    by code_simp
  then show "k < 100 \<Longrightarrow> ?thesis" by simp
qed

lemma lut_word:
  assumes "unat d < 100"
  shows "lut (twice d) = dg (unat d div 10)" and "lut (twice d + 1) = dg (unat d mod 10)"
proof -
  have "unat (twice d) = 2 * unat d"
    using assms by (simp add: twice_def push_bit_eq_mult unat_word_ariths mult.commute)
  moreover have "unat (twice d + 1) = 2 * unat d + 1"
    using assms calculation by (simp add: unat_word_ariths)
  ultimately show "lut (twice d) = dg (unat d div 10)" and "lut (twice d + 1) = dg (unat d mod 10)"
    using lut_nat[OF assms] by (simp_all add: lut_def)
qed

lemma lut2_word: "unat d < 100 \<Longrightarrow> lut2 (twice d) = [dg (unat d div 10), dg (unat d mod 10)]"
  by (simp add: lut2_def lut_word)

lemma unat_div_mod:
  fixes v :: "'a::len word"
  shows "unat (v div w) = unat v div unat w" "unat (v mod w) = unat v mod unat w"
  by (simp_all add: unat_div unat_mod)

lemma put8_pad:
  assumes "unat v < 100000000"
  shows "put8 v = pad 8 (unat v)"
  using assms
  by (simp add: put8_def Let_def pad8 lut2_word unat_div_mod)

section \<open>The code computes the reference\<close>

lemma unat_ucast32: "unat (v :: 64 word) < 2 ^ 32 \<Longrightarrow> unat (ucast v :: 32 word) = unat v"
  by (simp add: unsigned_ucast_eq take_bit_nat_eq_self)

lemma u64toa_small:
  assumes "unat v < 100000000"
  shows "u64toa v = dec (unat v)"
proof -
  have v: "v < kTen8" using assms by (simp add: kTen8_def word_less_nat_alt)
  have u: "unat (ucast v :: 32 word) = unat v" using assms by (intro unat_ucast32) simp
  show ?thesis
  proof (cases "unat v < 10000")
    case True
    then have "(ucast v :: 32 word) < 10000" using u by (simp add: word_less_nat_alt)
    then show ?thesis
      using v True dec4[OF True] u
      by (simp add: u64toa_def Let_def word_le_nat_alt lut_word unat_div_mod)
  next
    case False
    then have "\<not> (ucast v :: 32 word) < 10000" using u by (simp add: word_less_nat_alt)
    moreover have "unat v div 10000 div 100 < 100" using assms by (simp add: div_less_iff_less_mult)
    ultimately show ?thesis
      using v False dec8[OF assms] u
      by (simp add: u64toa_def Let_def word_le_nat_alt lut_word lut2_word unat_div_mod)
  qed
qed

lemma dec_head8:
  assumes "n < 100000000"
  shows "dec n = put (10000000 \<le> n) (dg (n div 10000 div 100 div 10))
     @ put (1000000 \<le> n) (dg (n div 10000 div 100 mod 10))
     @ put (100000 \<le> n) (dg (n div 10000 mod 100 div 10)) @ put (10000 \<le> n) (dg (n div 10000 mod 100 mod 10))
     @ put (1000 \<le> n) (dg (n mod 10000 div 100 div 10)) @ put (100 \<le> n) (dg (n mod 10000 div 100 mod 10))
     @ put (10 \<le> n) (dg (n mod 10000 mod 100 div 10)) @ [dg (n mod 10000 mod 100 mod 10)]"
proof (cases "n < 10000")
  case True
  then show ?thesis using dec4[OF True] by (simp add: put_def)
next
  case False
  then show ?thesis using dec8[OF assms] by (simp add: put_def)
qed

lemma u64toa_middle:
  assumes "100000000 \<le> unat v" and "unat v < 10000000000000000"
  shows "u64toa v = dec (unat v)"
proof -
  let ?v0 = "ucast (v div kTen8) :: 32 word" and ?v1 = "ucast (v mod kTen8) :: 32 word"
  let ?n = "unat v div 100000000"
  have v: "\<not> v < kTen8" "v < kTen16" using assms by (simp_all add: kTen8_def kTen16_def word_less_nat_alt)
  have n: "?n < 100000000" using assms(2) by (simp add: div_less_iff_less_mult)
  have u0: "unat ?v0 = ?n"
    using n by (subst unat_ucast32) (simp_all add: unat_div_mod kTen8_def)
  have u1: "unat ?v1 = unat v mod 100000000"
    by (subst unat_ucast32) (simp_all add: unat_div_mod kTen8_def)
  have b0: "?n div 10000 div 100 < 100" using n by (simp add: div_less_iff_less_mult)
  have ge: "kTen8 * 10000000 \<le> v \<longleftrightarrow> 10000000 \<le> ?n" "kTen8 * 1000000 \<le> v \<longleftrightarrow> 1000000 \<le> ?n"
    "kTen8 * 100000 \<le> v \<longleftrightarrow> 100000 \<le> ?n" "kTen8 * 10000 \<le> v \<longleftrightarrow> 10000 \<le> ?n"
    "kTen8 * 1000 \<le> v \<longleftrightarrow> 1000 \<le> ?n" "kTen8 * 100 \<le> v \<longleftrightarrow> 100 \<le> ?n" "kTen8 * 10 \<le> v \<longleftrightarrow> 10 \<le> ?n"
    by (simp_all add: kTen8_def word_le_nat_alt less_eq_div_iff_mult_less_eq)
  have "u64toa v = dec ?n @ put8 ?v1"
    using v b0 unfolding dec_head8[OF n]
    by (simp add: u64toa_def Let_def ge lut_word unat_div_mod u0)
  also have "\<dots> = dec (unat v)"
    using put8_pad[of ?v1] u1 dec_split[of 8 "unat v"] assms(1) by simp
  finally show ?thesis .
qed

lemma u64toa_large:
  assumes "10000000000000000 \<le> unat v"
  shows "u64toa v = dec (unat v)"
proof -
  let ?a = "ucast (v div kTen16) :: 32 word" and ?w = "v mod kTen16"
  let ?v0 = "ucast (?w div kTen8) :: 32 word" and ?v1 = "ucast (?w mod kTen8) :: 32 word"
  let ?n = "unat v div 10000000000000000" and ?m = "unat v mod 10000000000000000"
  have v: "\<not> v < kTen8" "\<not> v < kTen16" using assms by (simp_all add: kTen8_def kTen16_def word_less_nat_alt)
  have "unat v < 2 ^ 64" using unsigned_less[of v] by simp
  then have n: "?n < 10000" by (simp add: div_less_iff_less_mult)
  have m: "?m div 100000000 < 100000000" by (simp add: div_less_iff_less_mult)
  have ten: "unat kTen16 = 10000000000000000" "unat kTen8 = 100000000" by (simp_all add: kTen16_def kTen8_def)
  have ua: "unat ?a = ?n" using n by (subst unat_ucast32) (simp_all add: unat_div_mod ten)
  have w: "unat ?w = ?m" by (simp add: unat_div_mod ten)
  have u0: "unat ?v0 = ?m div 100000000"
    using m by (subst unat_ucast32) (simp_all only: unat_div_mod ten w, simp)
  have u1: "unat ?v1 = ?m mod 100000000"
    by (subst unat_ucast32) (simp_all only: unat_div_mod ten w, simp)
  let ?head = "if ?a < 10 then [digit_char ?a]
          else if ?a < 100 then lut2 (twice ?a)
          else if ?a < 1000 then digit_char (?a div 100) # lut2 (twice (?a mod 100))
          else lut2 (twice (?a div 100)) @ lut2 (twice (?a mod 100))"
  have head: "?head = dec ?n"
    using dec4[OF n] n
    by (simp add: word_less_nat_alt ua digit_char_def lut2_word unat_div_mod put_def flip: dg_def)
  have "u64toa v = dec ?n @ put8 ?v0 @ put8 ?v1"
    using v unfolding head[symmetric] by (simp add: u64toa_def Let_def)
  also have "\<dots> = dec ?n @ pad 8 (?m div 100000000) @ pad 8 (?m mod 100000000)"
    using put8_pad[of ?v0] put8_pad[of ?v1] u0 u1 m by simp
  also have "\<dots> = dec (unat v)"
    using dec_split[of 16 "unat v"] pad_split[of 8 8 ?m] assms by simp
  finally show ?thesis .
qed

lemma u64toa_dec: "u64toa v = dec (unat v)"
  using u64toa_small u64toa_middle u64toa_large by (meson not_less)

lemma sint_64:
  fixes v :: "64 word"
  shows "sint v = (if uint v < 2 ^ 63 then uint v else uint v - 2 ^ 64)"
proof -
  have lt: "0 \<le> uint v" "uint v < 2 ^ 64" using unsigned_less[of v] by simp_all
  have "sint v = (uint v + 2 ^ 63) mod 2 ^ 64 - 2 ^ 63"
    by (simp add: sint_uint signed_take_bit_eq_take_bit_shift take_bit_eq_mod)
  moreover have "(uint v + 2 ^ 63) mod 2 ^ 64 = (if uint v < 2 ^ 63 then uint v + 2 ^ 63 else uint v - 2 ^ 63)"
  proof (cases "uint v < 2 ^ 63")
    case True
    then show ?thesis using lt by (simp add: mod_pos_pos_trivial)
  next
    case False
    have "(uint v + 2 ^ 63) mod 2 ^ 64 = (uint v + 2 ^ 63 - 2 ^ 64) mod 2 ^ 64" by (metis minus_mod_self2)
    then show ?thesis using False lt by (simp add: mod_pos_pos_trivial)
  qed
  ultimately show ?thesis by simp
qed

lemma i64toa_dec: "i64toa v = dec_int (sint v)"
proof (cases "sint v < 0")
  case True
  then have s: "sint v = uint v - 2 ^ 64" and pos: "0 < uint v" by (simp_all add: sint_64 split: if_splits)
  have lt: "uint v < 2 ^ 64" using unsigned_less[of v] by simp
  have "uint (- v) = - uint v mod 2 ^ 64" by (simp add: uint_word_ariths)
  also have "\<dots> = 2 ^ 64 - uint v" using pos lt by (simp add: zmod_zminus1_eq_if)
  finally have "unat (- v) = nat (- sint v)" by (simp add: s unat_eq_nat_uint)
  with True show ?thesis
    by (simp add: i64toa_def word_sless_alt dec_int_def u64toa_dec flip: minus_eq_not_plus_1)
next
  case False
  moreover have "uint v < 2 ^ 64" using unsigned_less[of v] by simp
  ultimately have "sint v = uint v" by (simp add: sint_64 split: if_splits)
  then have "nat (sint v) = unat v" by (simp only: unat_eq_nat_uint)
  moreover have "\<not> v <s 0" using False by (simp add: word_sless_alt)
  ultimately show ?thesis using False unfolding i64toa_def dec_int_def u64toa_dec by (simp only: if_False)
qed

section \<open>Property\<close>

text \<open>
  C27. The table-driven conversion that prints integers in the answers equals the schoolbook
  conversion: for all 64-bit values, signed (\<open>i64toa\<close>, the most negative one included) and unsigned
  (\<open>u64toa\<close>), through all of its branches.
\<close>

theorem itoa_is_decimal: "i64toa v = dec_int (sint v) \<and> u64toa v = dec (unat v)"
  by (simp add: i64toa_dec u64toa_dec)

end
