(* ===== verification/Json_Numbers.thy ===== *)
theory Json_Numbers
  imports Json_Reader Json_Itoa
begin

text \<open>
  The integers of the JSON reader: the two overflow-guarded loops of \<open>ParseNumber\<close> compute the exact
  value of the digits they read, and the text the writer prints is read back as the same integer.
\<close>

section \<open>The value of a sequence of digits\<close>

definition num_from :: "nat \<Rightarrow> string \<Rightarrow> nat" where
  "num_from n ds = foldl (\<lambda>n c. n * 10 + digit c) n ds"

abbreviation all_digits :: "string \<Rightarrow> bool" where
  "all_digits ds \<equiv> list_all is_digit ds"

definition no_digit :: "string \<Rightarrow> bool" where
  "no_digit r \<longleftrightarrow> \<not> is_digit (Peek r)"

lemma num_from_simps [simp]:
  "num_from n [] = n" "num_from n (c # ds) = num_from (n * 10 + digit c) ds"
  by (simp_all add: num_from_def)

lemma num_from_snoc [simp]: "num_from n (ds @ [c]) = num_from n ds * 10 + digit c"
  by (simp add: num_from_def)

lemma num_from_ge: "n \<le> num_from n ds"
proof (induction ds arbitrary: n)
  case (Cons c ds)
  from Cons[of "n * 10 + digit c"] show ?case by simp
qed simp

lemma digit_le: "is_digit c \<Longrightarrow> digit c \<le> 9"
  by (auto simp: is_digit_def digit_def)

lemma no_digit_cases: "no_digit r \<Longrightarrow> r = [] \<or> (\<exists>c r'. r = c # r' \<and> \<not> is_digit c)"
  by (cases r) (auto simp: no_digit_def Peek_def)

section \<open>The loops\<close>

definition lim32 :: "bool \<Rightarrow> nat" where
  "lim32 neg = (if neg then 2147483648 else 4294967295)"

definition lim64 :: "bool \<Rightarrow> nat" where
  "lim64 neg = (if neg then 9223372036854775808 else 18446744073709551615)"

text \<open>
  Both loops accumulate digits as long as the value stays within a limit and stop at the first digit
  that would exceed it.
\<close>

locale digit_loop =
  fixes loop :: "bool \<Rightarrow> 'w::len word \<Rightarrow> string \<Rightarrow> 'w word \<times> bool \<times> string"
    and lim :: "bool \<Rightarrow> nat"
  assumes loop_end: "no_digit r \<Longrightarrow> loop neg i r = (i, False, r)"
    and loop_stop: "is_digit c \<Longrightarrow> m \<le> lim neg \<Longrightarrow> lim neg < m * 10 + digit c \<Longrightarrow>
      loop neg (word_of_nat m) (c # r) = (word_of_nat m, True, c # r)"
    and loop_step: "is_digit c \<Longrightarrow> m \<le> lim neg \<Longrightarrow> m * 10 + digit c \<le> lim neg \<Longrightarrow>
      loop neg (word_of_nat m) (c # r) = loop neg (word_of_nat (m * 10 + digit c)) r"
begin

lemma loop_within:
  "all_digits ds \<Longrightarrow> no_digit r \<Longrightarrow> num_from m ds \<le> lim neg \<Longrightarrow>
   loop neg (word_of_nat m) (ds @ r) = (word_of_nat (num_from m ds), False, r)"
proof (induction ds arbitrary: m)
  case (Cons c ds)
  have "m * 10 + digit c \<le> lim neg" using Cons.prems(3) num_from_ge[of "m * 10 + digit c" ds] by simp
  with Cons show ?case by (simp add: loop_step del: of_nat_add of_nat_mult)
qed (simp add: loop_end)

lemma loop_beyond:
  "all_digits ds \<Longrightarrow> m \<le> lim neg \<Longrightarrow> lim neg < num_from m ds \<Longrightarrow>
   \<exists>d1 d2. ds = d1 @ d2 \<and> num_from m d1 \<le> lim neg
     \<and> loop neg (word_of_nat m) (ds @ r) = (word_of_nat (num_from m d1), True, d2 @ r)"
proof (induction ds arbitrary: m)
  case (Cons c ds)
  show ?case
  proof (cases "m * 10 + digit c \<le> lim neg")
    case True
    then obtain d1 d2 where "ds = d1 @ d2" "num_from (m * 10 + digit c) d1 \<le> lim neg"
      "loop neg (word_of_nat (m * 10 + digit c)) (ds @ r)
        = (word_of_nat (num_from (m * 10 + digit c) d1), True, d2 @ r)"
      using Cons.IH[of "m * 10 + digit c"] Cons.prems by auto
    then show ?thesis
      using Cons.prems True by (intro exI[of _ "c # d1"] exI[of _ d2]) (simp add: loop_step)
  next
    case False
    then show ?thesis
      using Cons.prems by (intro exI[of _ "[]"] exI[of _ "c # ds"]) (simp add: loop_stop)
  qed
qed simp

end

lemma unat_word_of_nat: "m < 2 ^ LENGTH('a) \<Longrightarrow> unat (word_of_nat m :: 'a::len word) = m"
  by (simp add: unat_of_nat take_bit_nat_eq_self)

interpretation loop32: digit_loop int_loop lim32
proof unfold_locales
  fix neg i r assume "no_digit r"
  then show "int_loop neg i r = (i, False, r)" using no_digit_cases[of r] by auto
next
  fix c m neg r assume a: "is_digit c" "m \<le> lim32 neg" "lim32 neg < m * 10 + digit c"
  then have "unat (word_of_nat m :: 32 word) = m" by (intro unat_word_of_nat) (simp add: lim32_def split: if_splits)
  with a digit_le[OF a(1)] show "int_loop neg (word_of_nat m) (c # r) = (word_of_nat m, True, c # r)"
    by (auto simp: word_le_nat_alt word_unat_eq_iff lim32_def split: if_splits)
next
  fix c m neg r assume a: "is_digit c" "m \<le> lim32 neg" "m * 10 + digit c \<le> lim32 neg"
  then have "unat (word_of_nat m :: 32 word) = m" by (intro unat_word_of_nat) (simp add: lim32_def split: if_splits)
  with a digit_le[OF a(1)]
  show "int_loop neg (word_of_nat m) (c # r) = int_loop neg (word_of_nat (m * 10 + digit c)) r"
    by (auto simp: word_le_nat_alt word_unat_eq_iff lim32_def split: if_splits)
qed

interpretation loop64: digit_loop int64_loop lim64
proof unfold_locales
  fix neg i r assume "no_digit r"
  then show "int64_loop neg i r = (i, False, r)" using no_digit_cases[of r] by auto
next
  fix c m neg r assume a: "is_digit c" "m \<le> lim64 neg" "lim64 neg < m * 10 + digit c"
  then have "unat (word_of_nat m :: 64 word) = m" by (intro unat_word_of_nat) (simp add: lim64_def split: if_splits)
  with a digit_le[OF a(1)] show "int64_loop neg (word_of_nat m) (c # r) = (word_of_nat m, True, c # r)"
    by (auto simp: word_le_nat_alt word_unat_eq_iff lim64_def split: if_splits)
next
  fix c m neg r assume a: "is_digit c" "m \<le> lim64 neg" "m * 10 + digit c \<le> lim64 neg"
  then have "unat (word_of_nat m :: 64 word) = m" by (intro unat_word_of_nat) (simp add: lim64_def split: if_splits)
  with a digit_le[OF a(1)]
  show "int64_loop neg (word_of_nat m) (c # r) = int64_loop neg (word_of_nat (m * 10 + digit c)) r"
    by (auto simp: word_le_nat_alt word_unat_eq_iff lim64_def split: if_splits)
qed

section \<open>Exactness\<close>

lemma sint_minus_word:
  assumes "m \<le> 2 ^ (LENGTH('a) - 1)"
  shows "sint (- word_of_nat m :: 'a::len word) = - int m"
proof -
  have "sint (word_of_int (- int m) :: 'a word) = signed_take_bit (LENGTH('a) - 1) (- int m)"
    by (simp only: signed_of_int of_int_eq_id id_apply One_nat_def)
  also have "\<dots> = - int m"
  proof (rule signed_take_bit_int_eq_self)
    have "int m \<le> int (2 ^ (LENGTH('a) - 1))" using assms by (simp only: of_nat_le_iff)
    then show "- (2 ^ (LENGTH('a) - 1)) \<le> - int m" by simp
    show "- int m < 2 ^ (LENGTH('a) - 1)" by (rule le_less_trans[of _ 0]) simp_all
  qed
  finally show ?thesis by simp
qed

definition signed_value :: "bool \<Rightarrow> nat \<Rightarrow> int" where
  "signed_value neg n = (if neg then - int n else int n)"

lemma int_event_exact:
  "n \<le> lim32 neg \<Longrightarrow> int_event neg False (word_of_nat n) i64 = signed_value neg n"
  "n \<le> lim64 neg \<Longrightarrow> int_event neg True i (word_of_nat n) = signed_value neg n"
proof -
  assume n: "n \<le> lim32 neg"
  then have "unat (word_of_nat n :: 32 word) = n"
    by (intro unat_word_of_nat) (simp add: lim32_def split: if_splits)
  with n show "int_event neg False (word_of_nat n) i64 = signed_value neg n"
    by (simp add: int_event_def signed_value_def lim32_def uint_nat sint_minus_word split: if_splits
        flip: minus_eq_not_plus_1)
next
  assume n: "n \<le> lim64 neg"
  then have "unat (word_of_nat n :: 64 word) = n"
    by (intro unat_word_of_nat) (simp add: lim64_def split: if_splits)
  with n show "int_event neg True i (word_of_nat n) = signed_value neg n"
    by (simp add: int_event_def signed_value_def lim64_def uint_nat sint_minus_word split: if_splits
        flip: minus_eq_not_plus_1)
qed

lemma dropWhile_digits: "all_digits ds \<Longrightarrow> no_digit r \<Longrightarrow> dropWhile is_digit (ds @ r) = r"
  using no_digit_cases[of r] by (induction ds) auto

lemma parse_int_exact:
  assumes ds: "all_digits (c # ds)" and c: "c \<noteq> CHR ''0''" and r: "no_digit r"
  shows "parse_int neg (c # ds @ r) =
    (if num_from 0 (c # ds) \<le> lim64 neg then Inr ((False, signed_value neg (num_from 0 (c # ds))), r)
     else Inr ((True, 0), r))"
proof -
  let ?m = "digit c" and ?n = "num_from (digit c) ds"
  have m: "is_digit c" "?m \<le> lim32 neg" "lim32 neg \<le> lim64 neg"
    using ds digit_le[of c] by (auto simp: lim32_def lim64_def)
  show ?thesis
  proof (cases "?n \<le> lim32 neg")
    case True
    with loop32.loop_within[of ds r ?m neg] m c ds r show ?thesis
      by (simp add: parse_int_def int_event_exact)
  next
    case False
    then obtain d1 d2 where d: "ds = d1 @ d2" "num_from ?m d1 \<le> lim32 neg"
      and l1: "int_loop neg (word_of_nat ?m) (ds @ r) = (word_of_nat (num_from ?m d1), True, d2 @ r)"
      using loop32.loop_beyond[of ds ?m neg r] m ds by auto
    have u: "(ucast (word_of_nat (num_from ?m d1) :: 32 word) :: 64 word) = word_of_nat (num_from ?m d1)"
    proof -
      have "num_from ?m d1 < 2 ^ 32" using d(2) by (simp add: lim32_def split: if_splits)
      then show ?thesis by (simp add: unsigned_of_nat take_bit_nat_eq_self)
    qed
    have n: "num_from (num_from ?m d1) d2 = ?n" by (simp add: d num_from_def)
    have d2: "all_digits d2" using ds d by simp
    show ?thesis
    proof (cases "?n \<le> lim64 neg")
      case True
      with loop64.loop_within[of d2 r "num_from ?m d1" neg] d2 r n l1 u m c show ?thesis
        by (simp add: parse_int_def int_event_exact)
    next
      case False
      then obtain e1 e2 where "d2 = e1 @ e2"
        and l2: "int64_loop neg (word_of_nat (num_from ?m d1)) (d2 @ r)
          = (word_of_nat (num_from (num_from ?m d1) e1), True, e2 @ r)"
        using loop64.loop_beyond[of d2 "num_from ?m d1" neg r] d2 d m(3) n by auto
      moreover have "all_digits e2" using calculation d2 by simp
      ultimately show ?thesis
        using False l1 u m c r by (simp add: parse_int_def dropWhile_digits)
    qed
  qed
qed

section \<open>What the writer prints is read back\<close>

lemma dg_digit: "n < 10 \<Longrightarrow> is_digit (dg n) \<and> digit (dg n) = n"
  by (simp add: is_digit_def digit_def dg_def of_char_of)

lemma dg_0: "dg 0 = CHR ''0''"
  by code_simp

lemma dec_digits: "all_digits (dec n) \<and> dec n \<noteq> [] \<and> num_from 0 (dec n) = n \<and> (0 < n \<longrightarrow> hd (dec n) \<noteq> CHR ''0'')"
proof (induction n rule: dec.induct)
  case (1 n)
  show ?case
  proof (cases "n < 10")
    case True
    moreover have "dg n \<noteq> CHR ''0''" if "0 < n"
      using dg_digit[OF True] that by (auto simp: digit_def)
    ultimately show ?thesis using dg_digit[OF True] by (simp add: dec.simps[of n])
  next
    case False
    with 1 dg_digit[of "n mod 10"] show ?thesis by (simp add: dec.simps[of n])
  qed
qed

lemma parse_frac_none: "Peek r \<noteq> CHR ''.'' \<Longrightarrow> parse_frac r = Inr (False, r)"
  by (cases r) (auto simp: parse_frac_def Consume_def)

lemma parse_exp_none: "Peek r \<noteq> CHR ''e'' \<Longrightarrow> Peek r \<noteq> CHR ''E'' \<Longrightarrow> parse_exp r = Inr (False, r)"
  by (simp add: parse_exp_def)

lemma parse_int_dec:
  assumes "n \<le> lim64 neg" and "no_digit r"
  shows "parse_int neg (dec n @ r) = Inr ((False, signed_value neg n), r)"
proof (cases "n = 0")
  case True
  then show ?thesis
    by (simp add: dec.simps[of 0] dg_0 parse_int_def int_event_def signed_value_def)
next
  case False
  obtain c ds where c: "dec n = c # ds" using dec_digits[of n] by (cases "dec n") auto
  with dec_digits[of n] False assms parse_int_exact[of c ds r neg] show ?thesis by simp
qed

text \<open>A character that can follow a number in a document.\<close>

definition ends_number :: "string \<Rightarrow> bool" where
  "ends_number r \<longleftrightarrow> no_digit r \<and> Peek r \<noteq> CHR ''.'' \<and> Peek r \<noteq> CHR ''e'' \<and> Peek r \<noteq> CHR ''E''"

lemma Peek_dec: "Peek (dec n @ r) \<noteq> CHR ''-''"
proof -
  obtain c ds where c: "dec n = c # ds" using dec_digits[of n] by (cases "dec n") auto
  with dec_digits[of n] show ?thesis by (auto simp: is_digit_def)
qed

lemma ParseNumber_dec_int:
  assumes "- (2 ^ 63) \<le> i" and "i < 2 ^ 64" and r: "ends_number r"
  shows "ParseNumber too_big (dec_int i @ r) = Inr (JInt i, r)"
proof (cases "i < 0")
  case True
  then have "nat (- i) \<le> lim64 True" using assms(1) by (simp add: lim64_def)
  from parse_int_dec[OF this, of r] True r show ?thesis
    by (simp add: ParseNumber_def dec_int_def signed_value_def ends_number_def parse_frac_none parse_exp_none)
next
  case False
  then have "nat i \<le> lim64 False" using assms(2) by (simp add: lim64_def)
  from parse_int_dec[OF this, of r] False r Peek_dec[of "nat i" r] show ?thesis
    by (simp add: ParseNumber_def dec_int_def signed_value_def ends_number_def parse_frac_none parse_exp_none)
qed

section \<open>Property\<close>

text \<open>
  C26. The reader takes an integer literal exactly: a number without leading zero, fraction and
  exponent becomes its mathematical value whenever that is at least \<open>-2^63\<close> and below \<open>2^64\<close>, although
  the digits are accumulated in 32-bit and then 64-bit variables; beyond that range (and only there) it
  becomes a double, or the error \<open>NumberTooBig\<close>.
\<close>

theorem integer_literal_exact:
  assumes "all_digits (c # ds)" and "c \<noteq> CHR ''0''" and "ends_number r"
  shows "ParseNumber too_big (c # ds @ r) =
      (if num_from 0 (c # ds) < 2 ^ 64 then Inr (JInt (int (num_from 0 (c # ds))), r)
       else if too_big (c # ds) then Inl (kParseErrorNumberTooBig, c # ds @ r)
       else Inr (JDouble (c # ds), r))
    \<and> ParseNumber too_big (CHR ''-'' # c # ds @ r) =
      (if num_from 0 (c # ds) \<le> 2 ^ 63 then Inr (JInt (- int (num_from 0 (c # ds))), r)
       else if too_big (CHR ''-'' # c # ds) then Inl (kParseErrorNumberTooBig, CHR ''-'' # c # ds @ r)
       else Inr (JDouble (CHR ''-'' # c # ds), r))" (is "?plus \<and> ?minus")
proof
  have r: "no_digit r" using assms(3) by (simp add: ends_number_def)
  have c: "c \<noteq> CHR ''-''" using assms(1) by (auto simp: is_digit_def)
  note exact = parse_int_exact[OF assms(1,2) r]
  show ?plus
    using exact[of False] assms(3) c
    by (simp add: ParseNumber_def signed_value_def ends_number_def parse_frac_none parse_exp_none lim64_def)
  show ?minus
    using exact[of True] assms(3)
    by (simp add: ParseNumber_def signed_value_def ends_number_def parse_frac_none parse_exp_none lim64_def)
qed

theorem integer_literal_exact_witness:
  "ParseNumber (\<lambda>_. True) ''4294967296,'' = Inr (JInt 4294967296, '','')"
  using integer_literal_exact[of "CHR ''4''" "''294967296''" "'',''" "\<lambda>_. True"]
  by (simp add: is_digit_def digit_def ends_number_def no_digit_def)

end
