(* ===== verification/Config_Reader.thy ===== *)
theory Config_Reader
  imports Domain_Types Json_Numbers
begin

text \<open>
  \<open>src/common/config.cpp\<close>, \<open>getCpuCount\<close> of \<open>src/common/common.cpp\<close> and \<open>src/main.cpp\<close>: finding and
  reading the configuration. The property tree library (\<open>boost::property_tree\<close>) and the file system
  are the parameter \<open>config_env\<close>: what a file parses to, and how a node's text converts to a number.
  A node of the tree has its text and an ordered list of named children; \<open>get_child_optional\<close> returns
  the first child of that name.
\<close>

section \<open>The environment\<close>

datatype ptree = Ptree (node_data: string) (node_children: "(string \<times> ptree) list")

record config_env =
  file_exists :: "string \<Rightarrow> bool"
  read_json :: "string \<Rightarrow> exn + ptree"
  to_size_t :: "string \<Rightarrow> size_t option"
  to_uint32 :: "string \<Rightarrow> 32 word option"
  hardware_concurrency :: "32 word"

definition get_child_optional :: "ptree \<Rightarrow> string \<Rightarrow> ptree option" where
  "get_child_optional t key = map_of (node_children t) key"

definition get_number :: "(string \<Rightarrow> 'n option) \<Rightarrow> ptree \<Rightarrow> 'n res" where
  "get_number conv t =
     (case conv (node_data t) of
        None \<Rightarrow> Inl (Throw (Library_error ''conversion of data to type failed''))
      | Some n \<Rightarrow> Inr n)"

section \<open>Names (config.cpp, common.hpp, common.cpp)\<close>

definition kConfig :: string where "kConfig = ''watchman_cpp_config.json''"
definition kEtcConfig :: string where "kEtcConfig = ''/etc/watchman_cpp_config.json''"

definition kLanguagesMatch :: "(string \<times> Language) list" where
  "kLanguagesMatch = [(''cpp'', CPP), (''golang'', GO), (''haskell'', HASKELL), (''python'', PYTHON), (''rust'', RUST)]"

definition getLanguageFromString :: "string \<Rightarrow> Language res" where
  "getLanguageFromString lang =
     (case map_of kLanguagesMatch lang of
        None \<Rightarrow> Inl (Throw (Logic_error (''constructTaskLauncher: unknown language: '' @ lang)))
      | Some l \<Rightarrow> Inr l)"

fun requiredApiField :: "Api \<Rightarrow> string" where
  "requiredApiField Chapter = ''courses''"
| "requiredApiField Playground = ''playground''"
| "requiredApiField Practice_api = ''practice''"

definition getCpuCount :: "config_env \<Rightarrow> size_t" where
  "getCpuCount env =
     (let cpuCount = ucast (hardware_concurrency env) :: size_t in
      if cpuCount > 0 then cpuCount else 4)"

definition findConfig :: "config_env \<Rightarrow> string" where
  "findConfig env =
     (if file_exists env kConfig then kConfig
      else if file_exists env kEtcConfig then kEtcConfig
      else [])"

section \<open>Filling the configuration (config.cpp)\<close>

text \<open>
  \<open>unordered_map::insert\<close> keeps an entry that is already there. The table is kept in the order of
  insertion; a traversal of the code may visit the entries in another order.
\<close>

definition table_insert :: "Language \<Rightarrow> ContainerInfo \<Rightarrow> ConfigContainerStorage \<Rightarrow> ConfigContainerStorage" where
  "table_insert lang info table = (if map_of table lang = None then table @ [(lang, info)] else table)"

fun fill_rows :: "config_env \<Rightarrow> (string \<times> ptree) list \<Rightarrow> ConfigContainerStorage \<Rightarrow> ConfigContainerStorage res" where
  "fill_rows env [] table = Inr table"
| "fill_rows env ((key, node) # rows) table =
     (case get_child_optional node ''image-name'' of
        None \<Rightarrow> Inl (Abort ''std::terminate'')
      | Some img \<Rightarrow>
          (case get_child_optional node ''launched'' of
             None \<Rightarrow> Inl (Abort ''std::terminate'')
           | Some amount \<Rightarrow>
               rbind (getLanguageFromString key) (\<lambda>lang.
               rbind (get_number (to_uint32 env) amount) (\<lambda>n.
                 fill_rows env rows
                   (table_insert lang \<lparr>imageName = node_data img, launched = n\<rparr> table)))))"

text \<open>A missing section ends the process; the reason is the text of the line that is logged before.\<close>

definition fillTable ::
  "config_env \<Rightarrow> ptree option \<Rightarrow> ConfigContainerStorage \<Rightarrow> Api \<Rightarrow> ConfigContainerStorage res" where
  "fillTable env taskType table api =
     (case taskType of
        None \<Rightarrow> Inl (Abort (''Required field `'' @ requiredApiField api @ ''` is absent''))
      | Some t \<Rightarrow> fill_rows env (node_children t) table)"

definition fillConfig :: "config_env \<Rightarrow> ptree \<Rightarrow> Config res" where
  "fillConfig env root =
     rbind (case get_child_optional root ''thread-pool-size'' of
              None \<Rightarrow> Inl (Throw Bad_optional_access)
            | Some t \<Rightarrow> get_number (to_size_t env) t) (\<lambda>size0.
     let size = (if size0 = 0 then getCpuCount env else size0) in
     case get_child_optional root ''max-containers-amount'' of
       None \<Rightarrow> Inl (Abort ''std::terminate'')
     | Some m \<Rightarrow>
         rbind (get_number (to_uint32 env) m) (\<lambda>maxAmount.
         rbind (fillTable env (get_child_optional root ''courses'') [] Chapter) (\<lambda>cs.
         rbind (fillTable env (get_child_optional root ''playground'') [] Playground) (\<lambda>pg.
         rbind (fillTable env (get_child_optional root ''practice'') [] Practice_api) (\<lambda>pr.
           Inr \<lparr>threadPoolSize = size, maxContainersAmount = maxAmount,
                courses = cs, playgrounds = pg, practices = pr\<rparr>)))))"

definition readConfig :: "config_env \<Rightarrow> string \<Rightarrow> Config res" where
  "readConfig env configPath =
     try_catch
       (rbind (case read_json env configPath of Inl e \<Rightarrow> Inl (Throw e) | Inr t \<Rightarrow> Inr t) (fillConfig env))
       (\<lambda>_. Inl (Abort ''std::terminate''))"

definition getConfig :: "config_env \<Rightarrow> Config option res" where
  "getConfig env =
     (let path = findConfig env in
      if path = [] then Inr None
      else rbind (readConfig env path) (\<lambda>c. Inr (Some c)))"

section \<open>The program (main.cpp, server.cpp)\<close>

text \<open>
  \<open>start\<close> runs the server on a configuration; \<open>main\<close> is \<open>noexcept\<close>, so an exception ends the process.
\<close>

definition main_program :: "config_env \<Rightarrow> (Config \<Rightarrow> unit res) \<Rightarrow> int res" where
  "main_program env start =
     try_catch
       (rbind (getConfig env) (\<lambda>config.
          case config of
            None \<Rightarrow> Inr (- 1)
          | Some c \<Rightarrow> rbind (start c) (\<lambda>_. Inr 0)))
       (\<lambda>_. Inl (Abort ''std::terminate''))"

section \<open>Tables\<close>

lemma table_insert_new: "map_of table lang = None \<Longrightarrow> table_insert lang info table = table @ [(lang, info)]"
  by (simp add: table_insert_def)

lemma table_insert_distinct: "distinct (map fst table) \<Longrightarrow> distinct (map fst (table_insert lang info table))"
  by (auto simp: table_insert_def map_of_eq_None_iff)

lemma fill_rows_distinct:
  "fill_rows env rows table = Inr table' \<Longrightarrow> distinct (map fst table) \<Longrightarrow> distinct (map fst table')"
proof (induction env rows table rule: fill_rows.induct)
  case (2 env key node rows table)
  then show ?case by (auto simp: table_insert_distinct rbind_Inr_iff split: option.splits)
qed simp

lemma fillTable_distinct: "fillTable env t [] api = Inr table \<Longrightarrow> distinct (map fst table)"
  by (auto simp: fillTable_def split: option.splits dest: fill_rows_distinct)

lemma getCpuCount_pos: "getCpuCount env \<noteq> 0"
  by (auto simp: getCpuCount_def Let_def)

lemma fillConfig_wf:
  assumes "fillConfig env root = Inr c"
  shows "threadPoolSize c \<noteq> 0 \<and> distinct (map fst (courses c)) \<and> distinct (map fst (playgrounds c))
    \<and> distinct (map fst (practices c))"
  using assms getCpuCount_pos[of env]
  by (auto simp: fillConfig_def Let_def rbind_Inr_iff split: option.splits if_splits)
    (rule fillTable_distinct, assumption)+

text \<open>Reading a configuration fails by an exception or by \<open>std::terminate\<close>, in no other way.\<close>

definition ends_or_throws :: "failure \<Rightarrow> bool" where
  "ends_or_throws f \<longleftrightarrow> (\<exists>e. f = Throw e) \<or> (\<exists>w. f = Abort w)"

lemma fill_rows_fails: "fill_rows env rows table = Inl f \<Longrightarrow> ends_or_throws f"
  by (induction env rows table rule: fill_rows.induct)
    (auto simp: ends_or_throws_def rbind_Inl_iff getLanguageFromString_def get_number_def split: option.splits)

lemma fillConfig_fails: "fillConfig env t = Inl f \<Longrightarrow> ends_or_throws f"
  using fill_rows_fails[of env _ "[]" f]
  by (auto simp: fillConfig_def rbind_Inl_iff Let_def fillTable_def get_number_def ends_or_throws_def split: option.splits)

lemma getConfig_workers: "getConfig env = Inr (Some config) \<Longrightarrow> threadPoolSize config \<noteq> 0"
  using fillConfig_wf
  by (fastforce simp: getConfig_def readConfig_def Let_def try_catch_def rbind_Inr_iff
      split: if_splits sum.splits failure.splits)

section \<open>A configuration as a property tree\<close>

fun language_name :: "Language \<Rightarrow> string" where
  "language_name CPP = ''cpp''"
| "language_name GO = ''golang''"
| "language_name HASKELL = ''haskell''"
| "language_name PYTHON = ''python''"
| "language_name RUST = ''rust''"

lemma getLanguage_name: "getLanguageFromString (language_name lang) = Inr lang"
  by (cases lang) (simp_all add: getLanguageFromString_def kLanguagesMatch_def)

definition row_ptree :: "Language \<times> ContainerInfo \<Rightarrow> string \<times> ptree" where
  "row_ptree row = (language_name (fst row),
     Ptree [] [(''image-name'', Ptree (imageName (snd row)) []),
               (''launched'', Ptree (dec (unat (launched (snd row)))) [])])"

definition config_ptree :: "Config \<Rightarrow> ptree" where
  "config_ptree c = Ptree []
     [(''max-containers-amount'', Ptree (dec (unat (maxContainersAmount c))) []),
      (''thread-pool-size'', Ptree (dec (unat (threadPoolSize c))) []),
      (''courses'', Ptree [] (map row_ptree (courses c))),
      (''playground'', Ptree [] (map row_ptree (playgrounds c))),
      (''practice'', Ptree [] (map row_ptree (practices c)))]"

text \<open>Documented behaviour of the library: decimal text converts to the number it denotes.\<close>

definition converts_decimal :: "config_env \<Rightarrow> bool" where
  "converts_decimal env \<longleftrightarrow>
     (\<forall>n. to_uint32 env (dec (unat n)) = Some n) \<and> (\<forall>n. to_size_t env (dec (unat n)) = Some n)"

lemma fill_rows_ptree:
  assumes "converts_decimal env"
  shows "distinct (map fst (table @ rows)) \<Longrightarrow> fill_rows env (map row_ptree rows) table = Inr (table @ rows)"
proof (induction rows arbitrary: table)
  case (Cons row rows)
  obtain lang img n where row: "row = (lang, \<lparr>imageName = img, launched = n\<rparr>)"
    by (cases row; cases "snd row") auto
  let ?info = "\<lparr>imageName = img, launched = n\<rparr>"
  have "map_of table lang = None" using Cons.prems row by (auto simp: map_of_eq_None_iff)
  moreover have "fill_rows env (map row_ptree rows) (table @ [(lang, ?info)]) = Inr (table @ row # rows)"
    using Cons.IH[of "table @ [(lang, ?info)]"] Cons.prems row by simp
  moreover have "row_ptree row = (language_name lang, Ptree [] [(''image-name'', Ptree img []), (''launched'', Ptree (dec (unat n)) [])])"
    by (simp add: row_ptree_def row)
  ultimately show ?case
    using assms by (simp add: row get_child_optional_def getLanguage_name get_number_def
        converts_decimal_def table_insert_new)
qed simp

lemma fillConfig_ptree:
  assumes "converts_decimal env" and "threadPoolSize c \<noteq> 0" and "distinct (map fst (courses c))"
    and "distinct (map fst (playgrounds c))" and "distinct (map fst (practices c))"
  shows "fillConfig env (config_ptree c) = Inr c"
  using assms fill_rows_ptree[OF assms(1), of "[]"]
  by (simp add: fillConfig_def config_ptree_def get_child_optional_def fillTable_def get_number_def converts_decimal_def)

section \<open>Properties\<close>

text \<open>
  C25. A configuration written as a property tree is read back unchanged: languages, image names,
  amounts and sizes, for every configuration with a nonzero pool size and one entry per language in
  each table.
\<close>

theorem config_roundtrip:
  assumes "converts_decimal env" and "file_exists env kConfig" and "read_json env kConfig = Inr (config_ptree c)"
    and "threadPoolSize c \<noteq> 0" and "distinct (map fst (courses c))"
    and "distinct (map fst (playgrounds c))" and "distinct (map fst (practices c))"
  shows "getConfig env = Inr (Some c)"
  using fillConfig_ptree[OF assms(1,4-7)] assms(2,3)
  by (simp add: getConfig_def findConfig_def readConfig_def kConfig_def)

definition sample_config :: Config where
  "sample_config = \<lparr>threadPoolSize = 12, maxContainersAmount = 20,
     courses = [(PYTHON, \<lparr>imageName = ''senjun_python'', launched = 6\<rparr>),
                (CPP, \<lparr>imageName = ''senjun_cpp'', launched = 3\<rparr>)],
     playgrounds = [(PYTHON, \<lparr>imageName = ''senjun_python'', launched = 3\<rparr>)],
     practices = [(CPP, \<lparr>imageName = ''senjun_cpp'', launched = 3\<rparr>)]\<rparr>"

definition sample_env :: config_env where
  "sample_env = \<lparr>file_exists = (\<lambda>p. p = kConfig), read_json = (\<lambda>_. Inr (config_ptree sample_config)),
     to_size_t = (\<lambda>s. Some (word_of_nat (num_from 0 s))), to_uint32 = (\<lambda>s. Some (word_of_nat (num_from 0 s))),
     hardware_concurrency = 8\<rparr>"

lemma sample_converts: "converts_decimal sample_env"
  by (simp add: converts_decimal_def sample_env_def dec_digits)

theorem config_roundtrip_witness: "getConfig sample_env = Inr (Some sample_config)"
  by (rule config_roundtrip[OF sample_converts]) (simp_all add: sample_env_def sample_config_def)

text \<open>
  C34. Whatever the configuration file holds, reading it does not throw: the result is no
  configuration (exactly when neither file exists), a configuration with a nonzero thread pool and
  at most one entry per language in each table, or the end of the process.
\<close>

theorem config_outcome:
  "(getConfig env = Inr None \<and> \<not> file_exists env kConfig \<and> \<not> file_exists env kEtcConfig)
   \<or> (\<exists>w. getConfig env = Inl (Abort w))
   \<or> (\<exists>c. getConfig env = Inr (Some c) \<and> threadPoolSize c \<noteq> 0 \<and> distinct (map fst (courses c))
        \<and> distinct (map fst (playgrounds c)) \<and> distinct (map fst (practices c)))"
proof (cases "file_exists env kConfig \<or> file_exists env kEtcConfig")
  case False
  then show ?thesis by (simp add: getConfig_def findConfig_def)
next
  case True
  then have p: "findConfig env \<noteq> []" by (auto simp: findConfig_def kConfig_def kEtcConfig_def)
  let ?x = "rbind (case read_json env (findConfig env) of Inl e \<Rightarrow> Inl (Throw e) | Inr t \<Rightarrow> Inr t) (fillConfig env)"
  have r: "readConfig env (findConfig env) = try_catch ?x (\<lambda>_. Inl (Abort ''std::terminate''))"
    by (simp add: readConfig_def)
  have b: "ends_or_throws f" if "?x = Inl f" for f
    using that fillConfig_fails[of env] by (auto simp: rbind_Inl_iff ends_or_throws_def split: sum.splits)
  have wf: "\<exists>t. fillConfig env t = Inr c" if "?x = Inr c" for c using that by (auto simp: rbind_Inr_iff)
  show ?thesis
  proof (cases ?x)
    case (Inl f)
    then show ?thesis using b[OF Inl] r p by (auto simp: getConfig_def ends_or_throws_def)
  next
    case (Inr c)
    then obtain t where "fillConfig env t = Inr c" using wf by blast
    with fillConfig_wf[OF this] r Inr p show ?thesis by (simp add: getConfig_def)
  qed
qed

end
