(* ===== verification/Json_Writer.thy ===== *)
theory Json_Writer
  imports Json_Itoa
begin

text \<open>
  \<open>third_party/rapidjson/include/rapidjson/writer.h\<close>: the part of \<open>Writer<StringBuffer>\<close> with which the
  service prints its answers, with the stack of levels that decides where commas and colons go.
  The assertions of the writer do nothing in the modelled build.
\<close>

section \<open>State and strings\<close>

record Level =
  valueCount :: size_t
  inArray :: bool

record Writer =
  os :: string
  level_stack :: "Level list"
  hasRoot :: bool

definition Writer_init :: Writer where
  "Writer_init = \<lparr>os = [], level_stack = [], hasRoot = False\<rparr>"

datatype Type = kNullType | kFalseType | kTrueType | kObjectType | kArrayType | kStringType | kNumberType

definition Put :: "string \<Rightarrow> Writer \<Rightarrow> Writer" where
  "Put s w = w\<lparr>os := os w @ s\<rparr>"

definition hexDigits :: string where
  "hexDigits = ''0123456789ABCDEF''"

text \<open>The table \<open>escape\<close> of \<open>WriteString\<close>.\<close>

definition writer_escape :: "char \<Rightarrow> char option" where
  "writer_escape c =
     (let n = of_char c :: nat in
      if n = 0x08 then Some (CHR ''b'')
      else if n = 0x09 then Some (CHR ''t'')
      else if n = 0x0A then Some (CHR ''n'')
      else if n = 0x0C then Some (CHR ''f'')
      else if n = 0x0D then Some (CHR ''r'')
      else if n < 0x20 then Some (CHR ''u'')
      else if n = 0x22 then Some (CHR 0x22)
      else if n = 0x5C then Some (CHR 0x5C) else None)"

definition write_char :: "char \<Rightarrow> string" where
  "write_char c =
     (case writer_escape c of
        None \<Rightarrow> [c]
      | Some e \<Rightarrow> CHR 0x5C # e #
          (if e = CHR ''u''
           then [CHR ''0'', CHR ''0'', hexDigits ! (of_char c div 16), hexDigits ! (of_char c mod 16)]
           else []))"

text \<open>
  The length is a 32-bit \<open>SizeType\<close>: of a longer string only the first part is written. The room
  reserved for it, \<open>2 + length * 6\<close> bytes, is computed with 32 bits as well, and \<open>PutUnsafe\<close> writes without
  a check. Where the product has wrapped and more is written than was reserved, it depends on the spare
  capacity of the buffer whether the bytes lie within it: the outcome is \<open>Undefined\<close>.
\<close>

definition kNoRoom :: string where
  "kNoRoom = ''PutUnsafe past the reserved room''"

definition WriteString :: "string \<Rightarrow> (Writer, unit) op" where
  "WriteString str w =
     (let len = word_of_nat (length str) :: 32 word;
          reserved = 2 + len * 6;
          written = CHR 0x22 # concat (map write_char (take (unat len) str)) @ [CHR 0x22] in
      if length written \<le> unat reserved then (Inr (), Put written w)
      else (Inl (Undefined kNoRoom), w))"

section \<open>Events\<close>

definition Prefix :: "Type \<Rightarrow> (Writer, unit) op" where
  "Prefix type w =
     (case level_stack w of
        level # rest \<Rightarrow>
          (let w1 = (if valueCount level > 0 then
                       (if inArray level then Put '','' w
                        else Put (if valueCount level mod 2 = 0 then '','' else '':'') w)
                     else w) in
           (Inr (), w1\<lparr>level_stack := level\<lparr>valueCount := valueCount level + 1\<rparr> # rest\<rparr>))
      | [] \<Rightarrow> (Inr (), w\<lparr>hasRoot := True\<rparr>))"

definition StartObject :: "(Writer, unit) op" where
  "StartObject = sbind (Prefix kObjectType) (\<lambda>_ w.
     (Inr (), Put [CHR 0x7B] (w\<lparr>level_stack := \<lparr>valueCount = 0, inArray = False\<rparr> # level_stack w\<rparr>)))"

definition String_event :: "string \<Rightarrow> (Writer, unit) op" where
  "String_event str = sbind (Prefix kStringType) (\<lambda>_. WriteString str)"

definition Key :: "string \<Rightarrow> (Writer, unit) op" where
  "Key str = String_event str"

definition Int64 :: "64 word \<Rightarrow> (Writer, unit) op" where
  "Int64 i64 = sbind (Prefix kNumberType) (\<lambda>_ w. (Inr (), Put (i64toa i64) w))"

definition EndObject :: "(Writer, unit) op" where
  "EndObject w =
     (case level_stack w of
        [] \<Rightarrow> (Inl (Undefined ''Pop from the empty stack of levels''), w)
      | level # rest \<Rightarrow> (Inr (), Put [CHR 0x7D] (w\<lparr>level_stack := rest\<rparr>)))"

lemmas writer_defs = Prefix_def StartObject_def String_event_def Key_def Int64_def EndObject_def Put_def
  WriteString_def Writer_init_def

end
