(* ===== verification/Json_Roundtrip.thy ===== *)
theory Json_Roundtrip
  imports Json_Fuel Json_Numbers Json_Writer
begin

text \<open>
  The writer and the reader of rapidjson agree: a flat object printed by the writer is read back
  by \<open>Parse\<close> with the same members, for all byte strings (control characters, quotes, backslashes and
  NUL included) and all 64-bit integers.
\<close>

section \<open>Strings\<close>

definition quoted :: "string \<Rightarrow> string" where
  "quoted s = CHR 0x22 # concat (map write_char s) @ [CHR 0x22]"

lemma hex_value_digit: "k < 16 \<Longrightarrow> hex_value (hexDigits ! k) = Some k"
proof -
  have "\<forall>k \<in> set [0..<16]. hex_value (hexDigits ! k) = Some k" by code_simp
  then show "k < 16 \<Longrightarrow> ?thesis" by simp
qed

lemma hex_value_0: "hex_value (CHR ''0'') = Some 0"
  by code_simp

lemma char_eq_code: "c = d \<longleftrightarrow> (of_char c :: nat) = of_char d"
  by simp

lemma writer_escape_cases:
  obtains (plain) "writer_escape c = None" "0x20 \<le> (of_char c :: nat)" "c \<noteq> CHR 0x22" "c \<noteq> CHR 0x5C"
  | (short) e where "writer_escape c = Some e" "e \<noteq> CHR ''u''" "reader_escape e = Some c"
  | (hex) "writer_escape c = Some (CHR ''u'')" "of_char c < (0x20 :: nat)"
proof -
  define n where "n = (of_char c :: nat)"
  have c: "c = char_of n" by (simp add: n_def)
  have special: "c = CHR 0x08 \<or> c = CHR 0x09 \<or> c = CHR 0x0A \<or> c = CHR 0x0C \<or> c = CHR 0x0D
      \<or> c = CHR 0x22 \<or> c = CHR 0x5C \<longleftrightarrow> n \<in> {0x08, 0x09, 0x0A, 0x0C, 0x0D, 0x22, 0x5C}"
    unfolding n_def char_eq_code[of c] by (simp del: of_char_eq_iff)
  show thesis
  proof (cases "n \<in> {0x08, 0x09, 0x0A, 0x0C, 0x0D, 0x22, 0x5C}")
    case True
    with special short show ?thesis by (auto simp: writer_escape_def reader_escape_def)
  next
    case False
    then show ?thesis
      using plain hex special by (cases "n < 0x20") (auto simp: writer_escape_def n_def[symmetric] Let_def)
  qed
qed

lemma Encode_control:
  assumes "n < 0x20"
  shows "Encode n = [char_of n]"
proof -
  have "n AND 0xFF = n"
    using assms take_bit_nat_eq_self[of n 8] by (simp add: take_bit_eq_mask mask_numeral)
  then show ?thesis using assms by (simp add: Encode_def)
qed

lemma hex_digits_numeral:
  "hex_digits (numeral k) v esc is =
     (case hex_value (Peek is) of
        None \<Rightarrow> Inl (kParseErrorStringUnicodeEscapeInvalidHex, esc)
      | Some d \<Rightarrow> hex_digits (pred_numeral k) (16 * v + d) esc (tl is))"
  by (subst numeral_eq_Suc, rule hex_digits.simps)

lemma ParseHex4_control:
  assumes "n < 0x20"
  shows "ParseHex4 esc (CHR ''0'' # CHR ''0'' # hexDigits ! (n div 16) # hexDigits ! (n mod 16) # r) = Inr (n, r)"
proof -
  have "n div 16 < 16" "n mod 16 < 16" using assms by auto
  note hex = hex_value_digit[OF this(1)] hex_value_digit[OF this(2)]
  show ?thesis by (simp add: ParseHex4_def hex_digits_numeral hex hex_value_0)
qed

lemma read_write_char:
  "ParseStringToStream acc (write_char c @ r) = ParseStringToStream (acc @ [c]) r"
proof (cases c rule: writer_escape_cases)
  case plain
  then show ?thesis by (simp add: write_char_def)
next
  case (short e)
  then show ?thesis by (simp add: write_char_def parse_escape_def)
next
  case hex
  have u: "reader_escape (CHR ''u'') = None" by code_simp
  show ?thesis
    using hex ParseHex4_control[OF hex(2)] Encode_control[OF hex(2)]
    by (simp add: write_char_def parse_escape_def u)
qed

lemma read_write_string:
  "ParseStringToStream acc (concat (map write_char s) @ CHR 0x22 # r) = Inr (acc @ s, r)"
  by (induction s arbitrary: acc) (simp_all add: read_write_char)

lemma ParseString_quoted: "ParseString (quoted s @ r) = Inr (s, r)"
  by (simp add: ParseString_def quoted_def read_write_string)

section \<open>Flat objects\<close>

text \<open>The text of a flat object: the members in order, keys and values separated as the writer does.\<close>

datatype scalar = SInt int | SStr string

fun scalar_text :: "scalar \<Rightarrow> string" where
  "scalar_text (SInt i) = dec_int i"
| "scalar_text (SStr s) = quoted s"

fun scalar_json :: "scalar \<Rightarrow> json" where
  "scalar_json (SInt i) = JInt i"
| "scalar_json (SStr s) = JString s"

fun scalar_ok :: "scalar \<Rightarrow> bool" where
  "scalar_ok (SInt i) \<longleftrightarrow> - (2 ^ 63) \<le> i \<and> i < 2 ^ 64"
| "scalar_ok (SStr s) \<longleftrightarrow> True"

fun members_text :: "(string \<times> scalar) list \<Rightarrow> string" where
  "members_text [] = []"
| "members_text [(k, v)] = quoted k @ [CHR '':''] @ scalar_text v"
| "members_text ((k, v) # m # ms) = quoted k @ [CHR '':''] @ scalar_text v @ [CHR '',''] @ members_text (m # ms)"

definition object_text :: "(string \<times> scalar) list \<Rightarrow> string" where
  "object_text ms = CHR 0x7B # members_text ms @ [CHR 0x7D]"

definition object_json :: "(string \<times> scalar) list \<Rightarrow> json" where
  "object_json ms = JObject (map (\<lambda>(k, v). (k, scalar_json v)) ms)"

lemma skip_graphic: "\<not> is_space (Peek is) \<Longrightarrow> SkipWhitespace is = is"
  by (cases "is") (simp_all add: SkipWhitespace_def)

lemma Consume_Peek: "Peek is \<noteq> c \<Longrightarrow> Consume is c = None"
  by (cases "is") (auto simp: Consume_def)

lemma not_space: "\<not> is_space (CHR 0x22)" "\<not> is_space (CHR 0x7B)" "\<not> is_space (CHR 0x7D)"
  "\<not> is_space (CHR '','')" "\<not> is_space (CHR '':'')" "\<not> is_space (CHR ''-'')" "\<not> is_space (CHR 0x00)"
  by code_simp+

lemma Peek_quoted [simp]: "Peek (quoted s @ r) = CHR 0x22"
  by (simp add: quoted_def)

lemma dec_int_Cons: "\<exists>c cs. dec_int i = c # cs \<and> (is_digit c \<or> c = CHR ''-'')"
proof (cases "i < 0")
  case False
  then show ?thesis
    using dec_digits[of "nat i"] by (cases "dec (nat i)") (auto simp: dec_int_def)
qed (simp add: dec_int_def)

lemma digit_code: "is_digit c \<Longrightarrow> c \<notin> set ''ntf'' \<and> c \<noteq> CHR 0x22 \<and> c \<noteq> CHR 0x7B \<and> c \<noteq> CHR 0x5B \<and> \<not> is_space c"
  by (auto simp: is_digit_def is_space_def)

lemma ParseValue_scalar:
  assumes "scalar_ok v" and "ends_number r"
  shows "ParseValue too_big (Suc n) (scalar_text v @ r) = Some (Inr (scalar_json v, r))"
    and "\<not> is_space (Peek (scalar_text v @ r))"
proof -
  show "ParseValue too_big (Suc n) (scalar_text v @ r) = Some (Inr (scalar_json v, r))"
  proof (cases v)
    case (SInt i)
    obtain c cs where c: "dec_int i = c # cs" "is_digit c \<or> c = CHR ''-''" using dec_int_Cons by blast
    then have "ParseValue too_big (Suc n) (c # cs @ r) = Some (ParseNumber too_big (c # cs @ r))"
      using digit_code[of c] by auto
    with ParseNumber_dec_int[of i r too_big] assms c SInt show ?thesis by simp
  next
    case (SStr s)
    then show ?thesis using ParseString_quoted[of s r] by simp
  qed
  show "\<not> is_space (Peek (scalar_text v @ r))"
  proof (cases v)
    case (SInt i)
    obtain c cs where "dec_int i = c # cs" "is_digit c \<or> c = CHR ''-''" using dec_int_Cons by blast
    then show ?thesis using SInt digit_code[of c] not_space by auto
  qed (simp add: not_space)
qed

lemma ends_number_simps: "ends_number (CHR '','' # r)" "ends_number (CHR 0x7D # r)"
  by (simp_all add: ends_number_def no_digit_def is_digit_def)

lemma ParseMembers_text:
  assumes "ms \<noteq> []" and "\<forall>(k, v) \<in> set ms. scalar_ok v" and "length ms < n"
  shows "ParseMembers too_big n acc (members_text ms @ CHR 0x7D # r)
    = Some (Inr (JObject (acc @ map (\<lambda>(k, v). (k, scalar_json v)) ms), r))"
  using assms
proof (induction ms arbitrary: n acc rule: members_text.induct)
  case (2 k v)
  then obtain m where n: "n = Suc (Suc m)" by (cases n; cases "n - 1") auto
  have val: "ParseValue too_big (Suc m) (scalar_text v @ CHR 0x7D # r) = Some (Inr (scalar_json v, CHR 0x7D # r))"
    and sp: "\<not> is_space (Peek (scalar_text v @ CHR 0x7D # r))"
    using ParseValue_scalar(1)[of v "CHR 0x7D # r" too_big m] ParseValue_scalar(2)[of v "CHR 0x7D # r"] 2 by (simp_all add: ends_number_simps)
  show ?case
    using ParseString_quoted[of k "CHR '':'' # scalar_text v @ CHR 0x7D # r"] val
    by (simp add: n skip_graphic sp not_space Consume_def del: ParseValue.simps)
next
  case (3 k v m' ms)
  then obtain m where n: "n = Suc (Suc m)" by (cases n; cases "n - 1") auto
  let ?r = "CHR '','' # members_text (m' # ms) @ CHR 0x7D # r"
  have val: "ParseValue too_big (Suc m) (scalar_text v @ ?r) = Some (Inr (scalar_json v, ?r))"
    and sp: "\<not> is_space (Peek (scalar_text v @ ?r))"
    using ParseValue_scalar(1)[of v ?r too_big m] ParseValue_scalar(2)[of v ?r] 3 by (simp_all add: ends_number_simps)
  have q: "Peek (members_text (m' # ms) @ CHR 0x7D # r) = CHR 0x22"
    by (cases m'; cases ms) simp_all
  have IH: "ParseMembers too_big (Suc m) (acc @ [(k, scalar_json v)]) (members_text (m' # ms) @ CHR 0x7D # r)
    = Some (Inr (JObject ((acc @ [(k, scalar_json v)]) @ map (\<lambda>(k, v). (k, scalar_json v)) (m' # ms)), r))"
    using "3.IH"[of "Suc m" "acc @ [(k, scalar_json v)]"] "3.prems" n by (simp del: ParseMembers.simps)
  show ?case
    using ParseString_quoted[of k "CHR '':'' # scalar_text v @ ?r"] val IH
    by (simp add: n skip_graphic sp q not_space Consume_def del: ParseValue.simps)
qed simp

section \<open>The printed text contains no NUL\<close>

definition printable :: "string \<Rightarrow> bool" where
  "printable s \<longleftrightarrow> (\<forall>b \<in> set s. 0x20 \<le> (of_char b :: nat))"

lemma printable_append [simp]: "printable (s @ t) \<longleftrightarrow> printable s \<and> printable t"
  by (auto simp: printable_def)

lemma printable_Cons [simp]: "printable (c # t) \<longleftrightarrow> 0x20 \<le> (of_char c :: nat) \<and> printable t"
  by (auto simp: printable_def)

lemma printable_Nil [simp]: "printable []"
  by (simp add: printable_def)

lemma hexDigits_printable: "k < 16 \<Longrightarrow> 0x20 \<le> (of_char (hexDigits ! k) :: nat)"
proof -
  have "\<forall>k \<in> set [0..<16]. 0x20 \<le> (of_char (hexDigits ! k) :: nat)" by code_simp
  then show "k < 16 \<Longrightarrow> ?thesis" by simp
qed

lemma reader_escape_printable: "reader_escape e = Some c \<Longrightarrow> 0x20 \<le> (of_char e :: nat)"
  by (auto simp: reader_escape_def split: if_splits)

lemma printable_write_char: "printable (write_char c)"
proof (cases c rule: writer_escape_cases)
  case (short e)
  then show ?thesis using reader_escape_printable[of e] by (simp add: write_char_def)
next
  case hex
  then have "of_char c div 16 < (16 :: nat)" "of_char c mod 16 < (16 :: nat)" by auto
  with hex show ?thesis by (simp add: write_char_def hexDigits_printable)
qed (simp add: write_char_def)

lemma printable_quoted: "printable (quoted s)"
proof -
  have "printable (concat (map write_char s))" by (induction s) (simp_all add: printable_write_char)
  then show ?thesis by (simp add: quoted_def)
qed

lemma printable_dec_int: "printable (dec_int i)"
proof -
  have "printable ds" if "all_digits ds" for ds
    using that by (induction ds) (auto simp: is_digit_def)
  then show ?thesis using dec_digits by (simp add: dec_int_def)
qed

lemma printable_object: "printable (object_text ms)"
proof -
  have "printable (scalar_text v)" for v by (cases v) (simp_all add: printable_quoted printable_dec_int)
  then have "printable (members_text ms)"
    by (induction ms rule: members_text.induct) (simp_all add: printable_quoted)
  then show ?thesis by (simp add: object_text_def)
qed

lemma c_str_printable: "printable s \<Longrightarrow> c_str s = s"
  unfolding c_str_def by (subst takeWhile_eq_all_conv) (auto simp: printable_def)

section \<open>Reading an object back\<close>

lemma Parse_object:
  assumes "ms \<noteq> []" and "\<forall>(k, v) \<in> set ms. scalar_ok v"
  shows "Parse too_big (object_text ms) = Inr (object_json ms)"
proof (rule Parse_value)
  have q: "Peek (members_text ms @ r) = CHR 0x22" for r
    using assms(1) by (cases ms rule: members_text.cases) simp_all
  have "ParseMembers too_big (Suc (length ms)) [] (members_text ms @ CHR 0x7D # [])
      = Some (Inr (object_json ms, []))"
    using ParseMembers_text[OF assms, of "Suc (length ms)" too_big "[]" "[]"] by (simp add: object_json_def)
  then show "ParseValue too_big (Suc (Suc (length ms))) (object_text ms) = Some (Inr (object_json ms, []))"
    using Consume_Peek[of "members_text ms @ [CHR 0x7D]" "CHR 0x7D"]
    by (simp add: object_text_def skip_graphic q not_space Let_def del: ParseMembers.simps)
  show "SkipWhitespace (c_str (object_text ms)) = object_text ms"
    unfolding c_str_printable[OF printable_object] by (simp add: skip_graphic object_text_def not_space)
  show "SkipWhitespace [] = []" by (simp add: SkipWhitespace_def)
qed

end
