(* ===== verification/Request_Parser.thy ===== *)
theory Request_Parser
  imports Project_Tree Config_Reader Json_Roundtrip
begin

text \<open>
  \<open>src/core/parser.cpp\<close>: requests from JSON, answers to JSON. Logging is dropped. The parameter
  \<open>too_big\<close> of the JSON reader is passed through.
\<close>

section \<open>The document (DocumentKeeper)\<close>

definition kContainerType :: string where "kContainerType = ''container_type''"
definition kCourseId :: string where "kCourseId = ''course_id''"
definition kSourceRun :: string where "kSourceRun = ''source_run''"
definition kUserCmdLineArgs :: string where "kUserCmdLineArgs = ''user_cmd_line_args''"
definition kPracticeAction :: string where "kPracticeAction = ''action''"
definition kProjectId :: string where "kProjectId = ''project_id''"

definition kSourceTest :: string where "kSourceTest = ''source_test''"
definition kCmdLineArgs :: string where "kCmdLineArgs = ''cmd_line_args''"
definition kProject :: string where "kProject = ''project''"
definition kProjectContents :: string where "kProjectContents = ''project_contents''"

lemmas request_keys = kContainerType_def kCourseId_def kSourceRun_def kUserCmdLineArgs_def
  kPracticeAction_def kProjectId_def kSourceTest_def kCmdLineArgs_def kProject_def kProjectContents_def

definition getArray :: "json \<Rightarrow> string list res" where
  "getArray src = rbind (GetArray src) (mapM GetString)"

definition DocumentKeeper :: "(string \<Rightarrow> bool) \<Rightarrow> string \<Rightarrow> json res" where
  "DocumentKeeper too_big body =
     (case Parse too_big body of
        Inl _ \<Rightarrow> Inl (Throw (Runtime_error ''Incorrect input json''))
      | Inr document \<Rightarrow> Inr document)"

definition getString :: "json \<Rightarrow> string \<Rightarrow> string res" where
  "getString document m = rbind (member_at document m) GetCString"

definition hasField :: "json \<Rightarrow> string \<Rightarrow> bool res" where
  "hasField document m = HasMember document m"

definition isString :: "json \<Rightarrow> string \<Rightarrow> bool res" where
  "isString document m = rbind (member_at document m) (\<lambda>v. Inr (IsString v))"

definition isArray :: "json \<Rightarrow> string \<Rightarrow> bool res" where
  "isArray document m = rbind (member_at document m) (\<lambda>v. Inr (IsArray v))"

definition requiredFieldIsOk :: "json \<Rightarrow> string \<Rightarrow> bool res" where
  "requiredFieldIsOk document m =
     rbind (hasField document m) (\<lambda>has. if has then isString document m else Inr False)"

fun requiredFieldsAreOk :: "json \<Rightarrow> string list \<Rightarrow> bool res" where
  "requiredFieldsAreOk document [] = Inr True"
| "requiredFieldsAreOk document (field # fs) =
     rbind (requiredFieldIsOk document field) (\<lambda>ok.
       if \<not> ok then Inr False else requiredFieldsAreOk document fs)"

definition requiredFieldIsObject :: "json \<Rightarrow> string \<Rightarrow> bool res" where
  "requiredFieldIsObject document m = rbind (member_at document m) (\<lambda>v. Inr (IsObject v))"

text \<open>\<open>GetArray()\<close> wraps a reference to the member, which is converted back to that reference.\<close>

definition getArray_field :: "json \<Rightarrow> string \<Rightarrow> json res" where
  "getArray_field document field = member_at document field"

definition getProject :: "json \<Rightarrow> string res" where
  "getProject document = rbind (member_at document ''project'') GetCString"

definition getPractice :: "json \<Rightarrow> string res" where
  "getPractice document = rbind (member_at document ''project_contents'') GetCString"

definition getPracticeAction_field :: "json \<Rightarrow> string res" where
  "getPracticeAction_field document = rbind (member_at document ''action'') GetCString"

section \<open>Requests\<close>

fun getRequiredFields :: "Api \<Rightarrow> string list" where
  "getRequiredFields Chapter = [kContainerType, kSourceRun]"
| "getRequiredFields Playground = [kContainerType]"
| "getRequiredFields Practice_api = []"

fun getContainerTypeString :: "Api \<Rightarrow> string" where
  "getContainerTypeString Chapter = kContainerType"
| "getContainerTypeString Playground = kContainerType"
| "getContainerTypeString Practice_api = kCourseId"

text \<open>The loop over the required fields returns \<open>{}\<close> at the first field that is not a string.\<close>

definition parseCommon :: "json \<Rightarrow> Api \<Rightarrow> RequiredParams res" where
  "parseCommon document api =
     rbind (requiredFieldsAreOk document (getRequiredFields api)) (\<lambda>ok.
       if \<not> ok then Inr empty_RequiredParams
       else rbind (rbind (getString document (getContainerTypeString api)) getLanguageFromString) (\<lambda>lang.
         rbind (hasField document kCmdLineArgs) (\<lambda>has.
           if \<not> has then Inr \<lparr>language = lang, cmdLineArgs = []\<rparr>
           else rbind (isArray document kCmdLineArgs) (\<lambda>arr.
             if \<not> arr then Inr empty_RequiredParams
             else rbind (rbind (getArray_field document kCmdLineArgs) getArray) (\<lambda>args.
               Inr \<lparr>language = lang, cmdLineArgs = args\<rparr>)))))"

definition parseTask :: "(string \<Rightarrow> bool) \<Rightarrow> string \<Rightarrow> ChapterTaskParams res" where
  "parseTask too_big body =
     rbind (DocumentKeeper too_big body) (\<lambda>document.
     rbind (requiredFieldIsOk document kSourceTest) (\<lambda>ok.
       if \<not> ok then Inr empty_ChapterTaskParams
       else rbind (parseCommon document Chapter) (\<lambda>codeParams.
         rbind (getString document kSourceRun) (\<lambda>run.
         rbind (getString document kSourceTest) (\<lambda>test.
           Inr \<lparr>language = language codeParams, cmdLineArgs = cmdLineArgs codeParams,
                sourceRun = run, sourceTest = test\<rparr>)))))"

definition parseProject :: "(string \<Rightarrow> bool) \<Rightarrow> string \<Rightarrow> Project res" where
  "parseProject too_big text =
     rbind (jsonToDirectory too_big text) (\<lambda>directory.
       Inr \<lparr>project_name = dir_name directory, pathsContents = getPathsToFiles directory\<rparr>)"

definition getPracticeAction :: "string \<Rightarrow> PracticeAction" where
  "getPracticeAction action = (if action = ''run'' then Run else Test)"

definition parsePlayground :: "(string \<Rightarrow> bool) \<Rightarrow> string \<Rightarrow> PlaygroundTaskParams res" where
  "parsePlayground too_big body =
     rbind (DocumentKeeper too_big body) (\<lambda>document.
     rbind (requiredFieldIsOk document kProject) (\<lambda>ok.
       if \<not> ok then Inr empty_PlaygroundTaskParams
       else rbind (parseCommon document Playground) (\<lambda>codeParams.
         rbind (rbind (getProject document) (parseProject too_big)) (\<lambda>proj.
           Inr \<lparr>language = language codeParams, cmdLineArgs = cmdLineArgs codeParams,
                project = proj\<rparr>))))"

definition parsePractice :: "(string \<Rightarrow> bool) \<Rightarrow> string \<Rightarrow> RunPracticeParams res" where
  "parsePractice too_big body =
     rbind (DocumentKeeper too_big body) (\<lambda>document.
     rbind (requiredFieldsAreOk document
              [kProjectContents, kCourseId, kPracticeAction, kUserCmdLineArgs, kProjectId]) (\<lambda>ok.
       if \<not> ok then Inr empty_RunPracticeParams
       else
         rbind (rbind (getString document (getContainerTypeString Practice_api)) getLanguageFromString) (\<lambda>lang.
         rbind (rbind (getPractice document) (parseProject too_big)) (\<lambda>proj.
         rbind (getPracticeAction_field document) (\<lambda>action.
         rbind (getString document kUserCmdLineArgs) (\<lambda>args.
         rbind (getMainFile (pathsContents proj)) (\<lambda>main.
           Inr \<lparr>practice_language = lang, userCmdLineArgs = args, pathToMainFile = main,
                practice = \<lparr>practice_project = proj, practice_action = getPracticeAction action\<rparr>\<rparr>)))))))"

section \<open>Answers\<close>

definition kDockerTimeoutCode :: size_t where "kDockerTimeoutCode = 124"
definition kDockerMemoryKill :: size_t where "kDockerMemoryKill = 137"

definition write_members :: "ErrorCode \<Rightarrow> (Writer, unit) op \<Rightarrow> (Writer, unit) op" where
  "write_members code rest =
     sbind StartObject (\<lambda>_. sbind (Key ''status_code'') (\<lambda>_.
     sbind (Int64 (scast code)) (\<lambda>_. sbind (Key ''user_code_output'') (\<lambda>_.
     sbind rest (\<lambda>_. EndObject)))))"

definition buffer_string :: "(Writer, unit) op \<Rightarrow> string res" where
  "buffer_string p = (case p Writer_init of (Inl e, w) \<Rightarrow> Inl e | (Inr _, w) \<Rightarrow> Inr (c_str (os w)))"

definition makeJsonCourse :: "Response \<Rightarrow> string res" where
  "makeJsonCourse response =
     (let code = sourceCode response in
      buffer_string (write_members code
        (if (scast code :: size_t) = kDockerTimeoutCode then String_event ''Timeout''
         else if (scast code :: size_t) = kDockerMemoryKill then String_event ''Out of memory''
         else sbind (String_event (output_text response)) (\<lambda>_.
           case testsOutput response of
             None \<Rightarrow> sret ()
           | Some t \<Rightarrow> sbind (Key ''tests_output'') (\<lambda>_. String_event t)))))"

definition makeJsonPlayground :: "Response \<Rightarrow> string res" where
  "makeJsonPlayground response = makeJsonCourse response"

definition makeErrorJson :: "string \<Rightarrow> string res" where
  "makeErrorJson message =
     buffer_string (sbind StartObject (\<lambda>_. sbind (Key ''output'') (\<lambda>_.
       sbind (String_event message) (\<lambda>_. EndObject))))"

section \<open>What the answers are\<close>

definition answer_text :: "Response \<Rightarrow> string" where
  "answer_text r =
     (if sint (sourceCode r) = 124 then ''Timeout''
      else if sint (sourceCode r) = 137 then ''Out of memory'' else output_text r)"

definition answer_members :: "Response \<Rightarrow> (string \<times> scalar) list" where
  "answer_members r =
     [(''status_code'', SInt (sint (sourceCode r))), (''user_code_output'', SStr (answer_text r))]
     @ (if sint (sourceCode r) = 124 \<or> sint (sourceCode r) = 137 then []
        else (case testsOutput r of None \<Rightarrow> [] | Some t \<Rightarrow> [(''tests_output'', SStr t)]))"

text \<open>A string whose reservation in the writer does not wrap: up to 715 million bytes.\<close>

definition fits32 :: "string \<Rightarrow> bool" where
  "fits32 s \<longleftrightarrow> 6 * length s + 2 < 2 ^ 32"

lemma write_char_length: "length (write_char c) \<le> 6"
  by (simp add: write_char_def split: option.splits)

lemma written_length: "length (concat (map write_char s)) \<le> 6 * length s"
proof (induction s)
  case (Cons c s)
  then show ?case using write_char_length[of c] by simp
qed simp

text \<open>The part of a string that the writer sees, and whether that part fits into the room reserved for it.\<close>

definition part32 :: "string \<Rightarrow> string" where
  "part32 s = take (unat (word_of_nat (length s) :: 32 word)) s"

definition room :: "string \<Rightarrow> bool" where
  "room s \<longleftrightarrow> length (quoted (part32 s)) \<le> unat (2 + word_of_nat (length s) * 6 :: 32 word)"

lemma WriteString_room:
  "WriteString s w = (if room s then (Inr (), Put (quoted (part32 s)) w) else (Inl (Undefined kNoRoom), w))"
  by (simp add: WriteString_def room_def part32_def quoted_def Let_def)

lemma fits32_room:
  assumes "fits32 s"
  shows "room s" and "part32 s = s"
proof -
  let ?len = "word_of_nat (length s) :: 32 word"
  have len: "unat ?len = length s" using assms by (simp add: fits32_def unat_word_of_nat)
  have eq: "2 + ?len * 6 = word_of_nat (6 * length s + 2)" by (simp add: mult.commute)
  have "unat (2 + ?len * 6) = 6 * length s + 2"
    unfolding eq unsigned_of_nat of_nat_id by (rule take_bit_nat_eq_self) (use assms in \<open>simp add: fits32_def\<close>)
  with len written_length[of s] show "room s" by (simp add: room_def part32_def quoted_def)
  show "part32 s = s" using len by (simp add: part32_def)
qed

lemma sint_scast: "sint (scast (v :: 32 word) :: 64 word) = sint v"
proof -
  have "- (2 ^ 31) \<le> sint v" "sint v < 2 ^ 31" using sint_greater_eq[of v] sint_less[of v] by simp_all
  then show ?thesis by (simp add: signed_scast_eq signed_take_bit_int_eq_self)
qed

lemma word64_eq_sint: "(x :: 64 word) = y \<longleftrightarrow> sint x = sint y"
  by (auto intro: signed_word_eqI)

lemma scast_eq_code:
  "(scast (v :: 32 word) :: size_t) = kDockerTimeoutCode \<longleftrightarrow> sint v = 124"
  "(scast (v :: 32 word) :: size_t) = kDockerMemoryKill \<longleftrightarrow> sint v = 137"
  by (simp_all only: kDockerTimeoutCode_def kDockerMemoryKill_def word64_eq_sint sint_scast) simp_all

lemma put_append [simp]: "Put s (Put t w) = Put (t @ s) w"
  by (simp add: Put_def)

lemma put_sel [simp]:
  "level_stack (Put s w) = level_stack w" "hasRoot (Put s w) = hasRoot w" "os (Put s w) = os w @ s"
  by (simp_all add: Put_def)

text \<open>Inside an object the writer alternates keys and values.\<close>

definition in_object :: "size_t \<Rightarrow> string \<Rightarrow> Writer" where
  "in_object n s = \<lparr>os = s, level_stack = [\<lparr>valueCount = n, inArray = False\<rparr>], hasRoot = True\<rparr>"

lemma start_object: "StartObject Writer_init = (Inr (), in_object 0 [CHR 0x7B])"
  by (simp add: StartObject_def Prefix_def Writer_init_def in_object_def sbind_def Put_def)

lemma end_object:
  "EndObject (in_object n s) = (Inr (), \<lparr>os = s @ [CHR 0x7D], level_stack = [], hasRoot = True\<rparr>)"
  by (simp add: EndObject_def in_object_def Put_def)

lemma key_event:
  "fits32 k \<Longrightarrow> n mod 2 = 0 \<Longrightarrow>
   Key k (in_object n s) = (Inr (), in_object (n + 1) (s @ (if n > 0 then '','' else []) @ quoted k))"
  by (simp add: Key_def String_event_def WriteString_room fits32_room Prefix_def in_object_def sbind_def Put_def)

lemma string_value:
  "n mod 2 = 1 \<Longrightarrow>
   String_event v (in_object n s) =
     (if room v then (Inr (), in_object (n + 1) (s @ '':'' @ quoted (part32 v)))
      else (Inl (Undefined kNoRoom), in_object (n + 1) (s @ '':'')))"
  by (cases "n = 0")
    (simp_all add: String_event_def WriteString_room Prefix_def in_object_def sbind_def Put_def word_neq_0_conv)

lemma int_value:
  "n mod 2 = 1 \<Longrightarrow>
   Int64 (scast (c :: 32 word)) (in_object n s) = (Inr (), in_object (n + 1) (s @ '':'' @ dec_int (sint c)))"
  by (cases "n = 0") (simp_all add: Int64_def Prefix_def in_object_def sbind_def Put_def word_neq_0_conv
      i64toa_dec sint_scast)

lemmas writer_events = start_object end_object key_event string_value int_value sbind_def

lemma buffer_string_simps:
  "p Writer_init = (Inr (), \<lparr>os = object_text ms, level_stack = [], hasRoot = True\<rparr>) \<Longrightarrow>
   buffer_string p = Inr (object_text ms)"
  "p Writer_init = (Inl e, w) \<Longrightarrow> buffer_string p = Inl e"
  by (simp_all add: buffer_string_def c_str_printable printable_object)

lemma fits32_keys: "fits32 ''status_code''" "fits32 ''user_code_output''" "fits32 ''tests_output''"
  "fits32 ''Timeout''" "fits32 ''Out of memory''" "fits32 ''output''"
  by (simp_all add: fits32_def)

lemmas keys_room = fits32_room[OF fits32_keys(4)] fits32_room[OF fits32_keys(5)]

lemma makeErrorJson_room:
  "makeErrorJson message =
     (if room message then Inr (object_text [(''output'', SStr (part32 message))]) else Inl (Undefined kNoRoom))"
proof -
  let ?p = "sbind StartObject (\<lambda>_. sbind (Key ''output'') (\<lambda>_. sbind (String_event message) (\<lambda>_. EndObject)))"
  have "?p Writer_init = (Inr (), \<lparr>os = object_text [(''output'', SStr (part32 message))], level_stack = [], hasRoot = True\<rparr>)"
    if "room message" using that by (simp add: writer_events fits32_keys object_text_def)
  moreover have "\<exists>w. ?p Writer_init = (Inl (Undefined kNoRoom), w)" if "\<not> room message"
    using that by (simp add: writer_events fits32_keys)
  ultimately show ?thesis unfolding makeErrorJson_def using buffer_string_simps by fastforce
qed

text \<open>What is written of a response, and when there is room for it.\<close>

definition written_part :: "Response \<Rightarrow> Response" where
  "written_part r = r\<lparr>output_text := part32 (output_text r), testsOutput := map_option part32 (testsOutput r)\<rparr>"

definition answer_room :: "Response \<Rightarrow> bool" where
  "answer_room r \<longleftrightarrow> sint (sourceCode r) = 124 \<or> sint (sourceCode r) = 137
     \<or> room (output_text r) \<and> (\<forall>t. testsOutput r = Some t \<longrightarrow> room t)"

lemma makeJsonCourse_room:
  "makeJsonCourse r =
     (if answer_room r then Inr (object_text (answer_members (written_part r))) else Inl (Undefined kNoRoom))"
proof -
  let ?w = "write_members (sourceCode r)
      (if (scast (sourceCode r) :: size_t) = kDockerTimeoutCode then String_event ''Timeout''
       else if (scast (sourceCode r) :: size_t) = kDockerMemoryKill then String_event ''Out of memory''
       else sbind (String_event (output_text r)) (\<lambda>_.
         case testsOutput r of None \<Rightarrow> sret () | Some t \<Rightarrow> sbind (Key ''tests_output'') (\<lambda>_. String_event t)))
      Writer_init"
  note defs = write_members_def writer_events scast_eq_code answer_room_def fits32_keys keys_room
  have "?w = (Inr (), \<lparr>os = object_text (answer_members (written_part r)), level_stack = [], hasRoot = True\<rparr>)"
    if "answer_room r"
    using that by (cases "testsOutput r")
      (auto simp: defs object_text_def answer_members_def answer_text_def written_part_def)
  moreover have "\<exists>w. ?w = (Inl (Undefined kNoRoom), w)" if "\<not> answer_room r"
    using that by (cases "testsOutput r") (auto simp: defs)
  ultimately show ?thesis
    unfolding makeJsonCourse_def Let_def using buffer_string_simps by fastforce
qed

lemma fits_written_part:
  assumes "fits32 (output_text r)" and "\<forall>t. testsOutput r = Some t \<longrightarrow> fits32 t"
  shows "answer_room r" and "written_part r = r"
  using assms by (cases "testsOutput r"; simp add: answer_room_def written_part_def fits32_room)+

section \<open>Fields of a request\<close>

definition string_field :: "(string \<times> json) list \<Rightarrow> string \<Rightarrow> string option" where
  "string_field ms k = (case find_member ms k of Some (JString s) \<Rightarrow> Some s | _ \<Rightarrow> None)"

lemma requiredFieldIsOk_object:
  "requiredFieldIsOk (JObject ms) k = Inr (string_field ms k \<noteq> None)"
  by (auto simp: requiredFieldIsOk_def hasField_def isString_def IsString_def string_field_def
      split: option.splits json.splits)

lemma requiredFieldsAreOk_object:
  "requiredFieldsAreOk (JObject ms) ks = Inr (\<forall>k \<in> set ks. string_field ms k \<noteq> None)"
  by (induction ks) (auto simp: requiredFieldIsOk_object)

lemma getString_field: "string_field ms k = Some s \<Longrightarrow> getString (JObject ms) k = Inr (c_str s)"
  by (auto simp: getString_def string_field_def split: option.splits json.splits)


text \<open>The elements of an array that can be taken as strings, and those whose bytes are read as something else.\<close>

definition readable :: "json \<Rightarrow> bool" where
  "readable v \<longleftrightarrow> IsString v \<or> null_pointer v \<and> data_size v = Some 0"


definition first_bad :: "json list \<Rightarrow> json option" where
  "first_bad vs = (case dropWhile readable vs of [] \<Rightarrow> None | v # _ \<Rightarrow> Some v)"


lemma first_bad_simps [simp]:
  "first_bad [] = None"
  "readable v \<Longrightarrow> first_bad (v # vs) = first_bad vs"
  "\<not> readable v \<Longrightarrow> first_bad (v # vs) = Some v"
  by (simp_all add: first_bad_def)


lemma mapM_strings: "mapM GetString (map JString args) = Inr args"
  by (induction args) simp_all

lemma parseCommon_object:
  assumes "api \<noteq> Practice_api"
  shows "parseCommon (JObject ms) api =
    (if \<exists>k \<in> set (getRequiredFields api). string_field ms k = None then Inr empty_RequiredParams
     else rbind (getLanguageFromString (c_str (the (string_field ms kContainerType)))) (\<lambda>lang.
       case find_member ms kCmdLineArgs of
         None \<Rightarrow> Inr \<lparr>language = lang, cmdLineArgs = []\<rparr>
       | Some (JArray vs) \<Rightarrow> rbind (mapM GetString vs) (\<lambda>args. Inr \<lparr>language = lang, cmdLineArgs = args\<rparr>)
       | Some _ \<Rightarrow> Inr empty_RequiredParams))"
proof -
  have "kContainerType \<in> set (getRequiredFields api)" and "getContainerTypeString api = kContainerType"
    using assms by (cases api; simp)+
  then show ?thesis
  proof (cases "string_field ms kContainerType")
    case (Some t)
    with \<open>getContainerTypeString api = _\<close> show ?thesis
      by (auto simp: parseCommon_def requiredFieldsAreOk_object getString_field rbind_assoc hasField_def
          isArray_def IsArray_def getArray_field_def getArray_def split: option.splits json.splits intro!: rbind_cong)
  qed (auto simp: parseCommon_def requiredFieldsAreOk_object)
qed

lemma DocumentKeeper_Inr: "Parse too_big body = Inr doc \<Longrightarrow> DocumentKeeper too_big body = Inr doc"
  by (simp add: DocumentKeeper_def)


lemma parseTask_object:
  assumes "Parse too_big body = Inr (JObject ms)"
  shows "parseTask too_big body =
    (case string_field ms kSourceTest of
       None \<Rightarrow> Inr empty_ChapterTaskParams
     | Some test \<Rightarrow>
         rbind (parseCommon (JObject ms) Chapter) (\<lambda>codeParams.
         rbind (getString (JObject ms) kSourceRun) (\<lambda>run.
           Inr \<lparr>language = language codeParams, cmdLineArgs = cmdLineArgs codeParams,
                sourceRun = run, sourceTest = c_str test\<rparr>)))"
  using DocumentKeeper_Inr[OF assms]
  by (auto simp: parseTask_def requiredFieldIsOk_object getString_field split: option.splits intro!: rbind_cong)

lemma parseTask_complete:
  assumes "Parse too_big body = Inr (JObject ms)"
    and "string_field ms kContainerType = Some t" and "getLanguageFromString (c_str t) = Inr lang"
    and "string_field ms kSourceRun = Some run" and "string_field ms kSourceTest = Some test"
    and "find_member ms kCmdLineArgs = (if args = [] then None else Some (JArray (map JString args)))"
  shows "parseTask too_big body
    = Inr \<lparr>language = lang, cmdLineArgs = args, sourceRun = c_str run, sourceTest = c_str test\<rparr>"
  using assms mapM_strings[of args]
  by (simp add: parseTask_object[OF assms(1)] parseCommon_object getString_field split: if_splits)

lemma makeJsonCourse_parses:
  assumes "fits32 (output_text r)" and "\<forall>t. testsOutput r = Some t \<longrightarrow> fits32 t"
  shows "\<exists>text. makeJsonCourse r = Inr text \<and> Parse too_big text = Inr (object_json (answer_members r))"
proof -
  have "- (2 ^ 31) \<le> sint (sourceCode r)" "sint (sourceCode r) < 2 ^ 31"
    using sint_greater_eq[of "sourceCode r"] sint_less[of "sourceCode r"] by simp_all
  then have "\<forall>(k, v) \<in> set (answer_members r). scalar_ok v"
    by (auto simp: answer_members_def split: option.splits)
  with fits_written_part[OF assms] show ?thesis
    using Parse_object[of "answer_members r" too_big] by (auto simp: makeJsonCourse_room answer_members_def)
qed

lemma parseError: "Parse too_big body = Inl e \<Longrightarrow> DocumentKeeper too_big body = Inl (Throw (Runtime_error ''Incorrect input json''))"
  by (simp add: DocumentKeeper_def)




section \<open>Properties\<close>

text \<open>
  C6. The answer of the service is a JSON object that says what the response holds: whatever bytes
  the program printed, the text made by \<open>makeJsonCourse\<close> parses back to the status code (negative
  codes included), the output, or \<open>Timeout\<close> and \<open>Out of memory\<close> for the codes 124 and 137, and the
  output of the tests if there is one.
\<close>

theorem answer_roundtrip:
  assumes "fits32 (output_text r)" and "\<forall>t. testsOutput r = Some t \<longrightarrow> fits32 t"
  shows "\<exists>text. makeJsonCourse r = Inr text \<and> Parse too_big text = Inr (object_json (answer_members r))"
  by (rule makeJsonCourse_parses[OF assms])

theorem answer_roundtrip_witness:
  "\<exists>text. makeJsonCourse (mk_response kInvalidCode [CHR 0x22, CHR 0x00, CHR 0x0A] (Some ''ok'')) = Inr text
     \<and> Parse (\<lambda>_. False) text = Inr (JObject [(''status_code'', JInt (- 1)),
         (''user_code_output'', JString [CHR 0x22, CHR 0x00, CHR 0x0A]), (''tests_output'', JString ''ok'')])"
  using answer_roundtrip[of "mk_response kInvalidCode [CHR 0x22, CHR 0x00, CHR 0x0A] (Some ''ok'')" "\<lambda>_. False"]
  by (simp add: fits32_def kInvalidCode_def answer_members_def answer_text_def object_json_def)

text \<open>
  A complete chapter request is understood: whatever the order of its members and whatever other
  members it has, the parameters are the language, the arguments and the two sources it holds (sources up
  to their first NUL).
\<close>

theorem chapter_request:
  assumes "Parse too_big body = Inr (JObject ms)"
    and "string_field ms kContainerType = Some t" and "getLanguageFromString (c_str t) = Inr lang"
    and "string_field ms kSourceRun = Some run" and "string_field ms kSourceTest = Some test"
    and "find_member ms kCmdLineArgs = (if args = [] then None else Some (JArray (map JString args)))"
  shows "parseTask too_big body
    = Inr \<lparr>language = lang, cmdLineArgs = args, sourceRun = c_str run, sourceTest = c_str test\<rparr>"
  by (rule parseTask_complete[OF assms])

theorem chapter_request_witness:
  "parseTask (\<lambda>_. False) (object_text [(''source_test'', SStr ''t''), (''container_type'', SStr ''rust''),
      (''source_run'', SStr ''fn main() {}'')])
   = Inr \<lparr>language = RUST, cmdLineArgs = [], sourceRun = ''fn main() {}'', sourceTest = ''t''\<rparr>"
  using chapter_request[OF Parse_object[of "[(''source_test'', SStr ''t''), (''container_type'', SStr ''rust''),
      (''source_run'', SStr ''fn main() {}'')]" "\<lambda>_. False", unfolded object_json_def], of "''rust''" RUST
      "''fn main() {}''" "''t''" "[]"]
  by (simp add: string_field_def request_keys getLanguageFromString_def kLanguagesMatch_def c_str_def)



text \<open>
  C36. A request whose \<open>cmd_line_args\<close> is not an array is run in the wrong language: the sources are
  taken over, but the language becomes C++ whatever the request asks for.
\<close>

theorem wrong_arguments_run_cpp:
  assumes "Parse too_big body = Inr (JObject ms)"
    and "string_field ms kContainerType = Some t" and "getLanguageFromString (c_str t) = Inr lang"
    and "string_field ms kSourceRun = Some run" and "string_field ms kSourceTest = Some test"
    and "find_member ms kCmdLineArgs = Some v" and "\<not> IsArray v"
  shows "parseTask too_big body
    = Inr \<lparr>language = CPP, cmdLineArgs = [], sourceRun = c_str run, sourceTest = c_str test\<rparr>"
  using assms
  by (cases v) (simp_all add: parseTask_object[OF assms(1)] parseCommon_object getString_field
      empty_RequiredParams_def IsArray_def)

theorem wrong_arguments_run_cpp_witness:
  "parseTask (\<lambda>_. False) (object_text [(''source_test'', SStr ''t''), (''container_type'', SStr ''python''),
      (''source_run'', SStr ''print(1)''), (''cmd_line_args'', SStr ''-v'')])
   = Inr \<lparr>language = CPP, cmdLineArgs = [], sourceRun = ''print(1)'', sourceTest = ''t''\<rparr>"
  using wrong_arguments_run_cpp[OF Parse_object[of "[(''source_test'', SStr ''t''),
      (''container_type'', SStr ''python''), (''source_run'', SStr ''print(1)''), (''cmd_line_args'', SStr ''-v'')]"
      "\<lambda>_. False", unfolded object_json_def], of "''python''" PYTHON "''print(1)''" "''t''" "JString ''-v''"]
  by (simp add: string_field_def request_keys getLanguageFromString_def kLanguagesMatch_def c_str_def IsArray_def)

end
