(* ===== verification/Server.thy ===== *)
theory Server
  imports Service Request_Parser
begin

text \<open>
  \<open>src/server/detail/server_impl.cpp\<close>: from an HTTP request to the JSON of its answer. The HTTP library
  (restinio) and the thread pool (unifex) only carry requests and answers; a request is a record of
  what the handlers read of it, an answer a record of what they set. Logging is dropped.
\<close>

section \<open>Handles\<close>

definition kCheck :: string where "kCheck = ''/check''"
definition kPlayground :: string where "kPlayground = ''/playground''"
definition kPractice :: string where "kPractice = ''/practice''"

definition getApi :: "string \<Rightarrow> Api option" where
  "getApi handle =
     (if handle = kCheck then Some Chapter
      else if handle = kPlayground then Some Playground
      else if handle = kPractice then Some Practice_api
      else None)"

section \<open>Processing a request\<close>

text \<open>\<open>try { \<dots> } catch (std::exception const &)\<close>: what the body did to the state stays done.\<close>

definition stry :: "('s, 'a) op \<Rightarrow> (exn \<Rightarrow> ('s, 'a) op) \<Rightarrow> ('s, 'a) op" where
  "stry m handler s = (case m s of (Inl (Throw e), s') \<Rightarrow> handler e s' | r \<Rightarrow> r)"

lemma stry_simps [simp, res_simps]:
  "m s = (Inr x, s') \<Longrightarrow> stry m f s = (Inr x, s')"
  "m s = (Inl (Throw e), s') \<Longrightarrow> stry m f s = f e s'"
  "m s = (Inl (Abort w), s') \<Longrightarrow> stry m f s = (Inl (Abort w), s')"
  "m s = (Inl (Undefined w), s') \<Longrightarrow> stry m f s = (Inl (Undefined w), s')"
  "m s = (Inl Block, s') \<Longrightarrow> stry m f s = (Inl Block, s')"
  by (simp_all add: stry_def)

type_synonym 'd env = "'d docker_client \<times> tar_creator \<times> (string \<Rightarrow> bool)"

definition processCheck :: "'d env \<Rightarrow> string \<Rightarrow> ('d pool, string) op" where
  "processCheck env body =
     (case env of (c, tar, too_big) \<Rightarrow>
        sbind (slift (parseTask too_big body)) (\<lambda>params.
        sbind (runChapter c tar params) (\<lambda>response. slift (makeJsonCourse response))))"

definition processPlayground_api :: "'d env \<Rightarrow> string \<Rightarrow> ('d pool, string) op" where
  "processPlayground_api env body =
     (case env of (c, tar, too_big) \<Rightarrow>
        sbind (slift (parsePlayground too_big body)) (\<lambda>params.
        sbind (runPlayground c tar params) (\<lambda>response. slift (makeJsonPlayground response))))"

definition processPractice :: "'d env \<Rightarrow> string \<Rightarrow> ('d pool, string) op" where
  "processPractice env body =
     (case env of (c, tar, too_big) \<Rightarrow>
        sbind (slift (parsePractice too_big body)) (\<lambda>params.
        sbind (runPractice c tar params) (\<lambda>response. slift (makeJsonPlayground response))))"

definition processRequest :: "'d env \<Rightarrow> string \<Rightarrow> string \<Rightarrow> ('d pool, string) op" where
  "processRequest env apiString body =
     (case getApi apiString of
        None \<Rightarrow> slift (makeErrorJson (''Unknowon api: '' @ apiString))
      | Some api \<Rightarrow>
          stry
            (case api of
               Chapter \<Rightarrow> processCheck env body
             | Playground \<Rightarrow> processPlayground_api env body
             | Practice_api \<Rightarrow> processPractice env body)
            (\<lambda>e. slift (makeErrorJson
               (''Error while processing handle `'' @ apiString @ ''` '' @ exn_what e))))"

section \<open>HTTP\<close>

record http_request =
  request_method :: string
  request_path :: string
  request_body :: string
  http_major :: nat

record http_response =
  version_header :: string
  content_type_header :: string
  status_uri_header :: string
  response_body :: string

definition internalProcessRequest :: "'d env \<Rightarrow> http_request \<Rightarrow> ('d pool, http_response) op" where
  "internalProcessRequest env req =
     stry
       (sbind (processRequest env (request_path req) (request_body req)) (\<lambda>result.
          sret \<lparr>version_header = dec (http_major req), content_type_header = ''application/json'',
                status_uri_header = ''200'', response_body = result\<rparr>))
       (\<lambda>ex. sret \<lparr>version_header = dec (http_major req), content_type_header = ''application/json'',
                status_uri_header = ''500'',
                response_body = [CHR 0x7B, CHR 0x22] @ ''error'' @ [CHR 0x22, CHR 0x3A, CHR 0x22]
                  @ ''something went wrong'' @ [CHR 0x22, CHR 0x7D]\<rparr>)"

datatype request_handling_status = request_accepted | request_rejected

text \<open>
  \<open>AsyncContext::schedule\<close> hands a task to the thread pool; the task is the processing of a request, and the
  state is the list of tasks that no thread has taken yet.
\<close>

definition AsyncContext_schedule :: "http_request \<Rightarrow> http_request list \<Rightarrow> http_request list" where
  "AsyncContext_schedule req scheduled = scheduled @ [req]"

text \<open>
  The handler given to restinio: it accepts only POST requests, whose processing it schedules on the
  thread pool.
\<close>

definition request_handler :: "http_request \<Rightarrow> http_request list \<Rightarrow> request_handling_status \<times> http_request list" where
  "request_handler req scheduled =
     (if request_method req \<noteq> ''POST'' then (request_rejected, scheduled)
      else (request_accepted, AsyncContext_schedule req scheduled))"

text \<open>
  The members of the server: the service, over its pool, and the number of threads. \<open>AsyncContext\<close> takes a \<open>size_t\<close> and
  hands it to \<open>static_thread_pool\<close>, whose constructor takes a \<open>uint32_t\<close>.
\<close>

definition AsyncContext_init :: "size_t \<Rightarrow> 32 word" where
  "AsyncContext_init poolSize = ucast poolSize"

definition ServerImpl_init :: "'d docker_client \<Rightarrow> Config \<Rightarrow> 'd \<Rightarrow> 'd pool \<times> 32 word" where
  "ServerImpl_init c config d = (provider_init c config d, AsyncContext_init (threadPoolSize config))"

definition thread_count :: "Config \<Rightarrow> nat" where
  "thread_count config = unat (AsyncContext_init (threadPoolSize config))"

lemma thread_count_mod: "thread_count config = unat (threadPoolSize config) mod 2 ^ 32"
  by (simp add: thread_count_def AsyncContext_init_def unsigned_ucast_eq take_bit_eq_mod)

lemma sbind_assoc: "sbind (sbind m f) g = sbind m (\<lambda>x. sbind (f x) g)"
  by (rule ext) (auto simp: sbind_def split: prod.splits sum.splits)

section \<open>What an answer is\<close>







section \<open>The handlers, run and answer\<close>

text \<open>
  Each handler is: parse, run, write the answer. \<open>handler_run\<close> is the first two steps, of any API.
\<close>

definition handler_run :: "'d env \<Rightarrow> Api \<Rightarrow> string \<Rightarrow> ('d pool, Response) op" where
  "handler_run env api body =
     (case env of (c, tar, too_big) \<Rightarrow>
        (case api of
           Chapter \<Rightarrow> sbind (slift (parseTask too_big body)) (runChapter c tar)
         | Playground \<Rightarrow> sbind (slift (parsePlayground too_big body)) (runPlayground c tar)
         | Practice_api \<Rightarrow> sbind (slift (parsePractice too_big body)) (runPractice c tar)))"

definition parse_outcome :: "(string \<Rightarrow> bool) \<Rightarrow> Api \<Rightarrow> string \<Rightarrow> unit res" where
  "parse_outcome too_big api body =
     (case api of
        Chapter \<Rightarrow> rbind (parseTask too_big body) (\<lambda>_. Inr ())
      | Playground \<Rightarrow> rbind (parsePlayground too_big body) (\<lambda>_. Inr ())
      | Practice_api \<Rightarrow> rbind (parsePractice too_big body) (\<lambda>_. Inr ()))"




lemma sbind_slift: "sbind m (\<lambda>x. slift (f x)) s = (rbind (fst (m s)) f, snd (m s))"
  by (auto simp: sbind_def rbind_def split: prod.splits sum.splits)

lemma stry_slift: "stry m (\<lambda>e. slift (f e)) s = (try_catch (fst (m s)) f, snd (m s))"
  by (auto simp: stry_def try_catch_def split: prod.splits sum.splits failure.splits)

lemma processRequest_handler:
  assumes "getApi apiString = Some api"
  shows "processRequest env apiString body p =
    (try_catch (rbind (fst (handler_run env api body p)) makeJsonCourse)
       (\<lambda>e. makeErrorJson (''Error while processing handle `'' @ apiString @ ''` '' @ exn_what e)),
     snd (handler_run env api body p))"
proof -
  have "(case api of Chapter \<Rightarrow> processCheck env body | Playground \<Rightarrow> processPlayground_api env body
      | Practice_api \<Rightarrow> processPractice env body) = sbind (handler_run env api body) (\<lambda>r. slift (makeJsonCourse r))"
    by (cases env; cases api)
      (simp_all add: handler_run_def processCheck_def processPlayground_api_def processPractice_def sbind_assoc
        makeJsonPlayground_def)
  then show ?thesis using assms by (simp add: processRequest_def stry_slift sbind_slift)
qed

lemma processRequest_unknown:
  "getApi apiString = None \<Longrightarrow>
   processRequest env apiString body p = (makeErrorJson (''Unknowon api: '' @ apiString), p)"
  by (simp add: processRequest_def)


text \<open>
  What a request asks of the pool, once its handle is known and its body is read: nothing, or a launcher of a
  language. An unreadable body fails as its parser fails.
\<close>

definition wanted_launcher :: "(string \<Rightarrow> bool) \<Rightarrow> string \<Rightarrow> string \<Rightarrow> Language option res" where
  "wanted_launcher too_big apiString body =
     (case getApi apiString of
        None \<Rightarrow> Inr None
      | Some Chapter \<Rightarrow> rbind (parseTask too_big body) (\<lambda>params.
          Inr (if sourceRun params = [] \<and> sourceTest params = [] then None else Some (language params)))
      | Some Playground \<Rightarrow> rbind (parsePlayground too_big body) (\<lambda>params. Inr (Some (language params)))
      | Some Practice_api \<Rightarrow> rbind (parsePractice too_big body) (\<lambda>params. Inr (Some (practice_language params))))"

definition request_outcome_on ::
  "'d docker_client \<Rightarrow> nat \<Rightarrow> Language option res \<Rightarrow> 'd sys \<Rightarrow> 'a res \<Rightarrow> 'd pool \<Rightarrow> bool" where
  "request_outcome_on c t ask s r p \<longleftrightarrow>
     (case ask of Inr (Some lang) \<Rightarrow> call_outcome c t lang s r p | _ \<Rightarrow> p = sys_pool s)"

lemma handler_one_call:
  assumes "threads s t = Idle" and "pool_wf (sys_pool s)" and "getApi apiString = Some api"
    and "handler_run (c, tar, too_big) api body (sys_pool s) = (y, p)"
  shows "request_outcome_on c t (wanted_launcher too_big apiString body) s y p"
proof (cases api)
  case Chapter
  with assms(3,4) runChapter_one_call[OF assms(1,2)] show ?thesis
    by (cases "parseTask too_big body") (fastforce simp: handler_run_def wanted_launcher_def request_outcome_on_def)+
next
  case Playground
  with assms(3,4) runPlayground_one_call[OF assms(1,2)] show ?thesis
    by (cases "parsePlayground too_big body") (auto simp: handler_run_def wanted_launcher_def request_outcome_on_def)
next
  case Practice_api
  with assms(3,4) runPractice_one_call[OF assms(1,2)] show ?thesis
    by (cases "parsePractice too_big body") (auto simp: handler_run_def wanted_launcher_def request_outcome_on_def)
qed

lemma processRequest_one_call:
  assumes "threads s t = Idle" and "pool_wf (sys_pool s)"
    and "processRequest (c, tar, too_big) apiString body (sys_pool s) = (r, p)"
  shows "request_outcome_on c t (wanted_launcher too_big apiString body) s r p"
proof (cases "getApi apiString")
  case None
  with assms(3) show ?thesis by (simp add: processRequest_unknown wanted_launcher_def request_outcome_on_def)
next
  case (Some api)
  obtain y where y: "handler_run (c, tar, too_big) api body (sys_pool s) = (y, p)"
    using assms(3) Some by (metis processRequest_handler snd_conv surjective_pairing)
  have "y = Inl Block \<Longrightarrow> r = Inl Block" using assms(3) Some y by (auto simp: processRequest_handler)
  with handler_one_call[OF assms(1,2) Some y] show ?thesis
    by (auto simp: request_outcome_on_def call_outcome_def split: sum.splits option.splits)
qed

lemma processRequest_steps:
  assumes "threads s t = Idle" and "pool_wf (sys_pool s)"
    and "processRequest (c, tar, too_big) apiString body (sys_pool s) = (r, p)"
  shows "\<exists>s' ids. (pool_step c)\<^sup>*\<^sup>* s s' \<and> sys_pool s' = p \<and> threads s' = threads s
    \<and> served s' = served s @ ids \<and> length ids \<le> 1"
proof (cases "\<exists>lang. wanted_launcher too_big apiString body = Inr (Some lang)")
  case True
  with processRequest_one_call[OF assms] call_outcome_steps[OF assms(1)] show ?thesis
    by (auto simp: request_outcome_on_def)
next
  case False
  with processRequest_one_call[OF assms] have "p = sys_pool s"
    by (auto simp: request_outcome_on_def split: sum.splits option.splits)
  then show ?thesis by (intro exI[of _ s] exI[of _ "[]"]) simp
qed

lemma json_fails: "makeErrorJson m = Inl f \<Longrightarrow> f = Undefined kNoRoom" "makeJsonCourse r = Inl f \<Longrightarrow> f = Undefined kNoRoom"
  by (simp_all add: makeErrorJson_room makeJsonCourse_room split: if_splits)

lemma try_catch_Throw: "try_catch m h = Inl (Throw e) \<Longrightarrow> \<exists>e'. h e' = Inl (Throw e)"
  by (auto simp: try_catch_def split: sum.splits failure.splits)


lemma no_throw: "fst (processRequest env apiString body p) \<noteq> Inl (Throw e)"
proof (cases "getApi apiString")
  case None
  then show ?thesis using json_fails(1) by (auto simp: processRequest_unknown)
next
  case (Some api)
  then show ?thesis
    using json_fails(1) by (auto simp: processRequest_handler dest!: try_catch_Throw simp del: append.simps)
qed

lemma processRequest_error:
  assumes "getApi apiString = Some api" and "parse_outcome too_big api body = Inl (Throw e)"
  shows "processRequest (c, tar, too_big) apiString body p
    = (makeErrorJson (''Error while processing handle `'' @ apiString @ ''` '' @ exn_what e), p)"
proof -
  have "handler_run (c, tar, too_big) api body p = (Inl (Throw e), p)"
    using assms(2)
    by (cases api; cases "parseTask too_big body"; cases "parsePlayground too_big body"; cases "parsePractice too_big body")
      (auto simp: handler_run_def parse_outcome_def)
  with assms(1) show ?thesis by (simp add: processRequest_handler)
qed

lemma parse_outcome_syntax:
  assumes "Parse too_big body = Inl e"
  shows "parse_outcome too_big api body = Inl (Throw (Runtime_error ''Incorrect input json''))"
  using parseError[OF assms]
  by (cases api) (simp_all add: parse_outcome_def parseTask_def parsePlayground_def parsePractice_def)

lemma makeErrorJson_parses:
  "fits32 m \<Longrightarrow> \<exists>text. makeErrorJson m = Inr text \<and> Parse too_big text = Inr (JObject [(''output'', JString m)])"
  using fits32_room[of m] Parse_object[of "[(''output'', SStr m)]" too_big] by (simp add: makeErrorJson_room object_json_def)

lemma internal_answer:
  assumes "internalProcessRequest env req p = (Inr response, p')"
  shows "status_uri_header response = ''200''
    \<and> processRequest env (request_path req) (request_body req) p = (Inr (response_body response), p')"
proof (cases "processRequest env (request_path req) (request_body req) p")
  case (Pair r q)
  with assms no_throw[of env "request_path req" "request_body req" p] show ?thesis
    by (cases r) (auto simp: internalProcessRequest_def stry_def split: failure.splits)
qed

section \<open>A chapter request from end to end\<close>

lemma verdict_fits:
  assumes "fits32 (render eol v)"
  shows "fits32 (output_text (verdict_response v))" and "\<forall>t. testsOutput (verdict_response v) = Some t \<longrightarrow> fits32 t"
  using assms by (cases v; simp add: fits32_def)+

lemma fits32_fits: "fits32 s \<Longrightarrow> fits s"
  by (simp add: fits32_def fits_def)

lemma handler_response:
  assumes "getApi apiString = Some api" and "fst (handler_run (c, tar, too_big) api body p) = Inr r"
    and "fits32 (output_text r)" and "\<forall>t. testsOutput r = Some t \<longrightarrow> fits32 t"
  shows "\<exists>text. fst (processRequest (c, tar, too_big) apiString body p) = Inr text
    \<and> Parse too_big text = Inr (object_json (answer_members r))"
  using makeJsonCourse_parses[OF assms(3,4), of too_big] assms(1,2) by (auto simp: processRequest_handler)

lemma getApi_handles:
  "getApi ''/check'' = Some Chapter" "getApi ''/playground'' = Some Playground" "getApi ''/practice'' = Some Practice_api"
  by (simp_all add: getApi_def kCheck_def kPlayground_def kPractice_def)

lemma check_response:
  assumes "pool_wf p" and "parseTask too_big body = Inr params" and "sourceRun params \<noteq> []"
    and "chapter_run c tar params p \<lparr>exec_success = True, exec_message = m\<rparr>" and "getCourseResponse m = Inr r"
    and "fits32 (output_text r)" and "\<forall>t. testsOutput r = Some t \<longrightarrow> fits32 t"
  shows "\<exists>text. fst (processRequest (c, tar, too_big) ''/check'' body p) = Inr text
    \<and> Parse too_big text = Inr (object_json (answer_members r))"
proof -
  have "fst (runChapter c tar params p) = Inr r"
    by (rule runChapter_answer[OF assms(1) _ assms(4)]) (use assms(3,5) in \<open>simp_all add: read_result_def\<close>)
  with assms(2) show ?thesis by (intro handler_response[OF getApi_handles(1) _ assms(6,7)]) (simp add: handler_run_def)
qed

text \<open>An engine on which the demo program prints \<open>hi\<close> and passes its tests.\<close>

definition passing :: "nat docker_client" where
  "passing = demo\<lparr>client_exec := (\<lambda>_ n. ((True, render [] (Passed ''hi'' ''ok'')), n))\<rparr>"

lemma passing_run: "chapter_run passing plain_tar demo_chapter demo_pool
    \<lparr>exec_success = True, exec_message = render [] (Passed ''hi'' ''ok'')\<rparr>"
  unfolding chapter_run_def
  by (rule launcher_runI[where vs = "[]"])
    (simp_all add: demo_pool_def demo_archive kDefaultPaths_def passing_def demo_defs, simp_all add: demo_chapter_def)

definition demo_members :: "(string \<times> scalar) list" where
  "demo_members = [(''container_type'', SStr ''cpp''), (''source_run'', SStr ''int main() {}''), (''source_test'', SStr [])]"

lemma demo_body: "Parse too_big (object_text demo_members) = Inr (JObject [(''container_type'', JString ''cpp''),
    (''source_run'', JString ''int main() {}''), (''source_test'', JString [])])"
  using Parse_object[of demo_members too_big] by (simp add: demo_members_def object_json_def)

section \<open>Properties\<close>

text \<open>
  C2. A request is a run of the pool: whatever other threads hold, processing any request on an idle
  thread, whether it is answered, fails or waits, takes the shared pool through steps of \<open>pool_step\<close> to a
  reachable state, gives the thread back idle, and hands out at most one container. Everything shown of
  reachable states (exclusive use, single use, conservation) therefore holds while requests are served.
\<close>

theorem request_refines_pool:
  assumes "docker_contract c issued" and "reachable c config d s" and "threads s t = Idle"
    and "processRequest (c, tar, too_big) apiString body (sys_pool s) = (r, p)"
  shows "\<exists>s' ids. (pool_step c)\<^sup>*\<^sup>* s s' \<and> reachable c config d s' \<and> sys_pool s' = p
    \<and> threads s' = threads s \<and> served s' = served s @ ids \<and> length ids \<le> 1"
  using processRequest_steps[OF assms(3) pool_inv_wf[OF reachable_pool_inv[OF assms(2,1)]] assms(4)]
    reachable_steps[OF _ assms(2)] by blast

theorem request_refines_pool_witness:
  "\<exists>s' ids. (pool_step demo)\<^sup>*\<^sup>* (sys_init demo one_container 0) s' \<and> reachable demo one_container 0 s'
     \<and> sys_pool s' = snd (processRequest (demo, plain_tar, \<lambda>_. False) ''/check'' (object_text demo_members)
         (sys_pool (sys_init demo one_container 0)))
     \<and> threads s' = threads (sys_init demo one_container 0)
     \<and> served s' = served (sys_init demo one_container 0) @ ids \<and> length ids \<le> 1"
  by (rule request_refines_pool[OF demo_contract reachable.start _ surjective_pairing, where t = 0])
    (simp add: sys_init_quiet)



text \<open>
  C1. A chapter request from the HTTP body to the HTTP body: when the body holds the language, the
  arguments and the two sources, a launcher of that language is idle, and the container answers with the
  marker protocol of verdict \<open>v\<close>, the answer is a JSON text that holds the code and the outputs of
  exactly that verdict.
\<close>

theorem chapter_end_to_end:
  assumes "pool_wf p" and "Parse too_big body = Inr (JObject ms)"
    and "string_field ms kContainerType = Some t" and "getLanguageFromString (c_str t) = Inr lang"
    and "string_field ms kSourceRun = Some run" and "string_field ms kSourceTest = Some test"
    and "find_member ms kCmdLineArgs = (if args = [] then None else Some (JArray (map JString args)))"
    and "c_str run \<noteq> []"
    and "chapter_run c tar \<lparr>language = lang, cmdLineArgs = args, sourceRun = c_str run, sourceTest = c_str test\<rparr> p
      \<lparr>exec_success = True, exec_message = render eol v\<rparr>"
    and "clean v" and "fits32 (render eol v)" and "eol = [] \<or> eol = kRNEscapeSequence"
  shows "\<exists>text. fst (processRequest (c, tar, too_big) ''/check'' body p) = Inr text
    \<and> Parse too_big text = Inr (object_json (answer_members (verdict_response v)))"
  by (rule check_response[OF assms(1) parseTask_complete[OF assms(2-7)] _ assms(9)
        course_render[OF assms(10) fits32_fits[OF assms(11)] assms(12)] verdict_fits[OF assms(11)]])
    (simp add: assms(8))

theorem chapter_end_to_end_witness:
  "\<exists>text. fst (processRequest (passing, plain_tar, \<lambda>_. False) ''/check'' (object_text demo_members) demo_pool) = Inr text
     \<and> Parse (\<lambda>_. False) text = Inr (JObject [(''status_code'', JInt 0), (''user_code_output'', JString ''hi''),
         (''tests_output'', JString ''ok'')])"
proof -
  let ?v = "Passed ''hi'' ''ok''"
  have clean: "clean ?v" by code_simp
  have fits: "fits32 (render [] ?v)" by (simp add: fits32_def)
  have params: "\<lparr>language = CPP, cmdLineArgs = [], sourceRun = c_str ''int main() {}'', sourceTest = c_str []\<rparr> = demo_chapter"
    by (simp add: demo_chapter_def c_str_def)
  have "\<exists>text. fst (processRequest (passing, plain_tar, \<lambda>_. False) ''/check'' (object_text demo_members) demo_pool) = Inr text
      \<and> Parse (\<lambda>_. False) text = Inr (object_json (answer_members (verdict_response ?v)))"
    by (rule chapter_end_to_end[OF demo_pool_wf demo_body _ _ _ _ _ _ _ clean fits, where t = "''cpp''" and lang = CPP
          and run = "''int main() {}''" and test = "[]" and args = "[]"])
      (simp_all only: params passing_run,
        simp_all add: string_field_def request_keys getLanguageFromString_def kLanguagesMatch_def c_str_def)
  then show ?thesis by (simp add: answer_members_def answer_text_def object_json_def kSuccessCode_def)
qed

text \<open>
  An unknown handle is answered with a JSON object that names it, and nothing else happens.
\<close>

theorem unknown_api:
  assumes "apiString \<noteq> ''/check''" and "apiString \<noteq> ''/playground''" and "apiString \<noteq> ''/practice''"
    and "fits32 (''Unknowon api: '' @ apiString)"
  shows "\<exists>text. processRequest env apiString body p = (Inr text, p)
    \<and> Parse too_big text = Inr (JObject [(''output'', JString (''Unknowon api: '' @ apiString))])"
proof -
  have "getApi apiString = None" using assms by (simp add: getApi_def kCheck_def kPlayground_def kPractice_def)
  then show ?thesis
    using makeErrorJson_parses[OF assms(4), of too_big] by (auto simp: processRequest_unknown)
qed

theorem unknown_api_witness:
  "\<exists>text. processRequest (demo, plain_tar, \<lambda>_. False) ''/'' [] demo_pool = (Inr text, demo_pool)
     \<and> Parse (\<lambda>_. False) text = Inr (JObject [(''output'', JString (''Unknowon api: '' @ ''/''))])"
  by (rule unknown_api) (simp_all add: fits32_def)

text \<open>
  C22. A body that is not JSON is answered, on every handle, with an error object that names the handle and
  the reason; no launcher is taken.
\<close>

theorem malformed_body:
  assumes "apiString = ''/check'' \<or> apiString = ''/playground'' \<or> apiString = ''/practice''"
    and "Parse too_big body = Inl e"
  shows "\<exists>text. processRequest (c, tar, too_big) apiString body p = (Inr text, p)
    \<and> Parse too_big text = Inr (JObject [(''output'',
        JString (''Error while processing handle `'' @ apiString @ ''` Incorrect input json''))])"
proof -
  obtain api where api: "getApi apiString = Some api"
    using assms(1) by (auto simp: getApi_def kCheck_def kPlayground_def kPractice_def)
  have "fits32 (''Error while processing handle `'' @ apiString @ ''` Incorrect input json'')"
    using assms(1) by (auto simp: fits32_def)
  then show ?thesis
    using processRequest_error[OF api parse_outcome_syntax[OF assms(2)], of c tar p] makeErrorJson_parses by fastforce
qed

theorem malformed_body_witness:
  "\<exists>text. processRequest (demo, plain_tar, \<lambda>_. False) ''/practice'' [CHR 0x7B] demo_pool = (Inr text, demo_pool)
     \<and> Parse (\<lambda>_. False) text = Inr (JObject [(''output'',
         JString (''Error while processing handle `'' @ ''/practice'' @ ''` Incorrect input json''))])"
proof -
  have "isl (Parse (\<lambda>_. False) [CHR 0x7B])" by code_simp
  then obtain e where "Parse (\<lambda>_. False) [CHR 0x7B] = Inl e" by (auto simp: isl_def)
  then show ?thesis using malformed_body[of "''/practice''" "\<lambda>_. False" "[CHR 0x7B]" e] by blast
qed

text \<open>
  No exception leaves \<open>processRequest\<close>: every answer that is sent carries the status 200 and the JSON
  made by \<open>processRequest\<close>, so the error answer of \<open>internalProcessRequest\<close> is never sent.
\<close>

theorem status_is_ok:
  assumes "internalProcessRequest env req p = (Inr response, p')"
  shows "status_uri_header response = ''200''
    \<and> processRequest env (request_path req) (request_body req) p = (Inr (response_body response), p')"
  using assms by (rule internal_answer)

theorem status_is_ok_witness:
  "\<exists>response. internalProcessRequest (demo, plain_tar, \<lambda>_. False)
       \<lparr>request_method = ''POST'', request_path = ''/'', request_body = [], http_major = 1\<rparr> demo_pool
     = (Inr response, demo_pool) \<and> status_uri_header response = ''200''"
proof -
  obtain out where "processRequest (demo, plain_tar, \<lambda>_. False) ''/'' [] demo_pool = (Inr out, demo_pool)"
    using makeErrorJson_parses[of "''Unknowon api: '' @ ''/''" "\<lambda>_. False"]
    by (auto simp: fits32_def processRequest_unknown getApi_def kCheck_def kPlayground_def kPractice_def)
  then obtain resp where resp: "internalProcessRequest (demo, plain_tar, \<lambda>_. False)
      \<lparr>request_method = ''POST'', request_path = ''/'', request_body = [], http_major = 1\<rparr> demo_pool
      = (Inr resp, demo_pool)"
    by (simp add: internalProcessRequest_def)
  then show ?thesis using status_is_ok[OF resp] by blast
qed

end
