(* ===== verification/Project_Requests.thy ===== *)
theory Project_Requests
  imports Server
begin

text \<open>
  Requests that carry a project tree (\<open>parsePlayground\<close>, \<open>parsePractice\<close>, \<open>parseProject\<close> of
  \<open>src/core/parser.cpp\<close>) and the commands made from them (\<open>src/core/service.cpp\<close>).
\<close>

section \<open>The tree inside a request\<close>

definition tree_project :: "Directory \<Rightarrow> Project" where
  "tree_project d = \<lparr>project_name = dir_name d, pathsContents = getPathsToFiles (norm_dir d)\<rparr>"

lemma dir_name_norm [simp]: "dir_name (norm_dir d) = dir_name d"
  by (cases d) simp

lemma parseProject_tree:
  assumes "Parse too_big src = Inr (dir_json d)" and "no_NUL d"
  shows "parseProject too_big src = Inr (tree_project d)"
  using traverse_directory[OF assms(2)] assms(1)
  by (simp add: parseProject_def jsonToDirectory_def tree_project_def)

lemma fields_object:
  "getProject (JObject ms) = getString (JObject ms) kProject"
  "getPractice (JObject ms) = getString (JObject ms) kProjectContents"
  "getPracticeAction_field (JObject ms) = getString (JObject ms) kPracticeAction"
  by (simp_all add: getProject_def getPractice_def getPracticeAction_field_def getString_def request_keys)

lemma parsePlayground_complete:
  assumes "Parse too_big body = Inr (JObject ms)"
    and "string_field ms kContainerType = Some t" and "getLanguageFromString (c_str t) = Inr lang"
    and "find_member ms kCmdLineArgs = (if args = [] then None else Some (JArray (map JString args)))"
    and "string_field ms kProject = Some src" and "Parse too_big (c_str src) = Inr (dir_json d)" and "no_NUL d"
  shows "parsePlayground too_big body = Inr \<lparr>language = lang, cmdLineArgs = args, project = tree_project d\<rparr>"
  using assms(2-5) parseProject_tree[OF assms(6,7)]
  by (simp add: parsePlayground_def DocumentKeeper_Inr[OF assms(1)] requiredFieldIsOk_object fields_object
      getString_field parseCommon_object mapM_strings split: if_splits)

lemma getMainFile_find:
  "getMainFile ps = (case find isMain ps of None \<Rightarrow> Inl (Throw (Logic_error ''There's no main file'')) | Some p \<Rightarrow> Inr (path p))"
  by (induction ps) simp_all

lemma parsePractice_complete:
  assumes "Parse too_big body = Inr (JObject ms)"
    and "string_field ms kCourseId = Some t" and "getLanguageFromString (c_str t) = Inr lang"
    and "string_field ms kProjectContents = Some src" and "Parse too_big (c_str src) = Inr (dir_json d)" and "no_NUL d"
    and "string_field ms kPracticeAction = Some action" and "string_field ms kUserCmdLineArgs = Some args"
    and "string_field ms kProjectId \<noteq> None"
  shows "parsePractice too_big body =
    (case find isMain (pathsContents (tree_project d)) of
       None \<Rightarrow> Inl (Throw (Logic_error ''There's no main file''))
     | Some main \<Rightarrow> Inr \<lparr>practice_language = lang, userCmdLineArgs = c_str args, pathToMainFile = path main,
         practice = \<lparr>practice_project = tree_project d,
                     practice_action = (if c_str action = ''run'' then Run else Test)\<rparr>\<rparr>)"
  using assms(2-4,7-9) parseProject_tree[OF assms(5,6)]
  by (simp add: parsePractice_def DocumentKeeper_Inr[OF assms(1)] requiredFieldIsOk_object fields_object
      getString_field getPracticeAction_def getMainFile_find split: option.splits)

section \<open>A concrete practice\<close>

definition demo_file :: "bool \<Rightarrow> File" where
  "demo_file main = \<lparr>file_name = ''main.py'', file_content = ''print(1)'', file_isMain = main\<rparr>"

definition demo_tree :: "bool \<Rightarrow> Directory" where
  "demo_tree main = Directory ''app'' [] [Directory ''lib'' [demo_file main] []]"

definition tree_text :: "string \<Rightarrow> string" where
  "tree_text flag = [CHR 0x7B, CHR 0x22] @ ''name'' @ [CHR 0x22, CHR 0x3A, CHR 0x22] @ ''app'' @ [CHR 0x22]
     @ '','' @ [CHR 0x22] @ ''children'' @ [CHR 0x22] @ '':['' @ [CHR 0x7B, CHR 0x22] @ ''name'' @ [CHR 0x22, CHR 0x3A, CHR 0x22]
     @ ''lib'' @ [CHR 0x22] @ '','' @ [CHR 0x22] @ ''children'' @ [CHR 0x22] @ '':['' @ [CHR 0x7B, CHR 0x22] @ ''name''
     @ [CHR 0x22, CHR 0x3A, CHR 0x22] @ ''main.py'' @ [CHR 0x22] @ '','' @ [CHR 0x22] @ ''contents'' @ [CHR 0x22, CHR 0x3A, CHR 0x22]
     @ ''print(1)'' @ [CHR 0x22] @ '','' @ [CHR 0x22] @ ''is_main_file'' @ [CHR 0x22] @ '':'' @ flag
     @ [CHR 0x7D] @ '']'' @ [CHR 0x7D] @ '']'' @ [CHR 0x7D]"

lemma tree_text_parses:
  "Parse (\<lambda>_. False) (tree_text ''true'') = Inr (dir_json (demo_tree True))"
  "Parse (\<lambda>_. False) (tree_text ''false'') = Inr (dir_json (demo_tree False))"
  by code_simp+

lemma tree_text_c_str: "c_str (tree_text ''true'') = tree_text ''true''" "c_str (tree_text ''false'') = tree_text ''false''"
  by code_simp+

lemma demo_tree_facts: "no_NUL (demo_tree b)" "plain_tree (demo_tree b)"
  by (simp_all add: demo_tree_def demo_file_def file_no_NUL_def c_str_def plain_name_def)

lemma norm_plain: "plain_tree d \<Longrightarrow> plain_tree (norm_dir d)"
proof (induction d)
  case (Directory n fs ds)
  then show ?case by (auto simp: list_all_iff norm_file_def)
qed

lemma tree_project_entries:
  assumes "plain_tree d"
  shows "tree_project d = \<lparr>project_name = dir_name d, pathsContents = tree_entries [] (norm_dir d)\<rparr>"
  using fill_paths[OF norm_plain[OF assms], of "[]" "[]"]
  by (simp add: tree_project_def getPathsToFiles_def entry_path_root)

lemma practice_no_main:
  assumes "parsePractice too_big body = Inl (Throw (Logic_error ''There's no main file''))"
  shows "\<exists>text. processRequest (c, tar, too_big) ''/practice'' body p = (Inr text, p)
    \<and> Parse too_big text = Inr (JObject [(''output'',
        JString ''Error while processing handle `/practice` There's no main file'')])"
proof -
  have api: "getApi ''/practice'' = Some Practice_api" by (simp add: getApi_def kCheck_def kPlayground_def kPractice_def)
  have "processRequest (c, tar, too_big) ''/practice'' body p
      = (makeErrorJson (''Error while processing handle `'' @ ''/practice'' @ ''` '' @ exn_what (Logic_error ''There's no main file'')), p)"
    by (rule processRequest_error[OF api]) (simp add: parse_outcome_def assms)
  then show ?thesis
    using makeErrorJson_parses[of "''Error while processing handle `/practice` There's no main file''" too_big]
    by (simp add: fits32_def)
qed

definition practice_members :: "string \<Rightarrow> (string \<times> scalar) list" where
  "practice_members flag = [(''project_contents'', SStr (tree_text flag)), (''course_id'', SStr ''python''), (''action'', SStr ''run''),
     (''user_cmd_line_args'', SStr ''-v''), (''project_id'', SStr ''7'')]"

lemma practice_body: "Parse too_big (object_text (practice_members flag)) = Inr (JObject [(''project_contents'', JString (tree_text flag)),
    (''course_id'', JString ''python''), (''action'', JString ''run''), (''user_cmd_line_args'', JString ''-v''), (''project_id'', JString ''7'')])"
  using Parse_object[of "practice_members flag" too_big] by (simp add: practice_members_def object_json_def)

lemma practice_fields:
  "string_field [(''project_contents'', JString src), (''course_id'', JString ''python''), (''action'', JString ''run''),
     (''user_cmd_line_args'', JString ''-v''), (''project_id'', JString ''7'')] k =
   (if k = kProjectContents then Some src else if k = kCourseId then Some ''python'' else if k = kPracticeAction then Some ''run''
    else if k = kUserCmdLineArgs then Some ''-v'' else if k = kProjectId then Some ''7'' else None)"
  by (simp add: string_field_def request_keys)

lemma python_name: "getLanguageFromString (c_str ''python'') = Inr PYTHON"
  by (simp add: getLanguageFromString_def kLanguagesMatch_def c_str_def)

section \<open>From the body to the answer\<close>

definition practice_params :: "Language \<Rightarrow> string \<Rightarrow> string \<Rightarrow> Directory \<Rightarrow> PathContent \<Rightarrow> RunPracticeParams" where
  "practice_params lang action args d main =
     \<lparr>practice_language = lang, userCmdLineArgs = args, pathToMainFile = path main,
      practice = \<lparr>practice_project = tree_project d, practice_action = (if action = ''run'' then Run else Test)\<rparr>\<rparr>"

lemma playground_response:
  assumes "pool_wf p" and "parsePlayground too_big body = Inr params"
    and "playground_run c tar params p \<lparr>exec_success = True, exec_message = m\<rparr>" and "getPlaygroungResponse m = Inr r"
    and "fits32 (output_text r)" and "\<forall>t. testsOutput r = Some t \<longrightarrow> fits32 t"
  shows "\<exists>text. fst (processRequest (c, tar, too_big) ''/playground'' body p) = Inr text
    \<and> Parse too_big text = Inr (object_json (answer_members r))"
proof -
  have "fst (runPlayground c tar params p) = Inr r"
    by (rule runPlayground_answer[OF assms(1,3)]) (simp add: read_result_def assms(4))
  with assms(2) show ?thesis by (intro handler_response[OF getApi_handles(2) _ assms(5,6)]) (simp add: handler_run_def)
qed

lemma practice_response:
  assumes "pool_wf p" and "parsePractice too_big body = Inr params"
    and "practice_run c tar params p \<lparr>exec_success = True, exec_message = m\<rparr>" and "getPracticeResponse m = Inr r"
    and "fits32 (output_text r)" and "\<forall>t. testsOutput r = Some t \<longrightarrow> fits32 t"
  shows "\<exists>text. fst (processRequest (c, tar, too_big) ''/practice'' body p) = Inr text
    \<and> Parse too_big text = Inr (object_json (answer_members r))"
proof -
  have "fst (runPractice c tar params p) = Inr r"
    by (rule runPractice_answer[OF assms(1,3)]) (simp add: read_result_def assms(4))
  with assms(2) show ?thesis by (intro handler_response[OF getApi_handles(3) _ assms(5,6)]) (simp add: handler_run_def)
qed

lemma fits32_prefix: "fits32 (u @ m) \<Longrightarrow> fits32 u"
  by (simp add: fits32_def)

text \<open>A pool with one Python launcher, and an engine on which every program prints \<open>42\<close>.\<close>

definition python_pool :: "nat pool" where
  "python_pool = \<lparr>engine = 1, store = [PYTHON \<mapsto> [\<lparr>containerId = ''c'', launcher_type = PYTHON\<rparr>]]\<rparr>"

definition printing :: "nat docker_client" where
  "printing = demo\<lparr>client_exec := (\<lambda>_ n. ((True, ''42'' @ kUserCodeSeparator), n))\<rparr>"

lemma python_pool_wf: "pool_wf python_pool"
  by (simp add: pool_wf_def python_pool_def)

lemma tree_tar: "\<exists>a. makeProjectTar plain_tar pr = Inr a"
  by (simp add: makeProjectTar_def run_tar_def plain_tar_def)

lemma python_playground_run:
  assumes "language params = PYTHON"
  shows "playground_run printing plain_tar params python_pool \<lparr>exec_success = True, exec_message = ''42'' @ kUserCodeSeparator\<rparr>"
proof -
  obtain a where a: "prepareData_playground plain_tar params = Inr a"
    using tree_tar by (auto simp: prepareData_playground_def)
  show ?thesis
    unfolding playground_run_def
    by (rule launcher_runI[where vs = "[]", OF _ a])
      (simp_all add: python_pool_def assms kDefaultPaths_def, simp_all add: printing_def demo_defs)
qed

lemma python_practice_run:
  assumes "practice_language params = PYTHON"
  shows "practice_run passing plain_tar params python_pool \<lparr>exec_success = True, exec_message = render [] (Passed ''hi'' ''ok'')\<rparr>"
proof -
  obtain a where a: "prepareData_practice plain_tar params = Inr a"
    using tree_tar by (auto simp: prepareData_practice_def)
  show ?thesis
    unfolding practice_run_def
    by (rule launcher_runI[where vs = "[]", OF _ a])
      (simp_all add: python_pool_def assms kDefaultPaths_def, simp_all add: passing_def demo_defs)
qed

section \<open>Properties\<close>

text \<open>
  A complete playground request is understood: the language, the arguments, and as project the name of the
  root directory with its directories and files in preorder, each with the path from the root; empty files hold
  one line end.
\<close>

theorem playground_request:
  assumes "Parse too_big body = Inr (JObject ms)"
    and "string_field ms kContainerType = Some t" and "getLanguageFromString (c_str t) = Inr lang"
    and "find_member ms kCmdLineArgs = (if args = [] then None else Some (JArray (map JString args)))"
    and "string_field ms kProject = Some src" and "Parse too_big (c_str src) = Inr (dir_json d)"
    and "no_NUL d" and "plain_tree d"
  shows "parsePlayground too_big body = Inr \<lparr>language = lang, cmdLineArgs = args,
    project = \<lparr>project_name = dir_name d, pathsContents = tree_entries [] (norm_dir d)\<rparr>\<rparr>"
  using parsePlayground_complete[OF assms(1-7)] by (simp add: tree_project_entries[OF assms(8)])

theorem playground_request_witness:
  "parsePlayground (\<lambda>_. False) (object_text [(''container_type'', SStr ''python''), (''project'', SStr (tree_text ''true''))])
   = Inr \<lparr>language = PYTHON, cmdLineArgs = [], project = \<lparr>project_name = ''app'', pathsContents =
       [\<lparr>path = ''app/'', content = [], isMain = False, isDir = True\<rparr>,
        \<lparr>path = ''app/lib/'', content = [], isMain = False, isDir = True\<rparr>,
        \<lparr>path = ''app/lib/main.py'', content = ''print(1)'', isMain = True, isDir = False\<rparr>]\<rparr>\<rparr>"
proof -
  let ?ms = "[(''container_type'', JString ''python''), (''project'', JString (tree_text ''true''))]"
  have body: "Parse (\<lambda>_. False) (object_text [(''container_type'', SStr ''python''), (''project'', SStr (tree_text ''true''))])
      = Inr (JObject ?ms)"
    using Parse_object[of "[(''container_type'', SStr ''python''), (''project'', SStr (tree_text ''true''))]"]
    by (simp add: object_json_def)
  have fields: "string_field ?ms kContainerType = Some ''python''" "string_field ?ms kProject = Some (tree_text ''true'')"
    "find_member ?ms kCmdLineArgs = None" by (simp_all add: string_field_def request_keys)
  have tree: "Parse (\<lambda>_. False) (c_str (tree_text ''true'')) = Inr (dir_json (demo_tree True))"
    by (simp add: tree_text_c_str tree_text_parses)
  from playground_request[OF body fields(1) python_name _ fields(2) tree demo_tree_facts, of "[]"] fields(3)
  show ?thesis by (simp add: demo_tree_def demo_file_def norm_file_def dir_entry_def file_entry_def entry_path_def)
qed

text \<open>
  A complete practice request runs the right command: the main file is the first file flagged as such in
  preorder, the action \<open>run\<close> gives its path to the script together with the user's arguments if there are any, and
  every other action runs the tests.
\<close>

theorem practice_request:
  assumes "Parse too_big body = Inr (JObject ms)"
    and "string_field ms kCourseId = Some t" and "getLanguageFromString (c_str t) = Inr lang"
    and "string_field ms kProjectContents = Some src" and "Parse too_big (c_str src) = Inr (dir_json d)" and "no_NUL d"
    and "string_field ms kPracticeAction = Some action" and "string_field ms kUserCmdLineArgs = Some args"
    and "string_field ms kProjectId \<noteq> None" and "plain_tree d"
    and "find isMain (tree_entries [] (norm_dir d)) = Some main"
  shows "\<exists>params. parsePractice too_big body = Inr params \<and> practice_language params = lang
    \<and> pathsContents (practice_project (practice params)) = tree_entries [] (norm_dir d)
    \<and> getPracticeDockerArgs params = [''sh'', ''practice/run-practice.sh'', ''-f '' @ dir_name d]
        @ (if c_str action = ''run''
           then [''-p practice/'' @ path main] @ (if c_str args = [] then [] else [''-o '' @ c_str args]) @ [''-r'']
           else [''-t''])"
  using parsePractice_complete[OF assms(1-9)] assms(11)
  by (simp add: tree_project_entries[OF assms(10)] getPracticeDockerArgs_def)

theorem practice_request_witness:
  "\<exists>params. parsePractice (\<lambda>_. False) (object_text (practice_members ''true'')) = Inr params \<and> practice_language params = PYTHON
     \<and> getPracticeDockerArgs params = [''sh'', ''practice/run-practice.sh'', ''-f app'', ''-p practice/app/lib/main.py'', ''-o -v'', ''-r'']"
proof -
  have tree: "Parse (\<lambda>_. False) (c_str (tree_text ''true'')) = Inr (dir_json (demo_tree True))"
    by (simp add: tree_text_c_str tree_text_parses)
  have main: "find isMain (tree_entries [] (norm_dir (demo_tree True)))
      = Some \<lparr>path = ''app/lib/main.py'', content = ''print(1)'', isMain = True, isDir = False\<rparr>"
    by (simp add: demo_tree_def demo_file_def norm_file_def dir_entry_def file_entry_def entry_path_def)
  have "\<exists>params. parsePractice (\<lambda>_. False) (object_text (practice_members ''true'')) = Inr params \<and> practice_language params = PYTHON
      \<and> pathsContents (practice_project (practice params)) = tree_entries [] (norm_dir (demo_tree True))
      \<and> getPracticeDockerArgs params = [''sh'', ''practice/run-practice.sh'', ''-f '' @ dir_name (demo_tree True)]
        @ (if c_str ''run'' = ''run''
           then [''-p practice/'' @ path \<lparr>path = ''app/lib/main.py'', content = ''print(1)'', isMain = True, isDir = False\<rparr>]
             @ (if c_str ''-v'' = [] then [] else [''-o '' @ c_str ''-v'']) @ [''-r'']
           else [''-t''])"
    by (rule practice_request[OF practice_body _ python_name _ tree demo_tree_facts(1) _ _ _ demo_tree_facts(2) main])
      (simp_all add: practice_fields request_keys)
  then show ?thesis by (auto simp: demo_tree_def c_str_def)
qed

text \<open>
  C39. A complete practice request whose project has no main file is answered with an error that says so, and the pool is untouched.
\<close>

theorem practice_without_main:
  assumes "Parse too_big body = Inr (JObject ms)"
    and "string_field ms kCourseId = Some t" and "getLanguageFromString (c_str t) = Inr lang"
    and "string_field ms kProjectContents = Some src" and "Parse too_big (c_str src) = Inr (dir_json d)" and "no_NUL d"
    and "string_field ms kPracticeAction \<noteq> None" and "string_field ms kUserCmdLineArgs \<noteq> None"
    and "string_field ms kProjectId \<noteq> None" and "plain_tree d"
    and "find isMain (tree_entries [] (norm_dir d)) = None"
  shows "\<exists>text. processRequest (c, tar, too_big) ''/practice'' body p = (Inr text, p)
    \<and> Parse too_big text = Inr (JObject [(''output'',
        JString ''Error while processing handle `/practice` There's no main file'')])"
proof -
  obtain action args where "string_field ms kPracticeAction = Some action" "string_field ms kUserCmdLineArgs = Some args"
    using assms(7,8) by blast
  from parsePractice_complete[OF assms(1-6) this assms(9)] show ?thesis
    using assms(11) by (intro practice_no_main) (simp add: tree_project_entries[OF assms(10)])
qed

theorem practice_without_main_witness:
  "\<exists>text. processRequest (demo, plain_tar, \<lambda>_. False) ''/practice'' (object_text (practice_members ''false'')) demo_pool = (Inr text, demo_pool)
     \<and> Parse (\<lambda>_. False) text = Inr (JObject [(''output'',
         JString ''Error while processing handle `/practice` There's no main file'')])"
proof -
  have tree: "Parse (\<lambda>_. False) (c_str (tree_text ''false'')) = Inr (dir_json (demo_tree False))"
    by (simp add: tree_text_c_str tree_text_parses)
  show ?thesis
    by (rule practice_without_main[OF practice_body _ python_name _ tree demo_tree_facts(1) _ _ _ demo_tree_facts(2)])
      (simp_all add: practice_fields request_keys demo_tree_def demo_file_def norm_file_def dir_entry_def file_entry_def)
qed

text \<open>
  C19. A playground request from the HTTP body to the HTTP body: when the body holds the language, the arguments and a
  project tree, a launcher of that language is idle, and the project, sent with the name of the root directory and its
  directories and files in preorder, prints \<open>u\<close> before the success or the user error marker, the answer is a JSON text
  that holds the code of that marker and exactly the output \<open>u\<close>.
\<close>

theorem playground_end_to_end:
  assumes "pool_wf p" and "Parse too_big body = Inr (JObject ms)"
    and "string_field ms kContainerType = Some t" and "getLanguageFromString (c_str t) = Inr lang"
    and "find_member ms kCmdLineArgs = (if args = [] then None else Some (JArray (map JString args)))"
    and "string_field ms kProject = Some src" and "Parse too_big (c_str src) = Inr (dir_json d)" and "no_NUL d"
    and "playground_run c tar \<lparr>language = lang, cmdLineArgs = args,
        project = \<lparr>project_name = dir_name d, pathsContents = tree_entries [] (norm_dir d)\<rparr>\<rparr> p
      \<lparr>exec_success = True, exec_message = u @ m @ eol\<rparr>" and "plain_tree d"
    and "marker_free u" and "fits32 (u @ m @ eol)" and "eol = [] \<or> eol = kRNEscapeSequence"
    and "(m, code) \<in> {(kUserCodeSeparator, kSuccessCode), (kUserSolutionError, kUserCodeError)}"
  shows "\<exists>text. fst (processRequest (c, tar, too_big) ''/playground'' body p) = Inr text
    \<and> Parse too_big text = Inr (object_json (answer_members (mk_response code u None)))"
  by (rule playground_response[OF assms(1) parsePlayground_complete[OF assms(2-8), unfolded tree_project_entries[OF assms(10)]]
        assms(9) playground_render[OF assms(11) fits32_fits[OF assms(12)] assms(13,14)]])
    (use fits32_prefix[OF assms(12)] in simp_all)

theorem playground_end_to_end_witness:
  "\<exists>text. fst (processRequest (printing, plain_tar, \<lambda>_. False) ''/playground''
       (object_text [(''container_type'', SStr ''python''), (''project'', SStr (tree_text ''true''))]) python_pool) = Inr text
     \<and> Parse (\<lambda>_. False) text = Inr (JObject [(''status_code'', JInt 0), (''user_code_output'', JString ''42'')])"
proof -
  let ?ms = "[(''container_type'', JString ''python''), (''project'', JString (tree_text ''true''))]"
  have body: "Parse (\<lambda>_. False) (object_text [(''container_type'', SStr ''python''), (''project'', SStr (tree_text ''true''))])
      = Inr (JObject ?ms)"
    using Parse_object[of "[(''container_type'', SStr ''python''), (''project'', SStr (tree_text ''true''))]"]
    by (simp add: object_json_def)
  have tree: "Parse (\<lambda>_. False) (c_str (tree_text ''true'')) = Inr (dir_json (demo_tree True))"
    by (simp add: tree_text_c_str tree_text_parses)
  have free: "marker_free ''42''" by (simp add: marker_free_def kMarkers_def marker_defs occurs_def)
  have "\<exists>text. fst (processRequest (printing, plain_tar, \<lambda>_. False) ''/playground''
       (object_text [(''container_type'', SStr ''python''), (''project'', SStr (tree_text ''true''))]) python_pool) = Inr text
     \<and> Parse (\<lambda>_. False) text = Inr (object_json (answer_members (mk_response kSuccessCode ''42'' None)))"
    by (rule playground_end_to_end[OF python_pool_wf body _ python_name _ _ tree demo_tree_facts(1) _ demo_tree_facts(2) free,
          where args = "[]" and m = kUserCodeSeparator and eol = "[]"])
      (use python_playground_run in \<open>simp_all add: string_field_def request_keys fits32_def marker_defs\<close>)
  then show ?thesis by (simp add: answer_members_def answer_text_def object_json_def kSuccessCode_def)
qed

text \<open>
  C20. A practice request from the HTTP body to the HTTP body: when the body holds the language, the action, the
  arguments and a project tree with a main file, a launcher of that language is idle, and the container answers with
  the marker protocol of verdict \<open>v\<close>, the answer is a JSON text that holds exactly that verdict.
\<close>

theorem practice_end_to_end:
  assumes "pool_wf p" and "Parse too_big body = Inr (JObject ms)"
    and "string_field ms kCourseId = Some t" and "getLanguageFromString (c_str t) = Inr lang"
    and "string_field ms kProjectContents = Some src" and "Parse too_big (c_str src) = Inr (dir_json d)" and "no_NUL d"
    and "string_field ms kPracticeAction = Some action" and "string_field ms kUserCmdLineArgs = Some args"
    and "string_field ms kProjectId \<noteq> None" and "find isMain (pathsContents (tree_project d)) = Some main"
    and "practice_run c tar (practice_params lang (c_str action) (c_str args) d main) p
      \<lparr>exec_success = True, exec_message = render eol v\<rparr>"
    and "clean v" and "fits32 (render eol v)" and "eol = [] \<or> eol = kRNEscapeSequence"
  shows "\<exists>text. fst (processRequest (c, tar, too_big) ''/practice'' body p) = Inr text
    \<and> Parse too_big text = Inr (object_json (answer_members (verdict_response v)))"
  by (rule practice_response[OF assms(1) _ assms(12) _ verdict_fits[OF assms(14)]])
    (simp_all add: parsePractice_complete[OF assms(2-10)] assms(11) practice_params_def getPracticeResponse_def
      course_render[OF assms(13) fits32_fits[OF assms(14)] assms(15)])

theorem practice_end_to_end_witness:
  "\<exists>text. fst (processRequest (passing, plain_tar, \<lambda>_. False) ''/practice'' (object_text (practice_members ''true'')) python_pool)
       = Inr text
     \<and> Parse (\<lambda>_. False) text = Inr (JObject [(''status_code'', JInt 0), (''user_code_output'', JString ''hi''),
         (''tests_output'', JString ''ok'')])"
proof -
  let ?v = "Passed ''hi'' ''ok''"
  have clean: "clean ?v" by code_simp
  have fits: "fits32 (render [] ?v)" by (simp add: fits32_def)
  have tree: "Parse (\<lambda>_. False) (c_str (tree_text ''true'')) = Inr (dir_json (demo_tree True))"
    by (simp add: tree_text_c_str tree_text_parses)
  have main: "find isMain (pathsContents (tree_project (demo_tree True)))
      = Some \<lparr>path = ''app/lib/main.py'', content = ''print(1)'', isMain = True, isDir = False\<rparr>"
    by (simp add: tree_project_entries demo_tree_facts)
      (simp add: demo_tree_def demo_file_def norm_file_def dir_entry_def file_entry_def entry_path_def)
  have "\<exists>text. fst (processRequest (passing, plain_tar, \<lambda>_. False) ''/practice'' (object_text (practice_members ''true'')) python_pool)
        = Inr text
      \<and> Parse (\<lambda>_. False) text = Inr (object_json (answer_members (verdict_response ?v)))"
    by (rule practice_end_to_end[OF python_pool_wf practice_body _ python_name _ tree demo_tree_facts(1) _ _ _ main _ clean fits])
      (use python_practice_run in \<open>simp_all add: practice_fields request_keys practice_params_def\<close>)
  then show ?thesis by (simp add: answer_members_def answer_text_def object_json_def kSuccessCode_def)
qed

end
