(* ===== verification/Storage_Monitor.thy ===== *)
theory Storage_Monitor
  imports Launcher_Storage
begin

text \<open>
  The storage as the threads run it (\<open>src/core/code_launcher/detail/storage.hpp\<close>): \<open>extract\<close> and \<open>addValue\<close> in the
  pieces between which other threads can run. \<open>extract\<close> takes the mutex, looks into the list and, while it is
  empty, releases the mutex and sleeps on the condition variable, from which \<open>notify_all\<close> or a spurious wake-up
  brings it back to the mutex; \<open>addValue\<close> pushes under the mutex and notifies after it has released it. It is shown
  that the operations are those of \<open>Launcher_Storage\<close>, done atomically, and that no wake-up is lost.
\<close>

section \<open>States and steps\<close>

text \<open>Where a thread is in one of the two operations.\<close>

datatype ('k, 'v) point =
    Outside
  | Entering 'k
  | Inspecting 'k
  | Sleeping 'k
  | Awake 'k
  | Offering 'k 'v
  | Pushing 'k 'v
  | Notifying

text \<open>The history of the operations that took effect, with the thread and the value.\<close>

datatype ('k, 'v) event = Took nat 'k 'v | Put nat 'k 'v

record ('k, 'v) monitor =
  m_mutex :: "nat option"
  m_storage :: "('k, 'v) ExtractingStorage"
  m_point :: "nat \<Rightarrow> ('k, 'v) point"
  m_history :: "('k, 'v) event list"

definition monitor_init :: "('k, 'v) ExtractingStorage \<Rightarrow> ('k, 'v) monitor" where
  "monitor_init st = \<lparr>m_mutex = None, m_storage = st, m_point = (\<lambda>_. Outside), m_history = []\<rparr>"

definition move :: "nat \<Rightarrow> ('k, 'v) point \<Rightarrow> nat option \<Rightarrow> ('k, 'v) monitor \<Rightarrow> ('k, 'v) monitor" where
  "move t pt mx m = m\<lparr>m_point := (m_point m)(t := pt), m_mutex := mx\<rparr>"

fun wake :: "('k, 'v) point \<Rightarrow> ('k, 'v) point" where
  "wake (Sleeping k) = Awake k"
| "wake pt = pt"

text \<open>What comes from outside the two functions: calls, and wake-ups that nobody asked for.\<close>

inductive env_step :: "('k, 'v) monitor \<Rightarrow> ('k, 'v) monitor \<Rightarrow> bool" where
  call_extract: "m_point m t = Outside \<Longrightarrow> env_step m (move t (Entering k) (m_mutex m) m)"
| call_addValue: "m_point m t = Outside \<Longrightarrow> env_step m (move t (Offering k v) (m_mutex m) m)"
| spurious: "m_point m t = Sleeping k \<Longrightarrow> env_step m (move t (Awake k) (m_mutex m) m)"

text \<open>What the two functions do.\<close>

inductive code_step :: "('k, 'v) monitor \<Rightarrow> ('k, 'v) monitor \<Rightarrow> bool" where
  lock_extract: "m_point m t = Entering k \<Longrightarrow> m_mutex m = None \<Longrightarrow>
    code_step m (move t (Inspecting k) (Some t) m)"
| lock_again: "m_point m t = Awake k \<Longrightarrow> m_mutex m = None \<Longrightarrow>
    code_step m (move t (Inspecting k) (Some t) m)"
| sleep: "m_point m t = Inspecting k \<Longrightarrow> storage_extract k (m_storage m) = (Inl Block, st) \<Longrightarrow>
    code_step m (move t (Sleeping k) None m)"
| take_value: "m_point m t = Inspecting k \<Longrightarrow> storage_extract k (m_storage m) = (Inr v, st) \<Longrightarrow>
    code_step m ((move t Outside None m)\<lparr>m_storage := st, m_history := m_history m @ [Took t k v]\<rparr>)"
| extract_throws: "m_point m t = Inspecting k \<Longrightarrow> storage_extract k (m_storage m) = (Inl (Throw e), st) \<Longrightarrow>
    code_step m (move t Outside None m)"
| lock_addValue: "m_point m t = Offering k v \<Longrightarrow> m_mutex m = None \<Longrightarrow>
    code_step m (move t (Pushing k v) (Some t) m)"
| push_value: "m_point m t = Pushing k v \<Longrightarrow> storage_addValue k v (m_storage m) = (Inr (), st) \<Longrightarrow>
    code_step m ((move t Notifying None m)\<lparr>m_storage := st, m_history := m_history m @ [Put t k v]\<rparr>)"
| addValue_throws: "m_point m t = Pushing k v \<Longrightarrow> storage_addValue k v (m_storage m) = (Inl (Throw e), st) \<Longrightarrow>
    code_step m (move t Outside None m)"
| notify_all: "m_point m t = Notifying \<Longrightarrow>
    code_step m (m\<lparr>m_point := (wake \<circ> m_point m)(t := Outside)\<rparr>)"

inductive_cases env_stepE: "env_step m m'"
inductive_cases code_stepE: "code_step m m'"

inductive monitor_reachable :: "('k, 'v) ExtractingStorage \<Rightarrow> ('k, 'v) monitor \<Rightarrow> bool"
  for st :: "('k, 'v) ExtractingStorage" where
  start: "monitor_reachable st (monitor_init st)"
| env: "monitor_reachable st m \<Longrightarrow> env_step m m' \<Longrightarrow> monitor_reachable st m'"
| code: "monitor_reachable st m \<Longrightarrow> code_step m m' \<Longrightarrow> monitor_reachable st m'"

lemma move_simps [simp]:
  "m_point (move t pt mx m) = (m_point m)(t := pt)" "m_mutex (move t pt mx m) = mx"
  "m_storage (move t pt mx m) = m_storage m" "m_history (move t pt mx m) = m_history m"
  by (simp_all add: move_def)

section \<open>The sequential meaning of a history\<close>

text \<open>A history replayed on the storage of \<open>Launcher_Storage\<close>; \<open>None\<close> if an operation would give another value.\<close>

fun replay :: "('k, 'v) event list \<Rightarrow> ('k, 'v) ExtractingStorage \<Rightarrow> ('k, 'v) ExtractingStorage option" where
  "replay [] st = Some st"
| "replay (Took t k v # es) st =
     (case storage_extract k st of (Inr w, st') \<Rightarrow> if w = v then replay es st' else None | _ \<Rightarrow> None)"
| "replay (Put t k v # es) st =
     (case storage_addValue k v st of (Inr _, st') \<Rightarrow> replay es st' | _ \<Rightarrow> None)"

lemma replay_append: "replay (es @ fs) st = (case replay es st of None \<Rightarrow> None | Some st' \<Rightarrow> replay fs st')"
  by (induction es st rule: replay.induct) (auto split: prod.splits sum.splits)

section \<open>The invariant\<close>

fun inside :: "('k, 'v) point \<Rightarrow> bool" where
  "inside (Inspecting k) \<longleftrightarrow> True"
| "inside (Pushing k v) \<longleftrightarrow> True"
| "inside _ \<longleftrightarrow> False"

definition no_lost_wakeup :: "('k, 'v) monitor \<Rightarrow> bool" where
  "no_lost_wakeup m \<longleftrightarrow>
     (\<forall>t k. m_point m t = Sleeping k \<longrightarrow> m_storage m k = Some [] \<or> (\<exists>u. m_point m u = Notifying))"

definition monitor_inv :: "('k, 'v) ExtractingStorage \<Rightarrow> ('k, 'v) monitor \<Rightarrow> bool" where
  "monitor_inv st m \<longleftrightarrow>
     (\<forall>t. inside (m_point m t) \<longleftrightarrow> m_mutex m = Some t) \<and> no_lost_wakeup m \<and> replay (m_history m) st = Some (m_storage m)"

lemma monitor_invD:
  assumes "monitor_inv st m"
  shows "inside (m_point m t) \<longleftrightarrow> m_mutex m = Some t" and "replay (m_history m) st = Some (m_storage m)"
    and "m_point m t = Sleeping k \<Longrightarrow> m_storage m k = Some [] \<or> (\<exists>u. m_point m u = Notifying)"
  using assms unfolding monitor_inv_def no_lost_wakeup_def by blast+

lemma monitor_invI:
  assumes "\<And>t. inside (m_point m t) \<longleftrightarrow> m_mutex m = Some t" and "replay (m_history m) st = Some (m_storage m)"
    and "\<And>t k. m_point m t = Sleeping k \<Longrightarrow> m_storage m k = Some [] \<or> (\<exists>u. m_point m u = Notifying)"
  shows "monitor_inv st m"
  using assms unfolding monitor_inv_def no_lost_wakeup_def by blast

lemma inside_wake [simp]: "inside (wake pt) = inside pt"
  by (cases pt) simp_all

lemma wake_not_sleeping [simp]: "wake pt \<noteq> Sleeping k"
  by (cases pt) simp_all

lemma still_notifying:
  assumes "\<exists>u. p u = Notifying" and "p t \<noteq> Notifying"
  shows "\<exists>u. (p(t := pt)) u = Notifying"
proof -
  obtain u where "p u = Notifying" using assms(1) by blast
  with assms(2) show ?thesis by (intro exI[of _ u]) auto
qed

text \<open>A step that changes one thread and possibly the mutex.\<close>

lemma monitor_inv_move:
  assumes inv: "monitor_inv st m" and pt: "m_point m t \<noteq> Notifying"
    and sleep: "\<And>k. pt = Sleeping k \<Longrightarrow> m_storage m k = Some []"
    and mx: "mx = (if inside pt then Some t else if m_mutex m = Some t then None else m_mutex m)"
    and free: "inside pt \<Longrightarrow> m_mutex m = None \<or> m_mutex m = Some t"
  shows "monitor_inv st (move t pt mx m)"
proof (rule monitor_invI)
  note facts = monitor_invD[OF inv]
  show "inside (m_point (move t pt mx m) u) \<longleftrightarrow> m_mutex (move t pt mx m) = Some u" for u
    using facts(1)[of u] facts(1)[of t] mx free by auto
  show "replay (m_history (move t pt mx m)) st = Some (m_storage (move t pt mx m))" using facts(2) by simp
  show "m_storage (move t pt mx m) k = Some [] \<or> (\<exists>u. m_point (move t pt mx m) u = Notifying)"
    if "m_point (move t pt mx m) u = Sleeping k" for u k
  proof (cases "u = t")
    case True
    with that sleep show ?thesis by simp
  next
    case False
    with that have "m_storage m k = Some [] \<or> (\<exists>u. m_point m u = Notifying)" by (intro facts(3)) simp
    with still_notifying[of "m_point m" t pt] pt show ?thesis by (auto simp del: fun_upd_apply)
  qed
qed

lemma env_step_inv: "env_step m m' \<Longrightarrow> monitor_inv st m \<Longrightarrow> monitor_inv st m'"
proof (elim env_stepE)
  fix t k assume "monitor_inv st m" "m_point m t = Outside" "m' = move t (Entering k) (m_mutex m) m"
  then show ?thesis using monitor_invD(1)[of st m t] by (auto intro!: monitor_inv_move)
next
  fix t k v assume "monitor_inv st m" "m_point m t = Outside" "m' = move t (Offering k v) (m_mutex m) m"
  then show ?thesis using monitor_invD(1)[of st m t] by (auto intro!: monitor_inv_move)
next
  fix t k assume "monitor_inv st m" "m_point m t = Sleeping k" "m' = move t (Awake k) (m_mutex m) m"
  then show ?thesis using monitor_invD(1)[of st m t] by (auto intro!: monitor_inv_move)
qed

lemma take_value_inv:
  assumes inv: "monitor_inv st m" and t: "m_point m t = Inspecting k"
    and e: "storage_extract k (m_storage m) = (Inr v, st')"
  shows "monitor_inv st ((move t Outside None m)\<lparr>m_storage := st', m_history := m_history m @ [Took t k v]\<rparr>)"
proof (rule monitor_invI, goal_cases)
  case (1 u)
  then show ?case using monitor_invD(1)[OF inv, of u] monitor_invD(1)[OF inv, of t] t by auto
next
  case 2
  then show ?case using monitor_invD(2)[OF inv] e by (simp add: replay_append)
next
  case (3 u k')
  obtain vs where vs: "m_storage m k = Some (vs @ [v])" "st' = (m_storage m)(k \<mapsto> vs)"
    using st.extract_result[OF e] by blast
  have "m_point m u = Sleeping k'" using 3 by (simp split: if_splits)
  from monitor_invD(3)[OF inv this] show ?case
  proof
    assume "\<exists>u. m_point m u = Notifying"
    from still_notifying[OF this, of t Outside] t show ?thesis by simp
  qed (use vs in auto)
qed

lemma push_value_inv:
  assumes inv: "monitor_inv st m" and t: "m_point m t = Pushing k v"
    and e: "storage_addValue k v (m_storage m) = (Inr (), st')"
  shows "monitor_inv st ((move t Notifying None m)\<lparr>m_storage := st', m_history := m_history m @ [Put t k v]\<rparr>)"
proof (rule monitor_invI, goal_cases)
  case (1 u)
  then show ?case using monitor_invD(1)[OF inv, of u] monitor_invD(1)[OF inv, of t] t by auto
next
  case 2
  then show ?case using monitor_invD(2)[OF inv] e by (simp add: replay_append)
next
  case (3 u k')
  show ?case by (rule disjI2, rule exI[of _ t]) simp
qed

lemma code_step_inv:
  assumes "code_step m m'" and inv: "monitor_inv st m"
  shows "monitor_inv st m'"
  using assms(1)
proof cases
  case (lock_extract t k)
  then show ?thesis by (auto intro!: monitor_inv_move[OF inv])
next
  case (lock_again t k)
  then show ?thesis by (auto intro!: monitor_inv_move[OF inv])
next
  case (sleep t k st')
  then have "m_storage m k = Some []" using st.blocked_iff[of k "m_storage m"] by simp
  with sleep monitor_invD(1)[OF inv, of t] show ?thesis by (auto intro!: monitor_inv_move[OF inv])
next
  case (take_value t k v st')
  then show ?thesis using take_value_inv[OF inv] by simp
next
  case (extract_throws t k e st')
  with monitor_invD(1)[OF inv, of t] show ?thesis by (auto intro!: monitor_inv_move[OF inv])
next
  case (lock_addValue t k v)
  then show ?thesis by (auto intro!: monitor_inv_move[OF inv])
next
  case (push_value t k v st')
  then show ?thesis using push_value_inv[OF inv] by simp
next
  case (addValue_throws t k v e st')
  with monitor_invD(1)[OF inv, of t] show ?thesis by (auto intro!: monitor_inv_move[OF inv])
next
  case (notify_all t)
  show ?thesis
    unfolding notify_all(1)
  proof (rule monitor_invI, goal_cases)
    case (1 u)
    then show ?case using monitor_invD(1)[OF inv, of u] notify_all(2) by auto
  next
    case 2
    then show ?case using monitor_invD(2)[OF inv] by simp
  next
    case (3 u k)
    then show ?case by (simp split: if_splits)
  qed
qed

lemma monitor_reachable_inv: "monitor_reachable st m \<Longrightarrow> monitor_inv st m"
proof (induction rule: monitor_reachable.induct)
  case start
  show ?case by (rule monitor_invI) (simp_all add: monitor_init_def)
qed (blast intro: env_step_inv code_step_inv)+

section \<open>The two functions do not stop\<close>

lemma storage_results:
  "(\<exists>v st'. storage_extract k st = (Inr v, st')) \<or> (\<exists>st'. storage_extract k st = (Inl Block, st'))
    \<or> (\<exists>e st'. storage_extract k st = (Inl (Throw e), st'))"
  "(\<exists>st'. storage_addValue k v st = (Inr (), st')) \<or> (\<exists>e st'. storage_addValue k v st = (Inl (Throw e), st'))"
  by (auto simp: storage_extract_def storage_addValue_def split: option.splits)

lemma inside_step:
  assumes "inside (m_point m t)"
  shows "\<exists>m'. code_step m m'"
proof (cases "m_point m t")
  case (Inspecting k)
  then show ?thesis using storage_results(1)[of k "m_storage m"]
    by (metis code_step.take_value code_step.sleep code_step.extract_throws)
next
  case (Pushing k v)
  then show ?thesis using storage_results(2)[of k v "m_storage m"]
    by (metis code_step.push_value code_step.addValue_throws)
qed (use assms in simp_all)

lemma notifier_wakes:
  assumes "m_point m u = Notifying" and "m_point m t = Sleeping k"
  shows "\<exists>m'. code_step m m' \<and> m_point m' t = Awake k"
proof -
  let ?m = "m\<lparr>m_point := (wake \<circ> m_point m)(u := Outside)\<rparr>"
  have "code_step m ?m" by (rule code_step.notify_all[OF assms(1)])
  moreover have "m_point ?m t = Awake k" using assms by auto
  ultimately show ?thesis by blast
qed

lemma unlocked_step:
  assumes "m_mutex m = None" and "m_point m t \<noteq> Outside" and "\<forall>k. m_point m t \<noteq> Sleeping k"
  shows "\<exists>m'. code_step m m'"
proof (cases "inside (m_point m t)")
  case False
  with assms show ?thesis
    by (cases "m_point m t") (auto intro: code_step.lock_extract code_step.lock_again code_step.lock_addValue code_step.notify_all)
qed (rule inside_step)

section \<open>A concrete run\<close>

text \<open>Thread 1 sleeps on an empty list, thread 2 has pushed the value 7 and is about to notify.\<close>

definition pushed :: "(nat, nat) monitor" where
  "pushed = \<lparr>m_mutex = None, m_storage = [0 \<mapsto> [7]], m_point = (\<lambda>_. Outside)(1 := Sleeping 0, 2 := Notifying),
     m_history = [Put 2 0 7]\<rparr>"

lemma pushed_reachable: "monitor_reachable [0 \<mapsto> []] pushed"
proof -
  let ?m0 = "monitor_init [0 \<mapsto> []] :: (nat, nat) monitor"
  let ?m1 = "move 1 (Entering 0) None ?m0"
  let ?m2 = "move 1 (Inspecting 0) (Some 1) ?m1"
  let ?m3 = "move 1 (Sleeping 0) None ?m2"
  let ?m4 = "move 2 (Offering 0 7) None ?m3"
  let ?m5 = "move 2 (Pushing 0 7) (Some 2) ?m4"
  have m1: "env_step ?m0 ?m1" using env_step.call_extract[of ?m0 1 0] by (simp add: monitor_init_def)
  have m2: "code_step ?m1 ?m2" by (rule code_step.lock_extract) simp_all
  have m3: "code_step ?m2 ?m3"
    by (rule code_step.sleep) (simp_all add: monitor_init_def storage_extract_def)
  have m4: "env_step ?m3 ?m4" using env_step.call_addValue[of ?m3 2 0 7] by (simp add: monitor_init_def)
  have m5: "code_step ?m4 ?m5" by (rule code_step.lock_addValue) simp_all
  have "code_step ?m5 ((move 2 Notifying None ?m5)\<lparr>m_storage := [0 \<mapsto> [7]], m_history := m_history ?m5 @ [Put 2 0 7]\<rparr>)"
    by (rule code_step.push_value) (simp_all add: monitor_init_def storage_addValue_def)
  moreover have "(move 2 Notifying None ?m5)\<lparr>m_storage := [0 \<mapsto> [7]], m_history := m_history ?m5 @ [Put 2 0 7]\<rparr> = pushed"
    by (simp add: pushed_def move_def monitor_init_def fun_eq_iff)
  ultimately have "code_step ?m5 pushed" by (simp only:)
  with m1 m2 m3 m4 m5 show ?thesis by (meson monitor_reachable.start monitor_reachable.env monitor_reachable.code)
qed

section \<open>Properties\<close>

text \<open>
  C12. The storage is linearizable: however the pieces of \<open>extract\<close> and \<open>addValue\<close> of any number of threads
  interleave, the operations that took effect are, in the order in which they did, a legal sequence of the atomic operations
  \<open>storage_extract\<close> and \<open>storage_addValue\<close> with the same values, and lead to the same storage. No two threads are inside
  the mutex at the same time.
\<close>

theorem storage_linearizable:
  assumes "monitor_reachable st m"
  shows "replay (m_history m) st = Some (m_storage m)
    \<and> (inside (m_point m t) \<and> inside (m_point m u) \<longrightarrow> t = u)"
  using monitor_invD(1,2)[OF monitor_reachable_inv[OF assms]] by auto

theorem storage_linearizable_witness:
  "monitor_reachable [0 \<mapsto> []] pushed \<and> replay [Put 2 0 7] [0 \<mapsto> []] = Some [0 :: nat \<mapsto> [7 :: nat]]"
  using storage_linearizable[OF pushed_reachable] pushed_reachable by (simp add: pushed_def del: replay.simps)

text \<open>
  C13. No wake-up is lost, although \<open>addValue\<close> notifies after it has released the mutex: a thread that sleeps while its
  list has a value is woken by the next step of a thread that is about to notify, and the two functions cannot get stuck
  with anything but threads that sleep on an empty list.
\<close>

theorem storage_no_lost_wakeup:
  assumes "monitor_reachable st m"
  shows "(m_point m t = Sleeping k \<longrightarrow> m_storage m k \<noteq> Some [] \<longrightarrow> (\<exists>m'. code_step m m' \<and> m_point m' t = Awake k))
    \<and> ((\<exists>m'. code_step m m') \<or>
       (\<forall>t. m_point m t = Outside \<or> (\<exists>k. m_point m t = Sleeping k \<and> m_storage m k = Some [])))"
proof -
  note facts = monitor_invD[OF monitor_reachable_inv[OF assms]]
  have woken: "\<exists>m'. code_step m m' \<and> m_point m' t = Awake k" if "m_point m t = Sleeping k" "m_storage m k \<noteq> Some []" for t k
    using facts(3)[OF that(1)] that(2) notifier_wakes[OF _ that(1)] by blast
  have "\<exists>m'. code_step m m'" if "m_point m t \<noteq> Outside" "\<forall>k. m_point m t = Sleeping k \<longrightarrow> m_storage m k \<noteq> Some []" for t
  proof (cases "m_mutex m")
    case None
    with that unlocked_step[OF None that(1)] woken show ?thesis by blast
  next
    case (Some u)
    then have "inside (m_point m u)" using facts(1) by blast
    then show ?thesis by (rule inside_step)
  qed
  with woken show ?thesis by blast
qed

theorem storage_no_lost_wakeup_witness:
  "monitor_reachable [0 \<mapsto> []] pushed \<and> (\<exists>m'. code_step pushed m' \<and> m_point m' 1 = Awake 0)"
  using storage_no_lost_wakeup[OF pushed_reachable, of 1 0] pushed_reachable by (simp add: pushed_def)

end
