(* ===== verification/Request_Sequences.thy ===== *)
theory Request_Sequences
  imports Server Pool_Startup
begin

text \<open>
  Sequences of requests on one server: a worker that serves one request after the other, as the tasks
  scheduled by \<open>ServerImpl::start\<close> do on a thread pool of size one.
\<close>

section \<open>Serving requests in order\<close>

fun serve :: "'d env \<Rightarrow> http_request list \<Rightarrow> ('d pool, http_response list) op" where
  "serve env [] = sret []"
| "serve env (req # reqs) =
     sbind (internalProcessRequest env req) (\<lambda>answer.
     sbind (serve env reqs) (\<lambda>answers. sret (answer # answers)))"

lemma serve_Cons:
  assumes "serve env (req # reqs) p = (Inr answers, p')"
  obtains a q as where "internalProcessRequest env req p = (Inr a, q)" "serve env reqs q = (Inr as, p')" "answers = a # as"
  using assms by (auto simp: sbind_def split: prod.splits sum.splits)

lemma serve_reachable:
  assumes "docker_contract c issued"
  shows "reachable c config d s \<Longrightarrow> threads s = (\<lambda>_. Idle) \<Longrightarrow>
    serve (c, tar, too_big) reqs (sys_pool s) = (Inr answers, p) \<Longrightarrow>
    length answers = length reqs \<and> list_all (\<lambda>a. status_uri_header a = ''200'') answers
    \<and> (\<exists>s'. reachable c config d s' \<and> threads s' = (\<lambda>_. Idle) \<and> sys_pool s' = p)"
proof (induction reqs arbitrary: s answers)
  case (Cons req reqs)
  from Cons.prems(3) obtain a q as where a: "internalProcessRequest (c, tar, too_big) req (sys_pool s) = (Inr a, q)"
    and rest: "serve (c, tar, too_big) reqs q = (Inr as, p)" "answers = a # as" by (rule serve_Cons)
  note ok = internal_answer[OF a]
  obtain s1 where s1: "(pool_step c)\<^sup>*\<^sup>* s s1" "sys_pool s1 = q" "threads s1 = threads s"
    using processRequest_steps[OF _ pool_inv_wf[OF reachable_pool_inv[OF Cons.prems(1) assms]] ok[THEN conjunct2]]
      Cons.prems(2) by auto
  have "reachable c config d s1" by (rule reachable_steps[OF s1(1) Cons.prems(1)])
  from Cons.IH[OF this, of as] s1(2,3) Cons.prems(2) rest ok show ?case by simp
qed auto

section \<open>An engine that never fails to create a container\<close>

lemma nothing_lost:
  assumes "always_creates c"
  shows "reachable c config d s \<Longrightarrow> lost s lang = 0"
proof (induction rule: reachable.induct)
  case (step s s')
  from step.hyps(2) show ?case
  proof cases
    case (create_failed t i d)
    with createCodeLauncher_creates[OF assms, of "info_image i" "info_type i" "engine (sys_pool s)"] show ?thesis by auto
  qed (use step.IH in auto)
qed (simp add: sys_init_quiet)

lemma quiet_available:
  assumes "docker_contract c issued" and "always_creates c" and "reachable c config d s" and "threads s = (\<lambda>_. Idle)"
  shows "length (idle_list (store (sys_pool s)) lang) = length (idle_list (store (provider_init c config d)) lang)"
  using reachable_total[OF assms(3,1), of lang] nothing_lost[OF assms(2,3)] assms(4)
  by (simp add: available_def capacity_def in_use_def sys_init_quiet)

text \<open>Such an engine, on which every program prints \<open>hi\<close> and passes its tests.\<close>

definition steady :: "nat docker_client" where
  "steady = passing\<lparr>client_runContainer := (\<lambda>_ n. ((True, replicate (Suc n) CHR ''c''), Suc n))\<rparr>"

lemma steady_contract: "docker_contract steady counting_issued"
proof -
  have "replicate (Suc n) CHR ''c'' \<notin> counting_issued n" for n
    by (auto simp: counting_issued_def replicate_eq_replicate simp del: replicate.simps)
  moreover have "counting_issued (Suc n) = insert (replicate (Suc n) CHR ''c'') (counting_issued n)" for n
    by (simp add: counting_issued_def lessThan_Suc)
  ultimately show ?thesis
    by (auto simp: docker_contract_def steady_def passing_def demo_def counting_client_def simp del: replicate.simps)
qed

lemma steady_creates: "always_creates steady"
  by (simp add: always_creates_def steady_def)

lemma steady_provider: "provider_init steady one_container 0 = demo_pool"
  by (simp add: provider_init_def CodeLauncherOSManipulator_init_def syncRemoveRunningCodeLanchers_def
      syncCreateCodeLaunchers_def one_container_def steady_def passing_def demo_pool_def demo_defs)

lemma steady_run: "chapter_run steady plain_tar demo_chapter demo_pool
    \<lparr>exec_success = True, exec_message = render [] (Passed ''hi'' ''ok'')\<rparr>"
  unfolding chapter_run_def
  by (rule launcher_runI[where vs = "[]"])
    (simp_all add: demo_pool_def demo_archive kDefaultPaths_def steady_def passing_def demo_defs, simp_all add: demo_chapter_def)

text \<open>Two requests on that engine: a chapter and one for a handle that does not exist.\<close>

definition demo_requests :: "http_request list" where
  "demo_requests =
     [\<lparr>request_method = ''POST'', request_path = ''/check'', request_body = object_text demo_members, http_major = 1\<rparr>,
      \<lparr>request_method = ''POST'', request_path = ''/'', request_body = [], http_major = 1\<rparr>]"

lemma demo_params: "parseTask (\<lambda>_. False) (object_text demo_members) = Inr demo_chapter"
  using parseTask_complete[OF demo_body, of "''cpp''" CPP "''int main() {}''" "[]" "[]"]
  by (simp add: string_field_def request_keys getLanguageFromString_def kLanguagesMatch_def c_str_def demo_chapter_def)

lemma steady_answer:
  "\<exists>out p. processRequest (steady, plain_tar, \<lambda>_. False) ''/check'' (object_text demo_members) demo_pool = (Inr out, p)"
proof -
  let ?v = "Passed ''hi'' ''ok''"
  have clean: "clean ?v" by code_simp
  have fits: "fits32 (render [] ?v)" by (simp add: fits32_def)
  have "sourceRun demo_chapter \<noteq> []" by (simp add: demo_chapter_def)
  from check_response[OF demo_pool_wf demo_params this steady_run course_render[OF clean fits32_fits[OF fits]]
      verdict_fits[OF fits]]
  show ?thesis by (metis prod.collapse)
qed

lemma unknown_answer: "\<exists>out. processRequest env ''/'' [] p = (Inr out, p)"
  using makeErrorJson_parses[of "''Unknowon api: '' @ ''/''" "\<lambda>_. False"]
  by (auto simp: fits32_def processRequest_unknown getApi_def kCheck_def kPlayground_def kPractice_def)

lemma demo_served: "\<exists>answers p. serve (steady, plain_tar, \<lambda>_. False) demo_requests demo_pool = (Inr answers, p)"
proof -
  obtain out p where 1: "processRequest (steady, plain_tar, \<lambda>_. False) ''/check'' (object_text demo_members) demo_pool = (Inr out, p)"
    using steady_answer by blast
  obtain out2 where 2: "processRequest (steady, plain_tar, \<lambda>_. False) ''/'' [] p = (Inr out2, p)"
    using unknown_answer by blast
  show ?thesis using 1 2 by (simp add: demo_requests_def internalProcessRequest_def)
qed

section \<open>Properties\<close>

text \<open>
  C18. The pool outlives its requests: after any sequence of answered requests of any kind, well-formed or not, on an engine that
  creates every container, each language has as many idle launchers as after start; every request got its own answer
  with status 200. So a server does not run out of launchers by serving requests.
\<close>

theorem pool_restored:
  assumes "docker_contract c issued" and "always_creates c"
    and "serve (c, tar, too_big) reqs (provider_init c config d) = (Inr answers, p)"
  shows "length (idle_list (store p) lang) = length (idle_list (store (provider_init c config d)) lang)
    \<and> length answers = length reqs \<and> list_all (\<lambda>a. status_uri_header a = ''200'') answers"
proof -
  have idle: "threads (sys_init c config d) = (\<lambda>_. Idle)" and pool: "sys_pool (sys_init c config d) = provider_init c config d"
    by (simp_all add: sys_init_def)
  from serve_reachable[OF assms(1) reachable.start idle, of tar too_big reqs answers p] assms(3)
  obtain s' where "reachable c config d s'" "threads s' = (\<lambda>_. Idle)" "sys_pool s' = p"
    and ans: "length answers = length reqs" "list_all (\<lambda>a. status_uri_header a = ''200'') answers"
    by (auto simp: pool)
  with quiet_available[OF assms(1,2), of config d s' lang] show ?thesis by simp
qed

theorem pool_restored_witness:
  "\<exists>answers p. serve (steady, plain_tar, \<lambda>_. False) demo_requests (provider_init steady one_container 0) = (Inr answers, p)
     \<and> length (idle_list (store p) CPP) = 1 \<and> length answers = 2"
proof -
  obtain answers p where s: "serve (steady, plain_tar, \<lambda>_. False) demo_requests (provider_init steady one_container 0) = (Inr answers, p)"
    using demo_served by (auto simp: steady_provider)
  from pool_restored[OF steady_contract steady_creates s, of CPP] show ?thesis
    using s by (simp add: steady_provider demo_requests_def demo_pool_def idle_list_def)
qed

end
