(* ===== verification/Server_Threads.thy ===== *)
theory Server_Threads
  imports Request_Sequences "HOL-Library.Multiset"
begin

text \<open>
  The server with its thread pool (\<open>ServerImpl\<close> and \<open>AsyncContext\<close> of \<open>src/server/detail/server_impl.cpp\<close>): requests
  arrive and are scheduled, at most \<open>thread_count\<close> worker threads process them at the same time, each over the
  shared pool of launchers, and answer them. Which of the scheduled tasks a free thread takes is up to unifex, so
  the model allows any. \<open>accepted\<close> and \<open>answered\<close> are history variables.
\<close>

section \<open>States and steps\<close>

text \<open>Whether the thread that processes a request has asked for its launcher yet.\<close>

datatype stage = Taken | Called

record 'd server =
  srv_sys :: "'d sys"
  workers :: nat
  scheduled :: "http_request list"
  task :: "nat \<rightharpoonup> http_request \<times> stage"
  accepted :: "http_request list"
  answered :: "http_request list"

definition server_init :: "'d docker_client \<Rightarrow> Config \<Rightarrow> 'd \<Rightarrow> 'd server" where
  "server_init c config d =
     (let (service, poolSize) = ServerImpl_init c config d in
      \<lparr>srv_sys = quiet service, workers = unat poolSize, scheduled = [], task = Map.empty, accepted = [], answered = []\<rparr>)"

abbreviation request_wants :: "(string \<Rightarrow> bool) \<Rightarrow> http_request \<Rightarrow> Language option res" where
  "request_wants too_big req \<equiv> wanted_launcher too_big (request_path req) (request_body req)"

text \<open>A request that is answered without a launcher: an error, an empty chapter or a language without launchers.\<close>

definition no_launcher_needed :: "Language option res \<Rightarrow> 'd pool \<Rightarrow> bool" where
  "no_launcher_needed ask p =
     (case ask of
        Inl (Throw e) \<Rightarrow> True
      | Inr None \<Rightarrow> True
      | Inr (Some lang) \<Rightarrow> \<not> codeLauncherTypeIsValid lang p
      | _ \<Rightarrow> False)"

text \<open>
  The steps: a request arrives; a free worker takes a scheduled request; it asks for a launcher of the language that
  the request names; it goes through the phases of \<open>pool_step\<close>; it answers. A request whose parsing has no defined
  outcome has no further step, and an answer is a step whatever its text is. Without any worker the relation only
  collects requests; the thread pool itself would divide by its number of threads.
\<close>

inductive server_step :: "'d docker_client \<Rightarrow> (string \<Rightarrow> bool) \<Rightarrow> 'd server \<Rightarrow> 'd server \<Rightarrow> bool"
  for c :: "'d docker_client" and too_big :: "string \<Rightarrow> bool" where
  receive: "request_handler req (scheduled s) = (status, tasks) \<Longrightarrow>
    server_step c too_big s (s\<lparr>scheduled := tasks,
      accepted := (if status = request_accepted then accepted s @ [req] else accepted s)\<rparr>)"
| begin_task: "t < workers s \<Longrightarrow> task s t = None \<Longrightarrow> scheduled s = xs @ req # ys \<Longrightarrow>
    server_step c too_big s (s\<lparr>scheduled := xs @ ys, task := (task s)(t \<mapsto> (req, Taken))\<rparr>)"
| call: "task s t = Some (req, Taken) \<Longrightarrow> request_wants too_big req = Inr (Some lang) \<Longrightarrow>
    codeLauncherTypeIsValid lang (sys_pool (srv_sys s)) \<Longrightarrow>
    server_step c too_big s (s\<lparr>srv_sys := called t lang (srv_sys s), task := (task s)(t \<mapsto> (req, Called))\<rparr>)"
| work: "thread_step c t (srv_sys s) s' \<Longrightarrow> server_step c too_big s (s\<lparr>srv_sys := s'\<rparr>)"
| answer: "task s t = Some (req, st) \<Longrightarrow> threads (srv_sys s) t = Idle \<Longrightarrow>
    st = Called \<or> no_launcher_needed (request_wants too_big req) (sys_pool (srv_sys s)) \<Longrightarrow>
    server_step c too_big s (s\<lparr>task := (task s)(t := None), answered := answered s @ [req]\<rparr>)"

inductive_cases server_stepE: "server_step c too_big s s'"

inductive server_reachable :: "'d docker_client \<Rightarrow> (string \<Rightarrow> bool) \<Rightarrow> Config \<Rightarrow> 'd \<Rightarrow> 'd server \<Rightarrow> bool"
  for c :: "'d docker_client" and too_big :: "string \<Rightarrow> bool" and config :: Config and d :: 'd where
  start: "server_reachable c too_big config d (server_init c config d)"
| step: "server_reachable c too_big config d s \<Longrightarrow> server_step c too_big s s' \<Longrightarrow> server_reachable c too_big config d s'"

lemma server_init_simps [simp]:
  "srv_sys (server_init c config d) = sys_init c config d" "workers (server_init c config d) = thread_count config"
  "scheduled (server_init c config d) = []" "task (server_init c config d) = Map.empty"
  "accepted (server_init c config d) = []" "answered (server_init c config d) = []"
  by (simp_all add: server_init_def ServerImpl_init_def thread_count_def sys_init_quiet)

lemma server_reachable_steps:
  "(server_step c too_big)\<^sup>*\<^sup>* s s' \<Longrightarrow> server_reachable c too_big config d s \<Longrightarrow> server_reachable c too_big config d s'"
  by (induction rule: rtranclp_induct) (auto intro: server_reachable.step)

section \<open>The invariant of the server\<close>

definition in_flight :: "'d server \<Rightarrow> http_request multiset" where
  "in_flight s = image_mset (\<lambda>t. fst (the (task s t))) (mset_set (dom (task s)))"

definition server_inv :: "'d docker_client \<Rightarrow> Config \<Rightarrow> 'd \<Rightarrow> 'd server \<Rightarrow> bool" where
  "server_inv c config d s \<longleftrightarrow>
     reachable c config d (srv_sys s) \<and> workers s = thread_count config
     \<and> dom (task s) \<subseteq> {..<workers s}
     \<and> (\<forall>t. threads (srv_sys s) t \<noteq> Idle \<longrightarrow> (\<exists>req. task s t = Some (req, Called)))
     \<and> mset (accepted s) = mset (scheduled s) + in_flight s + mset (answered s)
     \<and> list_all (\<lambda>req. request_method req = ''POST'') (accepted s)"

lemma server_invD:
  assumes "server_inv c config d s"
  shows "reachable c config d (srv_sys s)" "workers s = thread_count config" "dom (task s) \<subseteq> {..<workers s}"
    and "threads (srv_sys s) t \<noteq> Idle \<Longrightarrow> \<exists>req. task s t = Some (req, Called)"
    and "mset (accepted s) = mset (scheduled s) + in_flight s + mset (answered s)"
    and "list_all (\<lambda>req. request_method req = ''POST'') (accepted s)" and "finite (dom (task s))"
  using assms finite_subset by (auto simp: server_inv_def)

lemma in_flight_cong: "task s' = task s \<Longrightarrow> in_flight s' = in_flight s"
  by (simp add: in_flight_def)

lemma in_flight_begin:
  assumes "finite (dom (task s))" and "task s t = None" and "task s' = (task s)(t \<mapsto> (req, st))"
  shows "in_flight s' = add_mset req (in_flight s)"
proof -
  have t: "t \<notin> dom (task s)" using assms(2) by auto
  have "image_mset (\<lambda>u. fst (the (task s' u))) (mset_set (dom (task s))) = in_flight s"
    unfolding in_flight_def by (rule image_mset_cong) (use assms t in auto)
  then show ?thesis using assms t by (simp add: in_flight_def)
qed

lemma in_flight_end:
  assumes "finite (dom (task s))" and "task s t = Some (req, st)" and "task s' = (task s)(t := None)"
  shows "in_flight s = add_mset req (in_flight s')"
  by (rule in_flight_begin[where t = t and st = st]) (use assms in \<open>auto simp: fun_upd_idem\<close>)

lemma in_flight_stage:
  assumes "task s t = Some (req, st)" and "task s' = (task s)(t \<mapsto> (req, st'))"
  shows "in_flight s' = in_flight s"
proof -
  have "dom (task s') = dom (task s)" using assms by auto
  then show ?thesis
    unfolding in_flight_def using assms by (auto intro!: image_mset_cong)
qed

lemma server_step_inv:
  assumes "server_step c too_big s s'" and inv: "server_inv c config d s"
  shows "server_inv c config d s'"
  using assms(1)
proof cases
  case (receive req status tasks)
  then show ?thesis
    using server_invD[OF inv] in_flight_cong[of s' s]
    by (auto simp: server_inv_def request_handler_def AsyncContext_schedule_def split: if_splits)
next
  case (begin_task t xs req ys)
  then have "threads (srv_sys s) t = Idle" using server_invD(4)[OF inv, of t] by auto
  with begin_task show ?thesis
    using server_invD[OF inv] in_flight_begin[of s t s' req Taken] by (auto simp: server_inv_def)
next
  case (call t req lang)
  have idle: "threads (srv_sys s) t = Idle" using server_invD(4)[OF inv, of t] call(2) by auto
  have "reachable c config d (called t lang (srv_sys s))"
    by (rule reachable.step[OF server_invD(1)[OF inv] pool_step.request[OF idle call(4)]])
  then show ?thesis
    using server_invD[OF inv] call in_flight_stage[OF call(2), of s'] by (auto simp: server_inv_def)
next
  case (work t u)
  then have "reachable c config d u" using server_invD(1)[OF inv] by (auto simp: thread_step_def intro: reachable.step)
  moreover have "\<exists>req. task s t' = Some (req, Called)" if "threads u t' \<noteq> Idle" for t'
    using work(2) that server_invD(4)[OF inv] unfolding thread_step_def by (metis)
  ultimately show ?thesis
    using server_invD[OF inv] work(1) in_flight_cong[of s' s] by (auto simp: server_inv_def)
next
  case (answer t req st)
  then show ?thesis
    using server_invD[OF inv] in_flight_end[OF server_invD(7)[OF inv] answer(2), of s'] by (auto simp: server_inv_def)
qed

lemma server_reachable_inv: "server_reachable c too_big config d s \<Longrightarrow> server_inv c config d s"
proof (induction rule: server_reachable.induct)
  case start
  show ?case by (simp add: server_inv_def in_flight_def reachable.start) (simp add: sys_init_quiet)
next
  case (step s s')
  then show ?case by (blast intro: server_step_inv)
qed

section \<open>A request processed by one worker\<close>

lemma work_steps:
  "(thread_step c t)\<^sup>*\<^sup>* (srv_sys s) u \<Longrightarrow> (server_step c too_big)\<^sup>*\<^sup>* s (s\<lparr>srv_sys := u\<rparr>)"
proof (induction rule: rtranclp_induct)
  case (step u v)
  have "server_step c too_big (s\<lparr>srv_sys := u\<rparr>) (s\<lparr>srv_sys := u, srv_sys := v\<rparr>)"
    by (rule server_step.work) (use step.hyps(2) in simp)
  with step.IH show ?case by simp
qed simp

lemma step_steps_step: "r a b \<Longrightarrow> r\<^sup>*\<^sup>* b e \<Longrightarrow> r e f \<Longrightarrow> r\<^sup>*\<^sup>* a f"
  by (meson converse_rtranclp_into_rtranclp rtranclp.rtrancl_into_rtrancl)

lemma wanted_no_abort:
  assumes "processRequest (c, tar, too_big) apiString body p = (Inr text, p')" and "wanted_launcher too_big apiString body = Inl f"
  shows "\<exists>e. f = Throw e"
proof (cases "getApi apiString")
  case (Some api)
  then have "handler_run (c, tar, too_big) api body p = (Inl f, p)"
    using assms(2) by (cases api) (auto simp: handler_run_def wanted_launcher_def rbind_def split: sum.splits)
  with assms(1) Some show ?thesis by (cases f) (auto simp: processRequest_handler)
qed (use assms(2) in \<open>simp add: wanted_launcher_def\<close>)

lemma request_run:
  assumes "threads (srv_sys s) t = Idle" and "pool_wf (sys_pool (srv_sys s))" and "task s t = Some (req, Taken)"
    and "internalProcessRequest (c, tar, too_big) req (sys_pool (srv_sys s)) = (Inr response, p)"
  shows "\<exists>s'. (server_step c too_big)\<^sup>*\<^sup>* s s' \<and> sys_pool (srv_sys s') = p \<and> threads (srv_sys s') = threads (srv_sys s)
    \<and> task s' = (task s)(t := None) \<and> answered s' = answered s @ [req] \<and> scheduled s' = scheduled s \<and> workers s' = workers s"
proof -
  let ?ask = "request_wants too_big req" and ?sys = "srv_sys s"
  note run = internal_answer[OF assms(4), THEN conjunct2]
  have out: "request_outcome_on c t ?ask ?sys (Inr (response_body response) :: string res) p"
    by (rule processRequest_one_call[OF assms(1,2) run])
  show ?thesis
  proof (cases "\<exists>lang. ?ask = Inr (Some lang) \<and> one_call c t lang ?sys p")
    case True
    then obtain lang u i where ask: "?ask = Inr (Some lang)" and valid: "codeLauncherTypeIsValid lang (sys_pool ?sys)"
      and u: "(thread_step c t)\<^sup>*\<^sup>* (called t lang ?sys) u" "sys_pool u = p" "threads u = threads ?sys"
      unfolding one_call_def by blast
    let ?s1 = "s\<lparr>srv_sys := called t lang ?sys, task := (task s)(t \<mapsto> (req, Called))\<rparr>"
    let ?s2 = "?s1\<lparr>srv_sys := u\<rparr>"
    let ?s3 = "?s2\<lparr>task := (task ?s2)(t := None), answered := answered ?s2 @ [req]\<rparr>"
    have s1: "server_step c too_big s ?s1" by (rule server_step.call[OF assms(3) ask valid])
    have s2: "(server_step c too_big)\<^sup>*\<^sup>* ?s1 ?s2" by (rule work_steps[of c t]) (use u(1) in simp)
    have s3: "server_step c too_big ?s2 ?s3"
      by (rule server_step.answer[where st = Called]) (use u(3) assms(1) in simp_all)
    note steps = step_steps_step[of "server_step c too_big", OF s1 s2 s3]
    from steps u show ?thesis by (intro exI[of _ ?s3]) simp
  next
    case False
    then have "p = sys_pool ?sys \<and> no_launcher_needed ?ask (sys_pool ?sys)"
    proof (cases ?ask)
      case (Inl f)
      with wanted_no_abort[OF run] out show ?thesis by (auto simp: request_outcome_on_def no_launcher_needed_def)
    next
      case (Inr a)
      with False out show ?thesis
        by (cases a) (simp_all add: request_outcome_on_def call_outcome_def no_launcher_needed_def)
    qed
    then have p: "p = sys_pool ?sys" and no: "no_launcher_needed ?ask (sys_pool ?sys)" by simp_all
    let ?s1 = "s\<lparr>task := (task s)(t := None), answered := answered s @ [req]\<rparr>"
    have "server_step c too_big s ?s1" by (rule server_step.answer[OF assms(3,1) disjI2[OF no]])
    then show ?thesis using p by (intro exI[of _ ?s1]) auto
  qed
qed

section \<open>The language of a request\<close>

lemma wanted_step:
  assumes "pool_step c s s'" and c: "docker_contract c issued" and inv: "pool_inv issued s" and "threads s t \<noteq> Idle"
  shows "threads s' t = Idle \<or> wanted (threads s' t) = wanted (threads s t)"
  using assms(1)
proof cases
  case (take t' L l p)
  then obtain vs where "store (sys_pool s) L = Some (vs @ [l])" using on_store_extract[OF take(3)] by blast
  then have "launcher_type l = L" using pool_invD(5)[OF inv, of l L] by (simp add: idle_list_def)
  with take show ?thesis by auto
next
  case (create t' i l d)
  then have "launcher_type l = info_type i" using createCodeLauncher_result(2)[OF c create(3) refl] by simp
  with create show ?thesis by auto
qed (use assms(4) pool_invD(4)[OF inv, of t] in auto)

definition language_inv :: "(string \<Rightarrow> bool) \<Rightarrow> 'd server \<Rightarrow> bool" where
  "language_inv too_big s \<longleftrightarrow>
     (\<forall>t req. task s t = Some (req, Called) \<longrightarrow> threads (srv_sys s) t \<noteq> Idle \<longrightarrow>
        request_wants too_big req = Inr (wanted (threads (srv_sys s) t)))"

lemma language_invD:
  "language_inv too_big s \<Longrightarrow> task s t = Some (req, Called) \<Longrightarrow> threads (srv_sys s) t \<noteq> Idle \<Longrightarrow>
   request_wants too_big req = Inr (wanted (threads (srv_sys s) t))"
  by (simp add: language_inv_def)

lemma server_step_language:
  assumes "server_step c too_big s s'" and c: "docker_contract c issued" and inv: "server_inv c config d s"
    and lang: "language_inv too_big s"
  shows "language_inv too_big s'"
  using assms(1)
proof cases
  case (work t u)
  note pool = reachable_pool_inv[OF server_invD(1)[OF inv] c]
  have step: "pool_step c (srv_sys s) u" and idle: "threads (srv_sys s) t' = Idle \<Longrightarrow> threads u t' = Idle" for t'
    using work(2) unfolding thread_step_def by (simp, metis)
  have "request_wants too_big req = Inr (wanted (threads u t'))"
    if "task s t' = Some (req, Called)" "threads u t' \<noteq> Idle" for t' req
  proof -
    have "threads (srv_sys s) t' \<noteq> Idle" using that(2) idle by blast
    with wanted_step[OF step c pool, of t'] language_invD[OF lang that(1)] that(2) show ?thesis by simp
  qed
  then show ?thesis using work(1) by (simp add: language_inv_def)
qed (use lang in \<open>auto simp: language_inv_def\<close>)

lemma server_reachable_language:
  assumes "docker_contract c issued"
  shows "server_reachable c too_big config d s \<Longrightarrow> language_inv too_big s"
proof (induction rule: server_reachable.induct)
  case (step s s')
  then show ?case using server_step_language[OF step.hyps(2) assms server_reachable_inv[OF step.hyps(1)]] by blast
qed (simp add: language_inv_def)

section \<open>How many launchers are in use\<close>

lemma in_use_workers:
  assumes "server_inv c config d s" and "threads (srv_sys s) t = Waiting lang"
  shows "in_use (srv_sys s) lang < thread_count config"
proof -
  note facts = server_invD[OF assms(1)]
  have worker: "u < workers s" if "threads (srv_sys s) u \<noteq> Idle" for u
    using facts(3) facts(4)[OF that] by auto
  have "{u. busy (threads (srv_sys s) u) = Some lang} \<subseteq> {..<workers s} - {t}"
  proof
    fix u assume u: "u \<in> {u. busy (threads (srv_sys s) u) = Some lang}"
    then have "threads (srv_sys s) u \<noteq> Idle" "u \<noteq> t" using assms(2) by auto
    with worker show "u \<in> {..<workers s} - {t}" by simp
  qed
  moreover have t: "t \<in> {..<workers s}" using worker[of t] assms(2) by simp
  ultimately have "in_use (srv_sys s) lang \<le> card ({..<workers s} - {t})"
    unfolding in_use_def by (intro card_mono) auto
  also have "\<dots> < workers s" using t by simp
  finally show ?thesis by (simp add: facts(2))
qed

section \<open>Workers that wait for a lost language\<close>

definition stuck :: "'d docker_client \<Rightarrow> Config \<Rightarrow> 'd \<Rightarrow> 'd server \<Rightarrow> bool" where
  "stuck c config d s \<longleftrightarrow>
     (\<forall>t < workers s. \<exists>lang. threads (srv_sys s) t = Waiting lang \<and> lost (srv_sys s) lang = capacity c config d lang)"

lemma stuck_step:
  assumes "server_step c too_big s s'" and c: "docker_contract c issued" and inv: "server_inv c config d s"
    and stuck: "stuck c config d s"
  shows "stuck c config d s' \<and> task s' = task s \<and> answered s' = answered s"
proof -
  note facts = server_invD[OF inv]
  have waits: "\<exists>lang. threads (srv_sys s) t = Waiting lang \<and> lost (srv_sys s) lang = capacity c config d lang
      \<and> (\<exists>req. task s t = Some (req, Called))"
    if "t < workers s" for t
    using stuck that facts(4)[of t] unfolding stuck_def by (metis phase.distinct(1))
  have worker: "t < workers s" if "task s t = Some x" for t x using facts(3) that by auto
  from assms(1) show ?thesis
  proof cases
    case (work t u)
    have "pool_step c (srv_sys s) u" using work(2) by (simp add: thread_step_def)
    then have "\<exists>lang. threads u t' = Waiting lang \<and> lost u lang = capacity c config d lang" if "t' < workers s" for t'
      using waits[OF that] exhausted_steps[OF r_into_rtranclp[of "pool_step c"] facts(1) c] by blast
    then show ?thesis using work(1) by (simp add: stuck_def)
  next
    case (begin_task t xs req ys)
    then show ?thesis using waits[of t] by auto
  next
    case (call t req lang)
    then show ?thesis using waits[of t] worker by fastforce
  next
    case (answer t req st)
    then show ?thesis using waits[of t] worker by fastforce
  qed (use stuck in \<open>simp_all add: stuck_def\<close>)
qed

lemma stuck_steps:
  assumes "(server_step c too_big)\<^sup>*\<^sup>* s s'" and c: "docker_contract c issued" and inv: "server_inv c config d s"
    and stuck: "stuck c config d s"
  shows "stuck c config d s' \<and> server_inv c config d s' \<and> task s' = task s \<and> answered s' = answered s"
  using assms(1)
proof (induction rule: rtranclp_induct)
  case (step u v)
  then have inv: "server_inv c config d u" and "stuck c config d u" by simp_all
  with stuck_step[OF step.hyps(2) c] server_step_inv[OF step.hyps(2) inv] step.IH show ?case by metis
qed (use inv stuck in simp)

section \<open>Concrete servers\<close>

lemma take_request:
  assumes "request_method req = ''POST''" and "t < workers s" and "task s t = None" and "scheduled s = []"
  shows "\<exists>s'. (server_step c too_big)\<^sup>*\<^sup>* s s' \<and> srv_sys s' = srv_sys s \<and> task s' = (task s)(t \<mapsto> (req, Taken))
    \<and> scheduled s' = [] \<and> workers s' = workers s \<and> answered s' = answered s \<and> accepted s' = accepted s @ [req]"
proof -
  let ?s1 = "s\<lparr>scheduled := [req], accepted := accepted s @ [req]\<rparr>"
  let ?s2 = "?s1\<lparr>scheduled := [], task := (task ?s1)(t \<mapsto> (req, Taken))\<rparr>"
  have "request_handler req (scheduled s) = (request_accepted, [req])"
    using assms by (simp add: request_handler_def AsyncContext_schedule_def)
  from server_step.receive[OF this, of c too_big] have "server_step c too_big s ?s1" by simp
  moreover have "server_step c too_big ?s1 ?s2"
    using server_step.begin_task[of t ?s1 "[]" req "[]" c too_big] assms by simp
  ultimately show ?thesis by (intro exI[of _ ?s2]) (auto intro: converse_rtranclp_into_rtranclp)
qed

lemma wait_request:
  assumes "request_method req = ''POST''" and "t < workers s" and "task s t = None" and "scheduled s = []"
    and "request_wants too_big req = Inr (Some lang)" and "codeLauncherTypeIsValid lang (sys_pool (srv_sys s))"
  shows "\<exists>s'. (server_step c too_big)\<^sup>*\<^sup>* s s' \<and> srv_sys s' = called t lang (srv_sys s)
    \<and> task s' = (task s)(t \<mapsto> (req, Called)) \<and> scheduled s' = [] \<and> workers s' = workers s \<and> answered s' = answered s
    \<and> accepted s' = accepted s @ [req]"
proof -
  obtain s1 where s1: "(server_step c too_big)\<^sup>*\<^sup>* s s1" "srv_sys s1 = srv_sys s" "task s1 = (task s)(t \<mapsto> (req, Taken))"
    "scheduled s1 = []" "workers s1 = workers s" "answered s1 = answered s" "accepted s1 = accepted s @ [req]"
    using take_request[OF assms(1-4)] by blast
  let ?s2 = "s1\<lparr>srv_sys := called t lang (srv_sys s1), task := (task s1)(t \<mapsto> (req, Called))\<rparr>"
  have "server_step c too_big s1 ?s2"
    by (rule server_step.call[OF _ assms(5)]) (simp_all add: s1 assms(6))
  with s1 show ?thesis by (intro exI[of _ ?s2]) auto
qed

definition demo_req :: http_request where
  "demo_req = \<lparr>request_method = ''POST'', request_path = ''/check'', request_body = object_text demo_members, http_major = 1\<rparr>"

abbreviation small :: "string \<Rightarrow> bool" where "small \<equiv> \<lambda>_. False"

lemma demo_req_facts [simp]: "request_method demo_req = ''POST''" "request_wants small demo_req = Inr (Some CPP)"
  using demo_params by (simp_all add: demo_req_def wanted_launcher_def getApi_handles demo_chapter_def)

text \<open>
  A server with two workers whose only container is lost after its first request: the next two requests occupy both
  workers.
\<close>

lemma stuck_reachable:
  "\<exists>s. server_reachable demo small one_container 0 s \<and> stuck demo one_container 0 s \<and> answered s = [demo_req]"
proof -
  let ?i = "server_init demo one_container 0" and ?p = "\<lparr>engine = 1, store = [CPP \<mapsto> []]\<rparr> :: nat pool"
  have two: "thread_count one_container = 2" by (simp add: one_container_def thread_count_mod)
  obtain s1 where s1: "(server_step demo small)\<^sup>*\<^sup>* ?i s1" "srv_sys s1 = called 0 CPP (sys_init demo one_container 0)"
      "task s1 = [0 \<mapsto> (demo_req, Called)]" "scheduled s1 = []" "workers s1 = 2" "answered s1 = []"
    using wait_request[of demo_req 0 ?i small CPP demo] demo_valid by (auto simp: two)
  obtain u where u: "(thread_step demo 0)\<^sup>*\<^sup>* (srv_sys s1) u" "sys_pool u = ?p" "threads u = (\<lambda>_. Idle)"
    using demo_request[of 0] s1(2) by auto
  let ?s2 = "s1\<lparr>srv_sys := u\<rparr>"
  let ?s3 = "?s2\<lparr>task := (task ?s2)(0 := None), answered := answered ?s2 @ [demo_req]\<rparr>"
  have s2: "(server_step demo small)\<^sup>*\<^sup>* s1 ?s2" by (rule work_steps[OF u(1)])
  have s3: "server_step demo small ?s2 ?s3" by (rule server_step.answer[where st = Called]) (simp_all add: s1 u)
  have r3: "server_reachable demo small one_container 0 ?s3"
    using server_reachable_steps[OF s1(1) server_reachable.start] server_reachable_steps[OF s2] s3
    by (blast intro: server_reachable.step)
  have lost: "lost u CPP = 1"
    by (rule demo_lost[OF _ u(2,3)]) (use server_invD(1)[OF server_reachable_inv[OF r3]] in simp)
  obtain s4 where s4: "(server_step demo small)\<^sup>*\<^sup>* ?s3 s4" "srv_sys s4 = called 0 CPP u"
      "task s4 = [0 \<mapsto> (demo_req, Called)]" "scheduled s4 = []" "workers s4 = 2" "answered s4 = [demo_req]"
    using wait_request[of demo_req 0 ?s3 small CPP demo]
    by (auto simp: s1 u codeLauncherTypeIsValid_def storage_contains_def)
  obtain s5 where s5: "(server_step demo small)\<^sup>*\<^sup>* s4 s5" "srv_sys s5 = called 1 CPP (srv_sys s4)" "workers s5 = 2"
      "answered s5 = [demo_req]"
    using wait_request[of demo_req 1 s4 small CPP demo]
    by (auto simp: s4 u codeLauncherTypeIsValid_def storage_contains_def)
  have "stuck demo one_container 0 s5"
    using lost by (auto simp: stuck_def s4 s5 demo_capacity less_Suc_eq numeral_2_eq_2)
  moreover have "server_reachable demo small one_container 0 s5"
    by (rule server_reachable_steps[OF s5(1) server_reachable_steps[OF s4(1) r3]])
  ultimately show ?thesis using s5(4) by blast
qed

text \<open>A server with one worker and one container that is replaced after every use.\<close>

definition one_worker :: Config where
  "one_worker = one_container\<lparr>threadPoolSize := 1\<rparr>"

lemma one_worker_pool: "provider_init steady one_worker 0 = demo_pool"
  using steady_provider by (simp add: one_worker_def provider_init_def CodeLauncherOSManipulator_init_def
      syncCreateCodeLaunchers_def one_container_def)

lemma one_worker_capacity: "capacity steady one_worker 0 CPP = 1"
  by (simp add: capacity_def available_def sys_init_quiet one_worker_pool demo_pool_def idle_list_def)

lemma one_worker_workers: "thread_count one_worker = 1"
  by (simp add: one_worker_def thread_count_mod)

lemma waiting_on_demo_pool:
  assumes "provider_init steady config 0 = demo_pool" and "0 < thread_count config"
  shows "\<exists>s. server_reachable steady small config 0 s \<and> threads (srv_sys s) 0 = Waiting CPP
     \<and> available (srv_sys s) CPP = 1 \<and> task s = [0 \<mapsto> (demo_req, Called)] \<and> workers s = thread_count config
     \<and> accepted s = [demo_req] \<and> answered s = [] \<and> scheduled s = []"
proof -
  let ?i = "server_init steady config 0"
  have pool: "sys_pool (srv_sys ?i) = demo_pool" by (simp add: sys_init_quiet assms(1))
  have "codeLauncherTypeIsValid CPP (sys_pool (srv_sys ?i))"
    unfolding pool by (simp add: demo_pool_def codeLauncherTypeIsValid_def storage_contains_def)
  then obtain s where s: "(server_step steady small)\<^sup>*\<^sup>* ?i s" "srv_sys s = called 0 CPP (srv_sys ?i)"
      "task s = [0 \<mapsto> (demo_req, Called)]" "workers s = thread_count config"
      "accepted s = [demo_req]" "answered s = []" "scheduled s = []"
    using wait_request[of demo_req 0 ?i small CPP steady] assms(2) by auto
  have "available (srv_sys s) CPP = 1" using pool s(2) by (simp add: available_def demo_pool_def idle_list_def)
  with s server_reachable_steps[OF s(1) server_reachable.start] show ?thesis by (intro exI[of _ s]) simp
qed

lemma waiting_worker:
  "\<exists>s. server_reachable steady small one_worker 0 s \<and> threads (srv_sys s) 0 = Waiting CPP
     \<and> accepted s = [demo_req] \<and> answered s = [] \<and> scheduled s = []"
  using waiting_on_demo_pool[OF one_worker_pool] by (auto simp: one_worker_workers)

section \<open>Properties\<close>

text \<open>
  C14. The server and its code agree: when a worker has taken a request and \<open>internalProcessRequest\<close> answers it on the
  pool as it stands, the answer is a run of \<open>server_step\<close> in which only that worker moves; it ends with that pool, the
  worker free, the request among the answered ones and everything else as before.
\<close>

theorem request_refines_server:
  assumes "docker_contract c issued" and "server_reachable c too_big config d s" and "task s t = Some (req, Taken)"
    and "internalProcessRequest (c, tar, too_big) req (sys_pool (srv_sys s)) = (Inr response, p)"
  shows "\<exists>s'. (server_step c too_big)\<^sup>*\<^sup>* s s' \<and> server_reachable c too_big config d s' \<and> sys_pool (srv_sys s') = p
    \<and> threads (srv_sys s') = threads (srv_sys s) \<and> task s' = (task s)(t := None)
    \<and> answered s' = answered s @ [req] \<and> scheduled s' = scheduled s"
proof -
  note inv = server_invD[OF server_reachable_inv[OF assms(2)]]
  have "threads (srv_sys s) t = Idle" using inv(4)[of t] assms(3) by auto
  from request_run[OF this pool_inv_wf[OF reachable_pool_inv[OF inv(1) assms(1)]] assms(3,4)]
  show ?thesis using server_reachable_steps[OF _ assms(2)] by blast
qed

theorem request_refines_server_witness:
  "\<exists>s s'. server_reachable steady small one_worker 0 s \<and> task s 0 = Some (demo_req, Taken)
     \<and> (server_step steady small)\<^sup>*\<^sup>* s s' \<and> answered s' = [demo_req] \<and> task s' 0 = None"
proof -
  let ?i = "server_init steady one_worker 0"
  obtain s where s: "(server_step steady small)\<^sup>*\<^sup>* ?i s" "srv_sys s = srv_sys ?i" "task s = [0 \<mapsto> (demo_req, Taken)]"
      "answered s = []"
    using take_request[of demo_req 0 ?i steady small] by (auto simp: one_worker_workers)
  have r: "server_reachable steady small one_worker 0 s" by (rule server_reachable_steps[OF s(1) server_reachable.start])
  have pool: "sys_pool (srv_sys s) = demo_pool" by (simp add: s(2) sys_init_quiet one_worker_pool)
  obtain response p where "internalProcessRequest (steady, plain_tar, small) demo_req (sys_pool (srv_sys s)) = (Inr response, p)"
    using steady_answer by (auto simp: pool internalProcessRequest_def demo_req_def)
  from request_refines_server[OF steady_contract r _ this, of 0] s(3,4)
  obtain s' where "(server_step steady small)\<^sup>*\<^sup>* s s'" "task s' = Map.empty" "answered s' = [demo_req]" by auto
  with r s(3) show ?thesis by (intro exI[of _ s] exI[of _ s']) simp
qed

text \<open>
  C15. No request is lost or answered twice: in every reachable state the accepted requests, all of them POST, are
  exactly the scheduled ones, those a worker processes, and the answered ones, and at most \<open>thread_count\<close> are
  processed at the same time.
\<close>

theorem requests_accounted:
  assumes "server_reachable c too_big config d s"
  shows "mset (accepted s) = mset (scheduled s) + in_flight s + mset (answered s)
    \<and> size (in_flight s) \<le> thread_count config
    \<and> list_all (\<lambda>req. request_method req = ''POST'') (accepted s)"
proof -
  note facts = server_invD[OF server_reachable_inv[OF assms]]
  have "card (dom (task s)) \<le> card {..<workers s}" by (rule card_mono[OF finite_lessThan facts(3)])
  then have "size (in_flight s) \<le> thread_count config" by (simp add: in_flight_def facts(2))
  with facts(5,6) show ?thesis by blast
qed

theorem requests_accounted_witness:
  "\<exists>s. server_reachable steady small one_worker 0 s \<and> size (in_flight s) \<le> 1 \<and> task s \<noteq> Map.empty"
proof -
  obtain s where s: "server_reachable steady small one_worker 0 s" "threads (srv_sys s) 0 = Waiting CPP"
    using waiting_worker by blast
  have "task s 0 \<noteq> None" using server_invD(4)[OF server_reachable_inv[OF s(1)], of 0] s(2) by auto
  moreover from requests_accounted[OF s(1)] have "size (in_flight s) \<le> 1" by (simp add: one_worker_workers)
  ultimately show ?thesis using s(1) by auto
qed

text \<open>
  C16. A request is served in its own language: whenever a worker waits for or holds a launcher, its request asks for
  exactly that language, the launchers in the list of a language are of that language, and a launcher is replaced by
  one of the same language.
\<close>

theorem language_respected:
  assumes "docker_contract c issued" and "server_reachable c too_big config d s" and "threads (srv_sys s) t \<noteq> Idle"
  shows "(\<exists>req. task s t = Some (req, Called) \<and> request_wants too_big req = Inr (wanted (threads (srv_sys s) t)))
    \<and> (l \<in> set (idle_list (store (sys_pool (srv_sys s))) lang) \<longrightarrow> launcher_type l = lang)
    \<and> (threads (srv_sys s) t = Executed h \<longrightarrow> info_type (m_restartInfo h) = launcher_type (m_codeLauncher h))"
proof -
  note inv = server_invD[OF server_reachable_inv[OF assms(2)]]
  note pool = pool_invD[OF reachable_pool_inv[OF inv(1) assms(1)]]
  from inv(4)[OF assms(3)] obtain req where req: "task s t = Some (req, Called)" by blast
  with language_invD[OF server_reachable_language[OF assms(1,2)] req assms(3)] pool(5)[of l lang] pool(4)[of t]
  show ?thesis by auto
qed

theorem language_respected_witness:
  "\<exists>s req. server_reachable steady small one_worker 0 s \<and> task s 0 = Some (req, Called)
     \<and> request_wants small req = Inr (Some CPP)"
proof -
  obtain s where s: "server_reachable steady small one_worker 0 s" "threads (srv_sys s) 0 = Waiting CPP"
    using waiting_worker by blast
  from language_respected[OF steady_contract s(1), of 0] s show ?thesis by auto
qed

text \<open>
  C17. Enough containers mean no waiting: on an engine that creates every container, if a language starts with at
  least as many launchers as the thread pool has threads, a worker that asks for one of them finds one in the list, and
  its next step takes it.
\<close>

theorem capacity_suffices:
  assumes "docker_contract c issued" and "always_creates c" and "server_reachable c too_big config d s"
    and "thread_count config \<le> capacity c config d lang" and "threads (srv_sys s) t = Waiting lang"
  shows "available (srv_sys s) lang > 0
    \<and> (\<exists>s' l. server_step c too_big s s' \<and> threads (srv_sys s') t = Extracted l \<and> launcher_type l = lang)"
proof -
  note inv = server_reachable_inv[OF assms(3)]
  note reach = server_invD(1)[OF inv]
  have avail: "available (srv_sys s) lang > 0"
    using in_use_workers[OF inv assms(5)] reachable_total[OF reach assms(1), of lang] nothing_lost[OF assms(2) reach, of lang]
      assms(4) by simp
  from take_step[OF assms(5) this, of c] obtain u l where u: "pool_step c (srv_sys s) u"
      "threads u = (threads (srv_sys s))(t := Extracted l)" "l \<in> set (idle_list (store (sys_pool (srv_sys s))) lang)" by blast
  have "thread_step c t (srv_sys s) u" by (rule thread_stepI[OF u(1) _ u(2)]) (simp add: assms(5))
  from server_step.work[OF this, of too_big] u(2,3) avail pool_invD(5)[OF reachable_pool_inv[OF reach assms(1)], of l lang]
  show ?thesis by auto
qed

theorem capacity_suffices_witness:
  "\<exists>s. server_reachable steady small one_worker 0 s \<and> threads (srv_sys s) 0 = Waiting CPP \<and> available (srv_sys s) CPP > 0"
proof -
  obtain s where s: "server_reachable steady small one_worker 0 s" "threads (srv_sys s) 0 = Waiting CPP"
    using waiting_worker by blast
  from capacity_suffices[OF steady_contract steady_creates s(1) _ s(2)] s show ?thesis
    by (auto simp: one_worker_capacity one_worker_workers)
qed

text \<open>
  C33. Lost containers stop the whole server: once every worker waits for a language whose launchers are all lost, no
  request of any language is ever answered again; requests are still accepted, and pile up.
\<close>

theorem workers_exhausted:
  assumes "docker_contract c issued" and "server_reachable c too_big config d s"
    and "\<forall>t < workers s. \<exists>lang. threads (srv_sys s) t = Waiting lang \<and> lost (srv_sys s) lang = capacity c config d lang"
    and "(server_step c too_big)\<^sup>*\<^sup>* s s'"
  shows "answered s' = answered s \<and> task s' = task s
    \<and> (\<forall>req. request_method req = ''POST'' \<longrightarrow> (\<exists>s''. server_step c too_big s' s'' \<and> scheduled s'' = scheduled s' @ [req]))"
proof -
  have "stuck c config d s" using assms(3) by (simp add: stuck_def)
  from stuck_steps[OF assms(4,1) server_reachable_inv[OF assms(2)] this]
  have "answered s' = answered s" "task s' = task s" by simp_all
  moreover have "\<exists>s''. server_step c too_big s' s'' \<and> scheduled s'' = scheduled s' @ [req]"
    if "request_method req = ''POST''" for req
    using server_step.receive[of req s' request_accepted "scheduled s' @ [req]" c too_big] that
    by (fastforce simp: request_handler_def AsyncContext_schedule_def)
  ultimately show ?thesis by blast
qed

theorem workers_exhausted_witness:
  "\<exists>s. server_reachable demo small one_container 0 s \<and> answered s = [demo_req]
     \<and> (\<forall>s'. (server_step demo small)\<^sup>*\<^sup>* s s' \<longrightarrow> answered s' = [demo_req])"
proof -
  obtain s where s: "server_reachable demo small one_container 0 s" "stuck demo one_container 0 s" "answered s = [demo_req]"
    using stuck_reachable by blast
  from workers_exhausted[OF demo_contract s(1) s(2)[unfolded stuck_def]] s show ?thesis by auto
qed

end
