(* ===== verification/Server_Progress.thy ===== *)
theory Server_Progress
  imports Server_Threads
begin

text \<open>
  What becomes of accepted requests: without new arrivals the server comes to rest after a bounded number of steps,
  and on an engine that creates every container it rests only when every accepted request is answered. A request that
  waits for a launcher may nevertheless be overtaken any number of times. The server as \<open>main.cpp\<close> and
  \<open>server/server.cpp\<close> start it from the configuration file.
\<close>

section \<open>Steps of the server itself\<close>

text \<open>Every step but the arrival of a request: an accepted one is noted in \<open>accepted\<close>, a rejected one changes nothing.\<close>

definition internal_step :: "'d docker_client \<Rightarrow> (string \<Rightarrow> bool) \<Rightarrow> 'd server \<Rightarrow> 'd server \<Rightarrow> bool" where
  "internal_step c too_big s s' \<longleftrightarrow> server_step c too_big s s' \<and> s' \<noteq> s \<and> accepted s' = accepted s"

fun phase_weight :: "phase \<Rightarrow> nat" where
  "phase_weight (Waiting lang) = 8"
| "phase_weight ph = steps_left ph"

definition task_weight :: "'d server \<Rightarrow> nat \<Rightarrow> nat" where
  "task_weight s t =
     (case task s t of
        None \<Rightarrow> 0
      | Some (req, Taken) \<Rightarrow> 10
      | Some (req, Called) \<Rightarrow> Suc (phase_weight (threads (srv_sys s) t)))"

definition server_weight :: "'d server \<Rightarrow> nat" where
  "server_weight s = 11 * length (scheduled s) + (\<Sum>t<workers s. task_weight s t)"

lemma pool_step_moves:
  assumes "pool_step c s s'"
  shows "\<exists>u. threads s' u \<noteq> threads s u \<and> (threads s u = Idle \<or> phase_weight (threads s' u) < phase_weight (threads s u))"
  using assms by cases (rule_tac x = t in exI, simp)+

lemma thread_step_weight:
  assumes "thread_step c t s s'"
  shows "phase_weight (threads s' t) < phase_weight (threads s t)"
  using pool_step_moves[of c s s'] assms unfolding thread_step_def by metis

lemma task_weight_other: "u \<noteq> t \<Longrightarrow> task s' u = task s u \<Longrightarrow> threads (srv_sys s') u = threads (srv_sys s) u \<Longrightarrow>
    task_weight s' u = task_weight s u"
  by (simp add: task_weight_def split: option.split)

lemma sum_one_changed:
  fixes f g :: "nat \<Rightarrow> nat"
  assumes "t < n" and "\<And>u. u \<noteq> t \<Longrightarrow> g u = f u"
  shows "(\<Sum>u<n. g u) + f t = (\<Sum>u<n. f u) + g t"
proof -
  have "(\<Sum>u<n. f u) = f t + (\<Sum>u \<in> {..<n} - {t}. f u)" "(\<Sum>u<n. g u) = g t + (\<Sum>u \<in> {..<n} - {t}. g u)"
    using assms(1) by (simp_all add: sum.remove)
  moreover have "(\<Sum>u \<in> {..<n} - {t}. g u) = (\<Sum>u \<in> {..<n} - {t}. f u)" using assms(2) by (intro sum.cong) auto
  ultimately show ?thesis by simp
qed

lemma server_weight_changed:
  assumes "t < workers s" and "workers s' = workers s"
    and "\<And>u. u \<noteq> t \<Longrightarrow> task s' u = task s u \<and> threads (srv_sys s') u = threads (srv_sys s) u"
    and "11 * length (scheduled s') + task_weight s' t < 11 * length (scheduled s) + task_weight s t"
  shows "server_weight s' < server_weight s"
  using sum_one_changed[of t "workers s" "task_weight s'" "task_weight s"] assms task_weight_other[of _ t s' s]
  by (simp add: server_weight_def)

lemma internal_step_weight:
  assumes "internal_step c too_big s s'" and inv: "server_inv c config d s"
  shows "server_weight s' < server_weight s"
proof -
  note facts = server_invD[OF inv]
  have worker: "task s t = Some x \<Longrightarrow> t < workers s" for t x using facts(3) by auto
  have "server_step c too_big s s'" using assms(1) by (simp add: internal_step_def)
  then show ?thesis
  proof cases
    case (receive req status tasks)
    with assms(1) show ?thesis
      by (auto simp: internal_step_def request_handler_def split: if_splits)
  next
    case (begin_task t xs req ys)
    then show ?thesis by (intro server_weight_changed[of t]) (auto simp: task_weight_def)
  next
    case (call t req lang)
    then show ?thesis using worker[OF call(2)] by (intro server_weight_changed[of t]) (auto simp: task_weight_def)
  next
    case (work t u)
    then have "threads (srv_sys s) t \<noteq> Idle" by (simp add: thread_step_def)
    then obtain req where "task s t = Some (req, Called)" using facts(4) by blast
    with work thread_step_weight[OF work(2)] worker show ?thesis
      by (intro server_weight_changed[of t]) (auto simp: task_weight_def thread_step_def)
  next
    case (answer t req st)
    then show ?thesis using worker[OF answer(2)]
      by (intro server_weight_changed[of t]) (cases st; auto simp: task_weight_def)+
  qed
qed

lemma internal_steps:
  assumes "(internal_step c too_big ^^ k) s s'" and "server_reachable c too_big config d s"
  shows "server_reachable c too_big config d s' \<and> server_weight s' + k \<le> server_weight s \<and> accepted s' = accepted s"
  using assms
proof (induction k arbitrary: s')
  case (Suc k)
  then obtain u where u: "(internal_step c too_big ^^ k) s u" "internal_step c too_big u s'" by auto
  note IH = Suc.IH[OF u(1) Suc.prems(2)]
  then show ?case
    using internal_step_weight[OF u(2) server_reachable_inv] u(2) server_reachable.step
    by (fastforce simp: internal_step_def)
qed simp

lemma server_weight_le: "server_weight s \<le> 11 * length (scheduled s) + (\<Sum>t<workers s. 10)"
proof -
  have "phase_weight ph \<le> 9" for ph by (cases ph) simp_all
  then have "task_weight s t \<le> 10" for t
    by (auto simp: task_weight_def split: option.splits prod.splits stage.splits)
  then have "(\<Sum>t<workers s. task_weight s t) \<le> (\<Sum>t<workers s. 10)" by (rule sum_mono)
  then show ?thesis by (simp add: server_weight_def)
qed

section \<open>A language of the pool has containers\<close>

definition lists_nonempty :: "'d pool \<Rightarrow> bool" where
  "lists_nonempty p \<longleftrightarrow> (\<forall>lang vs. store p lang = Some vs \<longrightarrow> vs \<noteq> [])"

lemma launchContainers_nonempty: "lists_nonempty p \<Longrightarrow> lists_nonempty (launchContainers c conf p)"
proof (induction conf arbitrary: p)
  case (Cons e conf)
  obtain lang info where e: "e = (lang, info)" by (cases e)
  obtain ls d where run: "launch_loop c (imageName info) lang (unat (launched info)) [] (engine p) = (ls, d)"
    by (cases "launch_loop c (imageName info) lang (unat (launched info)) [] (engine p)")
  have "lists_nonempty (if ls \<noteq> [] then p\<lparr>engine := d, store := storage_addValues lang ls (store p)\<rparr> else p\<lparr>engine := d\<rparr>)"
    using Cons.prems by (auto simp: lists_nonempty_def st.addValues_some)
  from Cons.IH[OF this] show ?case by (simp add: e run Let_def split: if_splits)
qed simp

lemma provider_nonempty: "lists_nonempty (provider_init c config d)"
  by (simp add: provider_init_def CodeLauncherOSManipulator_init_def syncCreateCodeLaunchers_def Let_def
      launchContainers_nonempty lists_nonempty_def [of "\<lparr>engine = _, store = _\<rparr>"])

lemma capacity_pos:
  assumes "reachable c config d s" and "docker_contract c issued" and "wanted (threads s t) = Some lang"
  shows "capacity c config d lang > 0"
proof -
  have "lang \<in> dom (store (provider_init c config d))"
    using reachable_keys[OF assms(1,2)] keys_invD[OF _ assms(3)] by blast
  with provider_nonempty[of c config d] show ?thesis
    by (auto simp: capacity_def available_def sys_init_quiet idle_list_def lists_nonempty_def)
qed

section \<open>The server does not get stuck\<close>

lemma work_enabled:
  assumes "docker_contract c issued" and "always_creates c" and inv: "server_inv c config d s"
    and "threads (srv_sys s) t \<noteq> Idle"
  shows "\<exists>s'. internal_step c too_big s s'"
proof -
  let ?sys = "srv_sys s"
  note reach = server_invD(1)[OF inv]
  note keys = reachable_keys[OF reach assms(1), THEN conjunct1]
  have go: ?thesis if "thread_step c u ?sys s1" for u s1
  proof -
    have "s1 \<noteq> ?sys" using thread_step_weight[OF that] by auto
    then have "s\<lparr>srv_sys := s1\<rparr> \<noteq> s" by (metis server.select_convs(1) server.surjective server.update_convs(1))
    with server_step.work[OF that, of too_big] show ?thesis unfolding internal_step_def by fastforce
  qed
  have busy: ?thesis if b: "busy (threads ?sys u) = Some lang" for u lang
  proof -
    obtain s1 where "pool_step c ?sys s1" "\<forall>t'. t' \<noteq> u \<longrightarrow> threads s1 t' = threads ?sys t'"
      using busy_step[OF b keys] by blast
    moreover have "threads ?sys u \<noteq> Idle" using b by auto
    ultimately show ?thesis by (intro go[of u s1]) (simp add: thread_step_def)
  qed
  show ?thesis
  proof (cases "busy (threads ?sys t)")
    case None
    with assms(4) obtain lang where w: "threads ?sys t = Waiting lang" by (cases "threads ?sys t") auto
    show ?thesis
    proof (cases "available ?sys lang > 0")
      case True
      from take_step[OF w this, of c] obtain s1 l where "pool_step c ?sys s1" "threads s1 = (threads ?sys)(t := Extracted l)" by blast
      then show ?thesis by (intro go[of t s1] thread_stepI) (simp_all add: assms(4))
    next
      case False
      have "in_use ?sys lang > 0"
        using capacity_pos[OF reach assms(1), of t lang] reachable_total[OF reach assms(1), of lang]
          nothing_lost[OF assms(2) reach, of lang] False w by simp
      then obtain u where "busy (threads ?sys u) = Some lang" by (auto simp: in_use_def card_gt_0_iff)
      then show ?thesis by (rule busy)
    qed
  qed (rule busy)
qed

text \<open>A request whose processing ends in an answer: the outcome of its parser is defined.\<close>

definition answerable :: "(string \<Rightarrow> bool) \<Rightarrow> http_request \<Rightarrow> bool" where
  "answerable too_big req \<longleftrightarrow>
     (case request_wants too_big req of Inl (Throw e) \<Rightarrow> True | Inl _ \<Rightarrow> False | Inr _ \<Rightarrow> True)"

lemma idle_task_enabled:
  assumes "task s t = Some (req, st)" and "threads (srv_sys s) t = Idle" and "answerable too_big req"
  shows "\<exists>s'. internal_step c too_big s s'"
proof (cases "st = Called \<or> no_launcher_needed (request_wants too_big req) (sys_pool (srv_sys s))")
  case True
  let ?s = "s\<lparr>task := (task s)(t := None), answered := answered s @ [req]\<rparr>"
  have "server_step c too_big s ?s" by (rule server_step.answer[OF assms(1,2) True])
  moreover have "task ?s t \<noteq> task s t" using assms(1) by simp
  ultimately show ?thesis unfolding internal_step_def by fastforce
next
  case False
  then have st: "st = Taken" by (cases st) simp_all
  from False assms(3) obtain lang where lang: "request_wants too_big req = Inr (Some lang)"
      "codeLauncherTypeIsValid lang (sys_pool (srv_sys s))"
    by (auto simp: no_launcher_needed_def answerable_def split: sum.splits option.splits failure.splits)
  let ?s = "s\<lparr>srv_sys := called t lang (srv_sys s), task := (task s)(t \<mapsto> (req, Called))\<rparr>"
  have "server_step c too_big s ?s" by (rule server_step.call[OF assms(1)[unfolded st] lang])
  moreover have "task ?s t \<noteq> task s t" using assms(1) st by simp
  ultimately show ?thesis unfolding internal_step_def by fastforce
qed

lemma stopped_server:
  assumes "docker_contract c issued" and "always_creates c" and inv: "server_inv c config d s"
    and "thread_count config \<noteq> 0" and "\<forall>req \<in> set (accepted s). answerable too_big req"
    and stopped: "\<nexists>s'. internal_step c too_big s s'"
  shows "mset (answered s) = mset (accepted s) \<and> scheduled s = [] \<and> task s = Map.empty"
proof -
  note facts = server_invD[OF inv]
  have idle: "threads (srv_sys s) t = Idle" for t using work_enabled[OF assms(1-3)] stopped by blast
  have task: "task s t = None" for t
  proof (rule ccontr)
    assume "task s t \<noteq> None"
    then obtain req st where t: "task s t = Some (req, st)" by (cases "task s t") auto
    then have "t \<in> dom (task s)" by auto
    then have "fst (the (task s t)) \<in># in_flight s" using facts(7) by (auto simp: in_flight_def)
    then have "req \<in># mset (accepted s)" unfolding facts(5) using t by simp
    with assms(5) idle_task_enabled[OF t idle] stopped show False by auto
  qed
  have "scheduled s = []"
  proof (rule ccontr)
    assume "scheduled s \<noteq> []"
    then obtain req reqs where q: "scheduled s = [] @ req # reqs" by (cases "scheduled s") auto
    have "0 < workers s" using assms(4) by (simp add: facts(2))
    from server_step.begin_task[OF this task q, of c too_big] have "internal_step c too_big s
        (s\<lparr>scheduled := [] @ reqs, task := (task s)(0 \<mapsto> (req, Taken))\<rparr>)"
      using q by (auto simp: internal_step_def dest!: arg_cong[of _ _ "length \<circ> scheduled"])
    with stopped show False by blast
  qed
  moreover from task have "task s = Map.empty" by auto
  ultimately show ?thesis using facts(5) by (simp add: in_flight_def)
qed

section \<open>Overtaking\<close>

lemma run_to_idle:
  assumes "docker_contract c issued"
  shows "reachable c config d s \<Longrightarrow> busy (threads s t) = Some lang \<Longrightarrow>
    \<exists>s'. (thread_step c t)\<^sup>*\<^sup>* s s' \<and> threads s' = (threads s)(t := Idle)"
proof (induction "phase_weight (threads s t)" arbitrary: s rule: less_induct)
  case less
  have not_idle: "threads s t \<noteq> Idle" using less.prems(2) by auto
  obtain s1 where "pool_step c s s1" and same: "\<forall>t'. t' \<noteq> t \<longrightarrow> threads s1 t' = threads s t'"
    using busy_step[OF less.prems(2)] reachable_keys[OF less.prems(1) assms] by blast
  then have step: "thread_step c t s s1" and r1: "reachable c config d s1"
    using not_idle less.prems(1) by (auto simp: thread_step_def intro: reachable.step)
  note lighter = thread_step_weight[OF step]
  show ?case
  proof (cases "threads s1 t = Idle")
    case True
    with same have "threads s1 = (threads s)(t := Idle)" by auto
    with step show ?thesis by blast
  next
    case False
    have "wanted (threads s1 t) = Some lang"
      using wanted_step[OF _ assms reachable_pool_inv[OF less.prems(1) assms] not_idle] step False
        busy_wanted[OF less.prems(2)] by (auto simp: thread_step_def)
    moreover have "phase_weight (threads s t) \<le> 8" by (cases "threads s t") simp_all
    ultimately have "busy (threads s1 t) = Some lang" using lighter by (cases "threads s1 t") auto
    from less.hyps[OF lighter r1 this] obtain s' where "(thread_step c t)\<^sup>*\<^sup>* s1 s'" "threads s' = (threads s1)(t := Idle)" by blast
    with step same show ?thesis by (intro exI[of _ s']) (auto intro: converse_rtranclp_into_rtranclp)
  qed
qed

lemma take_and_run:
  assumes "docker_contract c issued" and "reachable c config d s" and "threads s t = Waiting lang" and "available s lang > 0"
  shows "\<exists>s'. (thread_step c t)\<^sup>*\<^sup>* s s' \<and> threads s' = (threads s)(t := Idle)"
proof -
  from take_step[OF assms(3,4), of c] obtain s1 l where s1: "pool_step c s s1" "threads s1 = (threads s)(t := Extracted l)" by blast
  have step: "thread_step c t s s1" by (rule thread_stepI[OF s1(1) _ s1(2)]) (simp add: assms(3))
  from run_to_idle[OF assms(1) reachable.step[OF assms(2) s1(1)], of t "launcher_type l"] s1(2)
  obtain s' where "(thread_step c t)\<^sup>*\<^sup>* s1 s'" "threads s' = (threads s)(t := Idle)" by auto
  with step show ?thesis by (blast intro: converse_rtranclp_into_rtranclp)
qed

definition free_for :: "(string \<Rightarrow> bool) \<Rightarrow> nat \<Rightarrow> http_request \<Rightarrow> Language \<Rightarrow> 'd server \<Rightarrow> bool" where
  "free_for too_big u req lang s \<longleftrightarrow>
     u < workers s \<and> task s u = None \<and> scheduled s = [] \<and> available (srv_sys s) lang > 0
     \<and> request_method req = ''POST'' \<and> request_wants too_big req = Inr (Some lang)"

lemma overtaking_round:
  assumes c: "docker_contract c issued" and cr: "always_creates c" and r: "server_reachable c too_big config d s"
    and free: "free_for too_big u req lang s"
  shows "\<exists>s'. (server_step c too_big)\<^sup>*\<^sup>* s s' \<and> free_for too_big u req lang s'
    \<and> threads (srv_sys s') = threads (srv_sys s) \<and> answered s' = answered s @ [req]"
proof -
  note inv = server_invD[OF server_reachable_inv[OF r]]
  have idle: "threads (srv_sys s) u = Idle" using inv(4)[of u] free by (auto simp: free_for_def)
  have "codeLauncherTypeIsValid lang (sys_pool (srv_sys s))"
    using free by (auto simp: free_for_def available_def idle_list_def codeLauncherTypeIsValid_def storage_contains_def
        split: option.splits)
  then obtain s1 where s1: "(server_step c too_big)\<^sup>*\<^sup>* s s1" "srv_sys s1 = called u lang (srv_sys s)"
      "task s1 = (task s)(u \<mapsto> (req, Called))" "scheduled s1 = []" "workers s1 = workers s" "answered s1 = answered s"
    using wait_request[of req u s too_big lang c] free by (auto simp: free_for_def)
  note r1 = server_reachable_steps[OF s1(1) r]
  have "available (srv_sys s1) lang > 0" using free by (simp add: s1(2) free_for_def available_def)
  then obtain v where v: "(thread_step c u)\<^sup>*\<^sup>* (srv_sys s1) v" "threads v = (threads (srv_sys s1))(u := Idle)"
    using take_and_run[OF c server_invD(1)[OF server_reachable_inv[OF r1]], of u lang] s1(2) by auto
  let ?s2 = "s1\<lparr>srv_sys := v\<rparr>"
  let ?s3 = "?s2\<lparr>task := (task ?s2)(u := None), answered := answered ?s2 @ [req]\<rparr>"
  have s3: "server_step c too_big ?s2 ?s3" by (rule server_step.answer[where st = Called]) (simp_all add: s1 v)
  have steps: "(server_step c too_big)\<^sup>*\<^sup>* s ?s3"
    using s1(1) work_steps[OF v(1), of too_big] s3 by (meson rtranclp.rtrancl_into_rtrancl rtranclp_trans)
  have threads: "threads v = threads (srv_sys s)" using v(2) idle by (auto simp: s1(2))
  have rv: "reachable c config d v"
    using server_invD(1)[OF server_reachable_inv[OF server_reachable_steps[OF steps r]]] by simp
  have "available v lang = available (srv_sys s) lang"
    using reachable_total[OF rv c, of lang] reachable_total[OF inv(1) c, of lang] nothing_lost[OF cr rv, of lang]
      nothing_lost[OF cr inv(1), of lang] threads by (simp add: in_use_def)
  with free have "free_for too_big u req lang ?s3" by (simp add: free_for_def s1)
  with steps threads show ?thesis by (intro exI[of _ ?s3]) (simp add: s1)
qed

section \<open>The server that main starts\<close>

text \<open>
  \<open>main\<close> makes a \<open>Server\<close> from the configuration, if there is one, and starts it; \<open>Server\<close> only holds a \<open>ServerImpl\<close>.
\<close>

definition main_server :: "config_env \<Rightarrow> 'd docker_client \<Rightarrow> 'd \<Rightarrow> 'd server option res" where
  "main_server env c d =
     rbind (getConfig env) (\<lambda>config. Inr (case config of None \<Rightarrow> None | Some conf \<Rightarrow> Some (server_init c conf d)))"

section \<open>Properties\<close>

text \<open>
  C11. Every accepted request is answered, given at least one worker, an engine that creates every container and
  requests whose parsing has a defined outcome: without new arrivals the server makes at most 11 steps per scheduled request
  and 10 per worker, in any order of the threads, and when none of its threads can go on, all requests it has accepted
  are answered, each once.
\<close>

theorem server_drains:
  assumes "docker_contract c issued" and "always_creates c" and "thread_count config \<noteq> 0"
    and "server_reachable c too_big config d s" and "\<forall>req \<in> set (accepted s). answerable too_big req"
    and "(internal_step c too_big ^^ k) s s'"
  shows "k \<le> 11 * length (scheduled s) + 10 * thread_count config
    \<and> ((\<exists>s''. internal_step c too_big s' s'') \<or> mset (answered s') = mset (accepted s))"
proof -
  note run = internal_steps[OF assms(6,4)]
  have inv': "server_inv c config d s'" by (rule server_reachable_inv) (rule run[THEN conjunct1])
  have "k \<le> 11 * length (scheduled s) + 10 * thread_count config"
    using run server_weight_le[of s] server_invD(2)[OF server_reachable_inv[OF assms(4)]] by simp
  moreover have "mset (answered s') = mset (accepted s)" if "\<nexists>s''. internal_step c too_big s' s''"
    using stopped_server[OF assms(1,2) inv' assms(3) _ that] run assms(5) by simp
  ultimately show ?thesis by blast
qed

theorem server_drains_witness:
  "\<exists>s. server_reachable steady small one_worker 0 s \<and> accepted s = [demo_req] \<and> answered s = []
     \<and> (\<forall>k s'. (internal_step steady small ^^ k) s s' \<longrightarrow>
          k \<le> 10 \<and> ((\<exists>s''. internal_step steady small s' s'') \<or> mset (answered s') = {#demo_req#}))"
proof -
  obtain s where s: "server_reachable steady small one_worker 0 s" "accepted s = [demo_req]" "answered s = []" "scheduled s = []"
    using waiting_worker by blast
  have "thread_count one_worker \<noteq> 0" by (simp add: one_worker_workers)
  from server_drains[OF steady_contract steady_creates this s(1)] s show ?thesis
    by (intro exI[of _ s]) (auto simp: answerable_def one_worker_workers)
qed

text \<open>
  C32. There is no fairness among waiting requests, also on an engine that creates every container: while a worker waits for a launcher that is there to be taken, another
  worker can serve any number of requests for the same language, because \<open>extract\<close> gives the launcher to whoever locks the
  mutex first.
\<close>

theorem waiting_request_overtaken:
  assumes "docker_contract c issued" and "always_creates c" and "server_reachable c too_big config d s"
    and "threads (srv_sys s) t = Waiting lang" and "available (srv_sys s) lang > 0"
    and "u < workers s" and "task s u = None" and "scheduled s = []"
    and "request_method req = ''POST''" and "request_wants too_big req = Inr (Some lang)"
  shows "\<exists>s'. (server_step c too_big)\<^sup>*\<^sup>* s s' \<and> answered s' = answered s @ replicate n req
    \<and> threads (srv_sys s') t = Waiting lang"
proof -
  have "\<exists>s'. (server_step c too_big)\<^sup>*\<^sup>* s s' \<and> free_for too_big u req lang s'
      \<and> threads (srv_sys s') = threads (srv_sys s) \<and> answered s' = answered s @ replicate n req"
  proof (induction n)
    case 0
    show ?case using assms(5-10) by (intro exI[of _ s]) (simp add: free_for_def)
  next
    case (Suc n)
    then obtain s1 where s1: "(server_step c too_big)\<^sup>*\<^sup>* s s1" "free_for too_big u req lang s1"
      "threads (srv_sys s1) = threads (srv_sys s)" "answered s1 = answered s @ replicate n req" by blast
    from overtaking_round[OF assms(1,2) server_reachable_steps[OF s1(1) assms(3)] s1(2)] s1
    show ?case by (metis (no_types, opaque_lifting) append.assoc replicate_Suc replicate_append_same rtranclp_trans)
  qed
  with assms(4) show ?thesis by metis
qed

theorem waiting_request_overtaken_witness:
  "\<exists>s s'. server_reachable steady small one_container 0 s \<and> threads (srv_sys s) 0 = Waiting CPP
     \<and> (server_step steady small)\<^sup>*\<^sup>* s s' \<and> answered s' = replicate 1000 demo_req \<and> threads (srv_sys s') 0 = Waiting CPP"
proof -
  have two: "thread_count one_container = 2" by (simp add: one_container_def thread_count_mod)
  obtain s where s: "server_reachable steady small one_container 0 s" "threads (srv_sys s) 0 = Waiting CPP"
      "available (srv_sys s) CPP = 1" "task s = [0 \<mapsto> (demo_req, Called)]" "workers s = 2" "answered s = []" "scheduled s = []"
    using waiting_on_demo_pool[OF steady_provider] by (auto simp: two)
  from waiting_request_overtaken[OF steady_contract steady_creates s(1,2), of 1 demo_req 1000] s show ?thesis by auto
qed

text \<open>
  C31. From the configuration file to the running server: when \<open>main\<close> starts a server on an engine that creates every
  container, that server has no request yet, and for each language as many idle launchers as the three tables
  of the configuration ask for together. The configured size of the thread pool is not zero, and the number of workers is
  that size without its upper 32 bits. The field \<open>maxContainersAmount\<close> limits nothing.
\<close>

theorem started_server:
  assumes "main_server env c d = Inr (Some s)" and "always_creates c"
  shows "\<exists>config. getConfig env = Inr (Some config) \<and> server_reachable c too_big config d s
    \<and> 0 < unat (threadPoolSize config) \<and> workers s = unat (threadPoolSize config) mod 2 ^ 32 \<and> accepted s = []
    \<and> (\<forall>lang. available (srv_sys s) lang
         = configured (courses config) lang + configured (playgrounds config) lang + configured (practices config) lang)
    \<and> (\<forall>n. server_init c (config\<lparr>maxContainersAmount := n\<rparr>) d = s)"
proof -
  obtain config where config: "getConfig env = Inr (Some config)" and s: "s = server_init c config d"
    using assms(1) by (auto simp: main_server_def rbind_Inr_iff split: option.splits)
  have "server_init c (config\<lparr>maxContainersAmount := n\<rparr>) d = s" for n
    by (simp add: s server_init_def ServerImpl_init_def provider_max_amount)
  with config getConfig_workers[OF config] provider_length[OF assms(2)] server_reachable.start show ?thesis
    by (intro exI[of _ config]) (simp add: s available_def sys_init_quiet unat_gt_0 thread_count_mod)
qed

theorem started_server_witness:
  "\<exists>s. main_server sample_env unlimited 0 = Inr (Some s) \<and> workers s = 12 \<and> available (srv_sys s) PYTHON = 9"
proof -
  have config: "getConfig sample_env = Inr (Some sample_config)"
    using fillConfig_ptree[OF sample_converts, of sample_config]
    by (simp add: getConfig_def findConfig_def readConfig_def kConfig_def sample_env_def sample_config_def)
  then have main: "main_server sample_env unlimited 0 = Inr (Some (server_init unlimited sample_config 0))"
    by (simp add: main_server_def)
  have "always_creates unlimited" by (simp add: always_creates_def unlimited_def)
  from started_server[OF main this] config show ?thesis
    by (auto simp: main sample_config_def)
qed

end
