(* ===== verification/Logging.thy ===== *)
theory Logging
  imports Json_Itoa "HOL-Library.Signed_Division"
begin

text \<open>
  \<open>src/common/logging.cpp\<close> and \<open>logging.hpp\<close>: which sinks and which kind of logger \<open>Log::init\<close> sets up, and what the
  logging functions write; \<open>LogDuration\<close> of \<open>src/common/common.cpp\<close>. spdlog and fmt are vendored libraries; a sink
  is the constructor call that makes it, a logger its name, its sinks and whether it is asynchronous, and of fmt the
  model has the replacement field without a format, the only one the program's format strings use.
\<close>

unbundle bit_operations_syntax

section \<open>Flags (logging.hpp)\<close>

datatype SinkType = StdOut | StdErr | Sink_Count

fun sink_underlying :: "SinkType \<Rightarrow> 32 word" where
  "sink_underlying StdOut = push_bit 0 1"
| "sink_underlying StdErr = push_bit 1 1"
| "sink_underlying Sink_Count = 2"

datatype ConcurrencyType = SingleThreaded | MultiThreaded | Async | Concurrency_Count

fun concurrency_underlying :: "ConcurrencyType \<Rightarrow> 32 word" where
  "concurrency_underlying SingleThreaded = push_bit 0 1"
| "concurrency_underlying MultiThreaded = push_bit 1 1"
| "concurrency_underlying Async = push_bit 2 1"
| "concurrency_underlying Concurrency_Count = 3"

section \<open>Log::init (logging.cpp)\<close>

datatype sink =
    stdout_color_sink_mt
  | stdout_color_sink_st
  | stderr_color_sink_mt
  | stderr_color_sink_st
  | rotating_file_sink_mt (sink_file: string) (sink_max_size: nat) (sink_files: nat)

record logger =
  logger_name :: string
  logger_sinks :: "sink list"
  logger_async :: bool

text \<open>
  \<open>sinks[sinkCount++] = \<dots>\<close> on an array of \<open>SinkType::Count\<close> elements; the list holds the elements written so
  far. A write past the end is not checked: its outcome is \<open>Undefined\<close>.
\<close>

definition push_sink :: "sink \<Rightarrow> sink list \<Rightarrow> sink list res" where
  "push_sink new sinks =
     (if length sinks < unat (sink_underlying Sink_Count) then Inr (sinks @ [new])
      else Inl (Undefined ''write past the end of the array''))"

text \<open>The assertion \<open>!isMt\<close> of the asynchronous branch does nothing in the modelled build.\<close>

definition Log_init :: "string \<Rightarrow> 32 word \<Rightarrow> 32 word \<Rightarrow> logger res" where
  "Log_init log_file concurrency sinkFlags =
     (let isMt = concurrency AND concurrency_underlying MultiThreaded \<noteq> 0 in
      rbind (if sinkFlags AND sink_underlying StdOut \<noteq> 0
             then push_sink (if isMt then stdout_color_sink_mt else stdout_color_sink_st) [] else Inr [])
        (\<lambda>sinks1.
      rbind (if sinkFlags AND sink_underlying StdErr \<noteq> 0
             then push_sink (if isMt then stderr_color_sink_mt else stderr_color_sink_st) sinks1 else Inr sinks1)
        (\<lambda>sinks2.
      rbind (if log_file \<noteq> []
             then push_sink (rotating_file_sink_mt log_file (1024 * 1024 * 10) 3) sinks2 else Inr sinks2)
        (\<lambda>sinks.
      if concurrency AND concurrency_underlying Async \<noteq> 0 then
        Inr \<lparr>logger_name = ''async_logger'', logger_sinks = sinks, logger_async = True\<rparr>
      else Inr \<lparr>logger_name = ''sync_logger'', logger_sinks = sinks, logger_async = False\<rparr>))))"

text \<open>The constructor of the global object calls \<open>init("")\<close>, the other arguments have defaults.\<close>

definition Log_default :: "logger res" where
  "Log_default = Log_init [] (concurrency_underlying SingleThreaded) (sink_underlying StdOut)"

section \<open>Levels\<close>

datatype level_enum = level_trace | level_debug | level_info | level_warn | level_err | level_critical | level_off

fun level_value :: "level_enum \<Rightarrow> nat" where
  "level_value level_trace = 0"
| "level_value level_debug = 1"
| "level_value level_info = 2"
| "level_value level_warn = 3"
| "level_value level_err = 4"
| "level_value level_critical = 5"
| "level_value level_off = 6"

lemma level_value_inj: "level_value a = level_value b \<Longrightarrow> a = b"
  by (cases a; cases b) simp_all

instantiation level_enum :: linorder
begin

definition less_eq_level_enum :: "level_enum \<Rightarrow> level_enum \<Rightarrow> bool" where
  "less_eq_level_enum a b \<longleftrightarrow> level_value a \<le> level_value b"

definition less_level_enum :: "level_enum \<Rightarrow> level_enum \<Rightarrow> bool" where
  "less_level_enum a b \<longleftrightarrow> level_value a < level_value b"

instance
  by standard (auto simp: less_eq_level_enum_def less_level_enum_def intro: level_value_inj)

end

section \<open>Format strings\<close>

text \<open>
  \<open>vformat text args\<close>: a doubled brace stands for one brace, an empty replacement field for the next argument; every
  other brace is a format error, \<open>None\<close>. A text formatted without arguments has no valid replacement field at all.
\<close>

fun vformat :: "string \<Rightarrow> string list \<Rightarrow> string option" where
  "vformat [] args = Some []"
| "vformat (c # cs) args =
     (if c = CHR 0x7B then
        (case cs of
           [] \<Rightarrow> None
         | e # es \<Rightarrow>
             if e = CHR 0x7B then map_option (Cons (CHR 0x7B)) (vformat es args)
             else if e = CHR 0x7D then
               (case args of [] \<Rightarrow> None | a # rest \<Rightarrow> map_option (append a) (vformat es rest))
             else None)
      else if c = CHR 0x7D then
        (case cs of
           [] \<Rightarrow> None
         | e # es \<Rightarrow> if e = CHR 0x7D then map_option (Cons (CHR 0x7D)) (vformat es args) else None)
      else map_option (Cons c) (vformat cs args))"

abbreviation no_braces :: "string \<Rightarrow> bool" where
  "no_braces s \<equiv> CHR 0x7B \<notin> set s \<and> CHR 0x7D \<notin> set s"

lemma vformat_plain: "no_braces s \<Longrightarrow> vformat s args = Some s"
  by (induction s) auto

lemma vformat_shrinks:
  "vformat s [] = Some r \<Longrightarrow> length r \<le> length s \<and> (length r = length s \<longrightarrow> no_braces s)"
proof (induction s arbitrary: r rule: measure_induct_rule[where f = length])
  case (less s)
  show ?case
  proof (cases s)
    case (Cons c cs)
    show ?thesis
    proof (cases "c = CHR 0x7B \<or> c = CHR 0x7D")
      case True
      then obtain es r' where cs: "cs = c # es" "vformat es [] = Some r'" "r = c # r'"
        using less.prems Cons by (auto split: list.splits if_splits)
      then have "length r' \<le> length es" using less.IH[of es r'] Cons by simp
      with cs Cons show ?thesis by simp
    next
      case False
      then obtain r' where "vformat cs [] = Some r'" "r = c # r'" using less.prems Cons by auto
      then show ?thesis using less.IH[of cs r'] Cons False by auto
    qed
  qed (use less.prems in simp)
qed

lemma vformat_verbatim: "vformat s [] = Some s \<longleftrightarrow> no_braces s"
  using vformat_plain[of s "[]"] vformat_shrinks[of s s] by blast

section \<open>The logging functions (logging.hpp)\<close>

text \<open>
  The global logger with its two levels: what each sink has been given, how often the sinks were flushed, the messages
  queued for the thread of an asynchronous logger, and how many messages were dropped by the error handler. The level
  of every sink is the lowest, which nothing changes.
\<close>

record log_state =
  m_log :: logger
  log_level :: level_enum
  flush_level :: level_enum
  log_out :: "(sink \<times> level_enum \<times> string) list"
  log_flushes :: nat
  log_queue :: "(level_enum \<times> string) list"
  log_errors :: nat

definition log_start :: "logger \<Rightarrow> log_state" where
  "log_start l = \<lparr>m_log = l, log_level = level_info, flush_level = level_off, log_out = [], log_flushes = 0,
     log_queue = [], log_errors = 0\<rparr>"

definition sink_it :: "level_enum \<Rightarrow> string \<Rightarrow> log_state \<Rightarrow> log_state" where
  "sink_it lvl msg s =
     (if logger_async (m_log s) then s\<lparr>log_queue := log_queue s @ [(lvl, msg)]\<rparr>
      else
        (let s1 = s\<lparr>log_out := log_out s @ map (\<lambda>k. (k, lvl, msg)) (filter (\<lambda>_. level_trace \<le> lvl) (logger_sinks (m_log s)))\<rparr> in
         if flush_level s \<le> lvl \<and> lvl \<noteq> level_off then s1\<lparr>log_flushes := Suc (log_flushes s1)\<rparr> else s1))"

definition logger_log :: "level_enum \<Rightarrow> string \<Rightarrow> string list \<Rightarrow> log_state \<Rightarrow> log_state" where
  "logger_log lvl fmt args s =
     (if \<not> log_level s \<le> lvl then s
      else case vformat fmt args of
          None \<Rightarrow> s\<lparr>log_errors := Suc (log_errors s)\<rparr>
        | Some msg \<Rightarrow> sink_it lvl msg s)"

definition Log_trace :: "string \<Rightarrow> string list \<Rightarrow> log_state \<Rightarrow> log_state" where
  "Log_trace fmt args = logger_log level_trace fmt args"

definition Log_debug :: "string \<Rightarrow> string list \<Rightarrow> log_state \<Rightarrow> log_state" where
  "Log_debug fmt args = logger_log level_debug fmt args"

definition Log_info :: "string \<Rightarrow> string list \<Rightarrow> log_state \<Rightarrow> log_state" where
  "Log_info fmt args = logger_log level_info fmt args"

definition Log_warning :: "string \<Rightarrow> string list \<Rightarrow> log_state \<Rightarrow> log_state" where
  "Log_warning fmt args = logger_log level_warn fmt args"

definition Log_error :: "string \<Rightarrow> string list \<Rightarrow> log_state \<Rightarrow> log_state" where
  "Log_error fmt args = logger_log level_err fmt args"

definition Log_critical :: "string \<Rightarrow> string list \<Rightarrow> log_state \<Rightarrow> log_state" where
  "Log_critical fmt args = logger_log level_critical fmt args"

definition Log_setLevel :: "level_enum \<Rightarrow> log_state \<Rightarrow> log_state" where
  "Log_setLevel lvl s = s\<lparr>log_level := lvl\<rparr>"

definition Log_flushOn :: "level_enum \<Rightarrow> log_state \<Rightarrow> log_state" where
  "Log_flushOn lvl s = s\<lparr>flush_level := lvl\<rparr>"

lemma lowest_level [simp]: "level_trace \<le> (lvl :: level_enum)"
  by (simp add: less_eq_level_enum_def)

lemma logger_log_out:
  assumes "\<not> logger_async (m_log s)"
  shows "log_out (logger_log lvl fmt args s) = log_out s @
    (case vformat fmt args of
       Some msg \<Rightarrow> if log_level s \<le> lvl then map (\<lambda>k. (k, lvl, msg)) (logger_sinks (m_log s)) else []
     | None \<Rightarrow> [])"
  using assms by (auto simp: logger_log_def sink_it_def Let_def split: option.splits)

section \<open>LogDuration (common.cpp)\<close>

text \<open>
  Times are the ticks of the system clock, one per nanosecond; \<open>duration_cast\<close> divides towards zero. The object logs
  when it is destroyed.
\<close>

record LogDuration =
  m_operation :: string
  m_start :: int

definition LogDuration_init :: "string \<Rightarrow> int \<Rightarrow> LogDuration" where
  "LogDuration_init operation now = \<lparr>m_operation = operation, m_start = now\<rparr>"

definition duration_ms :: "int \<Rightarrow> int \<Rightarrow> int" where
  "duration_ms start now = (now - start) sdiv 1000000"

definition LogDuration_destroy :: "LogDuration \<Rightarrow> int \<Rightarrow> log_state \<Rightarrow> log_state" where
  "LogDuration_destroy l now =
     Log_info ''Duration for {} is {} milliseconds'' [m_operation l, dec_int (duration_ms (m_start l) now)]"

lemma duration_text: "vformat ''Duration for {} is {} milliseconds'' [a, b] = Some (''Duration for '' @ a @ '' is '' @ b @ '' milliseconds'')"
  by simp

section \<open>Properties\<close>

text \<open>
  \<open>Log::init\<close> writes past the end of its two-element array for both console sinks together with a log file, and for
  no other arguments.
\<close>

lemma log_init_overrun_iff:
  "Log_init log_file concurrency sinkFlags = Inl f \<longleftrightarrow>
     f = Undefined ''write past the end of the array'' \<and> sinkFlags AND 1 \<noteq> 0 \<and> sinkFlags AND 2 \<noteq> 0 \<and> log_file \<noteq> []"
  by (auto simp: Log_init_def Let_def push_sink_def push_bit_eq_mult)

text \<open>
  The logger of the service: \<open>Log::Log()\<close> sets up one single-threaded console sink without asynchronous
  queue, although every request thread logs through it.
\<close>

theorem default_logger_single_threaded:
  "Log_default = Inr \<lparr>logger_name = ''sync_logger'', logger_sinks = [stdout_color_sink_st], logger_async = False\<rparr>"
  by (simp add: Log_default_def Log_init_def push_sink_def push_bit_eq_mult)

text \<open>
  C40. A text that \<open>Log::info\<close> gets as its format string without arguments reaches the sinks of a synchronous logger as it is
  exactly when it has no braces; with a brace in it the line is changed or lost. \<open>processRequest\<close> logs its error message in
  that way, and the message holds the handle or the unknown language of the request.
\<close>

theorem runtime_text_logged_iff:
  assumes "\<not> logger_async (m_log s)" and "logger_sinks (m_log s) \<noteq> []" and "log_level s \<le> level_info"
  shows "log_out (Log_info msg [] s) = log_out s @ map (\<lambda>k. (k, level_info, msg)) (logger_sinks (m_log s))
    \<longleftrightarrow> no_braces msg"
proof -
  have "map (\<lambda>k. (k, level_info, m)) (logger_sinks (m_log s)) = map (\<lambda>k. (k, level_info, msg)) (logger_sinks (m_log s))
      \<longleftrightarrow> m = msg" for m
    using assms(2) by (cases "logger_sinks (m_log s)") auto
  then show ?thesis
    using assms(3) vformat_verbatim[of msg] assms(2)
    by (cases "vformat msg []") (auto simp: Log_info_def logger_log_out[OF assms(1)])
qed

theorem runtime_text_logged_iff_witness:
  "log_out (Log_info (''Unknowon api: /a'' @ [CHR 0x7B]) []
      (log_start \<lparr>logger_name = ''sync_logger'', logger_sinks = [stdout_color_sink_st], logger_async = False\<rparr>))
   \<noteq> [(stdout_color_sink_st, level_info, ''Unknowon api: /a'' @ [CHR 0x7B])]"
  using runtime_text_logged_iff[of "log_start \<lparr>logger_name = ''sync_logger'', logger_sinks = [stdout_color_sink_st],
      logger_async = False\<rparr>" "''Unknowon api: /a'' @ [CHR 0x7B]"]
  by (simp add: log_start_def)

text \<open>
  The duration of an operation is logged in whole milliseconds, rounded towards zero, also when the system clock was
  set back in between.
\<close>

theorem duration_logged:
  assumes "Log_default = Inr l"
  shows "log_out (LogDuration_destroy (LogDuration_init operation start) now (log_start l))
      = [(stdout_color_sink_st, level_info,
          ''Duration for '' @ operation @ '' is '' @ dec_int (duration_ms start now) @ '' milliseconds'')]
    \<and> \<bar>(now - start) - 1000000 * duration_ms start now\<bar> < 1000000"
proof -
  have l: "l = \<lparr>logger_name = ''sync_logger'', logger_sinks = [stdout_color_sink_st], logger_async = False\<rparr>"
    using assms by (simp add: Log_default_def Log_init_def push_sink_def push_bit_eq_mult)
  have "\<bar>x - 1000000 * (x sdiv 1000000)\<bar> < 1000000" for x :: int
  proof -
    have "sgn x * \<bar>x\<bar> = x" by (rule sgn_mult_abs)
    moreover have "1000000 * (\<bar>x\<bar> div 1000000) + \<bar>x\<bar> mod 1000000 = \<bar>x\<bar>" by simp
    ultimately show ?thesis
      by (cases x "0 :: int" rule: linorder_cases) (auto simp: signed_divide_int_def)
  qed
  then show ?thesis
    by (simp add: LogDuration_destroy_def LogDuration_init_def Log_info_def logger_log_out log_start_def l duration_ms_def
        duration_text del: vformat.simps)
qed

end
