(* ===== verification/Spec2Isabelle.thy ===== *)
theory Spec2Isabelle
  imports Container_Answer Pool_Startup Service Json_Fuel Request_Parser Server Project_Requests Storage_Monitor Server_Progress Logging
begin

text \<open>
  Verification of watchman, a service that runs programs sent by users inside Docker containers
  (\<open>src/src\<close>, C++). This header describes the parts of the program, the theories that model them and what
  is shown.

  \<^bold>\<open>The program.\<close> \<open>main.cpp\<close> reads the configuration and starts the server. The server
  (\<open>server/detail/server_impl.cpp\<close>) accepts POST requests for the handles \<open>/check\<close>, \<open>/playground\<close> and
  \<open>/practice\<close>; a thread of a pool parses the body (\<open>core/parser.cpp\<close>, \<open>core/detail/directory_traverser.cpp\<close>,
  with rapidjson), asks the service (\<open>core/service.cpp\<close>) to run the code and writes the answer as JSON. The
  service takes a launcher for the language from the provider
  (\<open>core/code_launcher/detail/restarting_code_launcher_provider.cpp\<close>), which keeps the idle launchers in
  \<open>storage.hpp\<close>; a launcher (\<open>code_launchers.cpp\<close>) uploads an archive to its container, runs the script in it and
  interprets its output (\<open>process_chapter.cpp\<close>, \<open>process_playground.cpp\<close>, \<open>answer_common.cpp\<close>). When the handler is
  left, the destructor of the launcher removes the container and creates a new one
  (\<open>container_manipulator.cpp\<close>). All requests to Docker go through \<open>docker_wrapper.cpp\<close>.

  \<^bold>\<open>The theories.\<close>
  \<^item> \<open>Watchman_Prelude\<close>: outcomes of a call (a value, an exception, the end of the process, no defined outcome, a blocked thread), operations on
    a state, scopes with a destructor, \<open>std::string\<close> searching with 64-bit positions.
  \<^item> \<open>Domain_Types\<close>: the structs and enumerations of \<open>common/*.hpp\<close>, \<open>response.hpp\<close> and \<open>code_launcher_info.hpp\<close>, with what
    \<open>return {}\<close> gives.
  \<^item> \<open>Container_Answer\<close>: how the output of a container becomes a response. Round trips with the marker protocol of
    the scripts, absence of exceptions for all outputs, timeouts, and the two ways the protocol can be misread.
  \<^item> \<open>Docker_Wrapper\<close>: the wrapper over the client parameter, and the contract used of it (identifiers are never reissued).
  \<^item> \<open>Launcher_Storage\<close>: the storage of idle launchers; its contract is the locale \<open>extracting_storage\<close>, interpreted on it.
  \<^item> \<open>Storage_Monitor\<close>: the same storage in the pieces the threads run, with its mutex, its condition variable and spurious wake-ups.
    Every interleaving is a sequence of the atomic operations, and no wake-up is lost.
  \<^item> \<open>Code_Launcher\<close>: launchers, the manipulator and the provider as sequential operations on a pool.
  \<^item> \<open>Launcher_Pool\<close>, \<open>Pool_Progress\<close>: the relation \<open>pool_step\<close> interleaves those operations for any number of threads, one
    step per critical section. Exclusive and single use of containers, conservation of launchers, progress of
    waiting threads, and starvation after lost containers; every sequential call is a run of the relation.
  \<^item> \<open>Pool_Startup\<close>: what the constructor of the provider creates, and what it removes from an engine that behaves as documented.
  \<^item> \<open>Service\<close>: the three operations of the service, the archives and the commands. What they rely on is the locale
    \<open>launcher_provider\<close>, interpreted on the pool.
  \<^item> \<open>Json_Reader\<close>, \<open>Json_Fuel\<close>, \<open>Json_Numbers\<close>, \<open>Json_Dom\<close>: the recursive reader of rapidjson with its default flags, its
    termination, exact integers (locale \<open>digit_loop\<close>, interpreted on the 32-bit and the 64-bit loop), and the accessors of documents, also
    on values of another type.
  \<^item> \<open>Json_Itoa\<close>, \<open>Json_Writer\<close>, \<open>Json_Roundtrip\<close>: the writer, the equality of its number printing with decimal notation, and the
    round trip of objects through writer and reader.
  \<^item> \<open>Project_Tree\<close>: project trees, their paths, where these lead, and archives.
  \<^item> \<open>Config_Reader\<close>: the configuration and \<open>main\<close>.
  \<^item> \<open>Request_Parser\<close>, \<open>Project_Requests\<close>: requests from JSON and answers to JSON.
  \<^item> \<open>Server\<close>: \<open>processRequest\<close> and \<open>internalProcessRequest\<close>; every request is a run of the pool relation, its possible outcomes,
    and a chapter request from body to answer. \<open>Project_Requests\<close> has the same for the playground and the practice.
  \<^item> \<open>Request_Sequences\<close>: requests served one after the other leave the pool as it was after start.
  \<^item> \<open>Server_Threads\<close>: the server with its thread pool. The relation \<open>server_step\<close> has requests arrive, be scheduled, be taken by
    one of \<open>thread_count\<close> workers (the configured size without its upper 32 bits), go through the steps of \<open>pool_step\<close>, and be answered; a call of
    \<open>internalProcessRequest\<close> is a run of it. No request is lost, requests get launchers of their language, enough containers mean no
    waiting, and workers that wait for a lost language stop the server.
  \<^item> \<open>Server_Progress\<close>: every run without new arrivals is bounded and ends with all accepted requests answered, when the engine
    creates every container; waiting requests can be overtaken; the server as \<open>main\<close> starts it from the configuration.
  \<^item> \<open>Logging\<close>: the set-up of the logger, the logging functions with levels and format strings, and \<open>LogDuration\<close>.

  \<^bold>\<open>Parameters.\<close> Code that is not in the repository is an argument of the definitions: the Docker client (\<open>docker_client\<close>, one
  function per request over any engine state), the archive writer (\<open>tar_creator\<close>), the property tree reader of boost, the file
  system and the number of processors (\<open>config_env\<close>), and whether the value of a JSON number is too big for a \<open>double\<close> (\<open>too_big\<close>).
  What a theorem needs of them is a hypothesis, with a concrete instance in its witness.

  \<^bold>\<open>Bounds and fuel.\<close> The recursion of the JSON reader has a bound on its depth; \<open>Parse\<close> uses \<open>2 * length + 1\<close>, and
  \<open>reader_terminates\<close> shows that this is enough for every input and that more changes nothing. Positions in strings are 64-bit words,
  status codes 32-bit words, lengths in the JSON writer 32-bit words: a string in an answer is written completely when
  \<open>6 * length + 2\<close> is below \<open>2 ^ 32\<close> (\<open>fits32\<close>); beyond that the outcome may be \<open>Undefined\<close>. A JSON text is taken to be shorter than \<open>2 ^ 32\<close> bytes.

  \<^bold>\<open>Failures.\<close> \<open>std::terminate\<close> is the outcome \<open>Abort\<close>; waiting for a launcher is \<open>Block\<close>; memory that is read as something it is not
  or written past its end is \<open>Undefined\<close>, after which nothing is claimed. No \<open>catch\<close> handles any of them. The model is of the default
  build. \<open>third_party/spdlog/CMakeLists.txt\<close> sets \<open>CMAKE_BUILD_TYPE\<close> to Release when none is given, and the RPM specification gives
  Release: \<open>NDEBUG\<close> is defined, the assertions of the program and of rapidjson do nothing, and an accessor called on a JSON value of another
  type reads the bytes of that value by its own layout (\<open>data_size\<close> and \<open>null_pointer\<close> of \<open>Json_Dom\<close>). Making a \<open>std::string\<close> from a null
  pointer throws, as in libstdc++.

  \<^bold>\<open>Not modelled.\<close> The log lines of the operations outside \<open>Logging\<close> (the engine requests a log statement makes are kept); the HTTP
  protocol, sockets and request timeouts of restinio; the order in which libunifex runs scheduled tasks, of which \<open>server_step\<close> allows
  every one; the unlocked lookup of a language in \<open>contains\<close>, which reads a map whose keys do not change after start
  (\<open>Pool_Progress\<close> shows that they do not); floating-point values of JSON numbers; the limit of the stack for deeply
  nested JSON; exceptions thrown by the Docker client; errors of the file system in \<open>std::filesystem::exists\<close>, which would end the process; what
  an answer says, in \<open>server_step\<close>, where a call of \<open>internalProcessRequest\<close> is shown to be a run; the one-thread context that runs
  the jobs of the container manipulator, whose jobs are steps of \<open>pool_step\<close>; the forwarding of \<open>DockerWrapper\<close> to its \<open>Impl\<close>; tests,
  scripts and packaging. The lines of src/src that no definition models are includes, declarations of classes and functions, log
  statements, comments and the port, address and timeout constants of the server.
\<close>

end
